(* ===== verification/Prelude.thy ===== *)
theory Prelude
  imports Main "HOL-Library.Word" "HOL-Library.AList" "HOL-Library.Product_Lexorder"
begin

section \<open>Shared vocabulary: Python strings, integers, slices and dictionaries\<close>

text \<open>
  What every component of the model uses: the result type, Python's \<open>str\<close> operations that the
  program calls, slices with a negative bound, insertion-ordered dictionaries and the task
  identifiers. A Python exception is a value \<open>Inl e\<close>, a normal return \<open>Inr v\<close>.

  A Python \<open>str\<close> is a sequence of code points; the model's \<open>string\<close> has 256 characters. They
  are read as the Windows-1252 code page, so that the two non-Latin-1 characters the program
  writes itself, the ellipsis (0x85) and the em dash (0x97), are single characters here as they
  are single code points there, and \<open>length\<close> is Python's \<open>len\<close>.
\<close>

type_synonym ('e, 'a) result = "'e + 'a"

text \<open>\<open>char_simps\<close>: evaluation of the character tests; \<open>dict_simps\<close>: ordered dictionaries.\<close>

named_theorems char_simps
named_theorems dict_simps


subsection \<open>Decimal integers and UUIDs as text\<close>

definition digit_char :: "nat \<Rightarrow> char" where
  "digit_char n = (if n < 10 then char_of (48 + n) else char_of (87 + n))"

fun nat_str :: "nat \<Rightarrow> string" where
  "nat_str n = (if n < 10 then [digit_char n] else nat_str (n div 10) @ [digit_char (n mod 10)])"

declare nat_str.simps [simp del]

definition int_str :: "int \<Rightarrow> string" where
  "int_str i = (if i < 0 then ''-'' @ nat_str (nat (- i)) else nat_str (nat i))"

lemma nat_str_nonempty [simp]: "nat_str n \<noteq> []"
  by (subst nat_str.simps) simp

lemma int_str_nonempty [simp]: "int_str i \<noteq> []"
  by (simp add: int_str_def)

text \<open>The inverses: \<open>int(s)\<close> of a decimal numeral.\<close>

definition parse_digits :: "string \<Rightarrow> nat" where
  "parse_digits s = foldl (\<lambda>a c. 10 * a + (of_char c - 48)) 0 s"

lemma parse_nat_str [simp]: "parse_digits (nat_str n) = n"
proof (induction n rule: nat_str.induct)
  case (1 n)
  have digit: "of_char (digit_char d) - 48 = d" if "d < 10" for d :: nat
    using that by (simp add: digit_char_def of_char_of take_bit_eq_mod)
  show ?case
  proof (cases "n < 10")
    case True
    then show ?thesis by (subst nat_str.simps) (simp add: parse_digits_def digit)
  next
    case False
    then show ?thesis
      using 1 by (subst nat_str.simps) (simp add: parse_digits_def digit)
  qed
qed

definition parse_int :: "string \<Rightarrow> int" where
  "parse_int s = (case s of [] \<Rightarrow> 0
     | c # cs \<Rightarrow> if c = CHR ''-'' then - int (parse_digits cs) else int (parse_digits s))"

lemma hd_nat_str: "hd (nat_str n) \<noteq> CHR ''-''"
proof (induction n rule: nat_str.induct)
  case (1 n)
  have "digit_char d \<noteq> CHR ''-''" if "d < 10" for d
  proof
    assume "digit_char d = CHR ''-''"
    then have "of_char (digit_char d) = (45::nat)" by simp
    with that show False by (simp add: digit_char_def of_char_of take_bit_eq_mod)
  qed
  then show ?case
    using 1 by (subst nat_str.simps) (simp add: hd_append)
qed

lemma parse_int_str [simp]: "parse_int (int_str i) = i"
proof (cases "i < 0")
  case True
  then show ?thesis by (simp add: parse_int_def int_str_def)
next
  case False
  obtain c cs where c: "nat_str (nat i) = c # cs" "c \<noteq> CHR ''-''"
    using hd_nat_str [of "nat i"] by (metis list.collapse nat_str_nonempty)
  have "parse_digits (c # cs) = nat i" using parse_nat_str [of "nat i"] c(1) by simp
  then show ?thesis using False c by (simp add: parse_int_def int_str_def)
qed

text \<open>A UUID is a 128-bit value, ordered by that value, printed as 8-4-4-4-12 hex digits.\<close>

type_synonym uuid = "128 word"

definition hex_digits :: "nat \<Rightarrow> nat \<Rightarrow> string" where
  "hex_digits k n = map (\<lambda>i. digit_char (n div 16 ^ i mod 16)) (rev [0..<k])"

definition uuid_str :: "uuid \<Rightarrow> string" where
  "uuid_str u = (let h = hex_digits 32 (unat u) in
     take 8 h @ ''-'' @ take 4 (drop 8 h) @ ''-'' @ take 4 (drop 12 h) @ ''-'' @
     take 4 (drop 16 h) @ ''-'' @ drop 20 h)"


subsection \<open>String operations\<close>

text \<open>\<open>str.isspace\<close> on the model's characters; 0xA0 is the no-break space.\<close>

definition is_space :: "char \<Rightarrow> bool" where
  "is_space c \<longleftrightarrow>
     (let n = of_char c in (9 \<le> n \<and> n \<le> (13::nat)) \<or> (28 \<le> n \<and> n \<le> 32) \<or> n = 160)"

definition py_lstrip :: "string \<Rightarrow> string" where
  "py_lstrip s = dropWhile is_space s"

definition py_rstrip :: "string \<Rightarrow> string" where
  "py_rstrip s = rev (dropWhile is_space (rev s))"

definition py_strip :: "string \<Rightarrow> string" where
  "py_strip s = py_rstrip (py_lstrip s)"

text \<open>
  Pydantic's \<open>str_strip_whitespace\<close> strips Unicode's \<open>White_Space\<close>, which \<open>str.strip\<close> exceeds by
  the four separators 0x1C to 0x1F.
\<close>

definition is_white :: "char \<Rightarrow> bool" where
  "is_white c \<longleftrightarrow> (let n = of_char c in (9 \<le> n \<and> n \<le> (13::nat)) \<or> n = 32 \<or> n = 160)"

definition trim :: "string \<Rightarrow> string" where
  "trim s = rev (dropWhile is_white (rev (dropWhile is_white s)))"

lemma length_trim_le: "length (trim s) \<le> length s"
proof -
  have "length (trim s) \<le> length (dropWhile is_white s)"
    unfolding trim_def by (metis length_dropWhile_le length_rev)
  also have "\<dots> \<le> length s" by (rule length_dropWhile_le)
  finally show ?thesis .
qed

lemma trim_no_white: "list_all (\<lambda>c. \<not> is_white c) s \<Longrightarrow> trim s = s"
proof -
  have keep: "dropWhile is_white xs = xs" if "list_all (\<lambda>c. \<not> is_white c) xs" for xs
    using that by (cases xs) simp_all
  assume "list_all (\<lambda>c. \<not> is_white c) s"
  then show ?thesis by (simp add: trim_def keep)
qed

lemma trim_trim [simp]: "trim (trim s) = trim s"
proof -
  let ?d = "dropWhile is_white"
  have dd: "?d (?d xs) = ?d xs" for xs by (rule dropWhile_idem)
  have head: "?d xs = xs \<longleftrightarrow> xs = [] \<or> \<not> is_white (hd xs)" for xs
    using dropWhile_eq_self_iff by blast
  let ?y = "rev (?d (rev (?d s)))"
  have "?d ?y = ?y"
  proof (cases "?y = []")
    case False
    obtain k where "?d (rev (?d s)) = drop k (rev (?d s))"
      by (metis dropWhile_eq_drop)
    then have y: "?y = take (length (?d s) - k) (?d s)"
      by (simp add: rev_drop)
    then have "hd ?y = hd (?d s)" "?d s \<noteq> []"
      using False by (metis hd_take take_eq_Nil neq0_conv, metis take_Nil)
    moreover have "\<not> is_white (hd (?d s))"
      using calculation(2) by (rule hd_dropWhile)
    ultimately show ?thesis using head by metis
  next
    case True
    then show ?thesis by (simp only: dropWhile.simps)
  qed
  then show ?thesis by (simp add: trim_def dd)
qed

fun py_join :: "string \<Rightarrow> string list \<Rightarrow> string" where
  "py_join sep [] = []"
| "py_join sep [x] = x"
| "py_join sep (x # y # xs) = x @ sep @ py_join sep (y # xs)"

text \<open>Membership in the classes the program's patterns use.\<close>

definition is_digit :: "char \<Rightarrow> bool" where
  "is_digit c \<longleftrightarrow> (let n = of_char c in 48 \<le> n \<and> n \<le> (57::nat))"

definition is_lower :: "char \<Rightarrow> bool" where
  "is_lower c \<longleftrightarrow> (let n = of_char c in 97 \<le> n \<and> n \<le> (122::nat))"

definition is_upper :: "char \<Rightarrow> bool" where
  "is_upper c \<longleftrightarrow> (let n = of_char c in 65 \<le> n \<and> n \<le> (90::nat))"

definition is_alnum_ascii :: "char \<Rightarrow> bool" where
  "is_alnum_ascii c \<longleftrightarrow> is_digit c \<or> is_lower c \<or> is_upper c"

lemmas char_class_defs [char_simps] =
  is_space_def is_digit_def is_lower_def is_upper_def is_alnum_ascii_def

text \<open>A pattern \<open>^[class]{lo,hi}$\<close> matched against the whole string.\<close>

definition matches_class :: "(char \<Rightarrow> bool) \<Rightarrow> nat \<Rightarrow> nat \<Rightarrow> string \<Rightarrow> bool" where
  "matches_class p lo hi s \<longleftrightarrow> lo \<le> length s \<and> length s \<le> hi \<and> list_all p s"


subsection \<open>Slices\<close>

text \<open>\<open>xs[:n]\<close>: a negative bound counts from the end.\<close>

definition py_take :: "int \<Rightarrow> 'a list \<Rightarrow> 'a list" where
  "py_take n xs = (if 0 \<le> n then take (nat n) xs else take (nat (int (length xs) + n)) xs)"

lemma py_take_nonneg [simp]: "0 \<le> n \<Longrightarrow> py_take n xs = take (nat n) xs"
  by (simp add: py_take_def)

lemma length_py_take_le: "length (py_take n xs) \<le> length xs"
  by (cases "0 \<le> n") (auto simp: py_take_def)

lemma set_py_take_subset: "set (py_take n xs) \<subseteq> set xs"
  by (auto simp: py_take_def dest: in_set_takeD)

text \<open>\<open>sorted(xs, key=k, reverse=True)\<close>: stable for equal keys, largest first.\<close>

definition sorted_desc :: "('a \<Rightarrow> 'b::linorder) \<Rightarrow> 'a list \<Rightarrow> 'a list" where
  "sorted_desc k xs = rev (sort_key k (rev xs))"

lemma set_sorted_desc [simp]: "set (sorted_desc k xs) = set xs"
  by (simp add: sorted_desc_def)

lemma length_sorted_desc [simp]: "length (sorted_desc k xs) = length xs"
  by (simp add: sorted_desc_def)

lemma sorted_desc_decreasing: "sorted_wrt (\<lambda>a b. k b \<le> k a) (sorted_desc k xs)"
proof -
  have "sorted_wrt (\<lambda>a b. k a \<le> k b) (sort_key k (rev xs))"
    using sorted_sort_key [of k "rev xs"] by (simp add: sorted_map)
  then show ?thesis
    by (simp add: sorted_desc_def sorted_wrt_rev)
qed

lemma distinct_sorted_desc:
  "distinct (map k xs) \<Longrightarrow> distinct (map k (sorted_desc k xs))"
  by (simp add: distinct_map sorted_desc_def)

lemma strictly_sorted_desc:
  assumes "distinct (map k xs)"
  shows "sorted_wrt (\<lambda>a b. k b < k a) (sorted_desc k xs)"
proof -
  have "sorted_wrt (\<lambda>a b. k b \<le> k a) (sorted_desc k xs)"
    by (rule sorted_desc_decreasing)
  moreover have "distinct (map k (sorted_desc k xs))"
    using assms by (rule distinct_sorted_desc)
  ultimately show ?thesis
    by (auto simp: sorted_wrt_iff_nth_less distinct_conv_nth order.strict_iff_order)
qed

text \<open>A strictly decreasing list is determined by its elements.\<close>

lemma strictly_decreasing_unique:
  fixes k :: "'a \<Rightarrow> 'b::linorder"
  assumes "sorted_wrt (\<lambda>a b. k b < k a) xs" "sorted_wrt (\<lambda>a b. k b < k a) ys"
    and "set xs = set ys"
  shows "xs = ys"
  using assms
proof (induction xs arbitrary: ys)
  case Nil
  then show ?case by simp
next
  case (Cons x xs)
  then obtain y ys' where ys: "ys = y # ys'"
    by (cases ys) auto
  have x_top: "\<forall>z \<in> set xs. k z < k x"
    and y_top: "\<forall>z \<in> set ys'. k z < k y"
    using Cons.prems ys by simp_all
  have "x = y"
    using Cons.prems(3) ys x_top y_top
    by (metis insertE insertI1 less_asym list.simps(15))
  moreover have "set xs = set ys'"
    using Cons.prems(3) ys x_top y_top \<open>x = y\<close>
    by (metis insert_ident less_irrefl list.simps(15))
  ultimately show ?case
    using Cons ys by simp
qed


subsection \<open>Insertion-ordered dictionaries\<close>

text \<open>
  A Python \<open>dict\<close> is an association list with distinct keys, in insertion order: assigning an
  existing key keeps its place, assigning a new key appends it. \<open>AList.update\<close> does exactly
  this; \<open>map_of\<close> is \<open>dict.get\<close>.
\<close>

type_synonym ('k, 'v) dict = "('k \<times> 'v) list"

abbreviation dict_get :: "('k, 'v) dict \<Rightarrow> 'k \<Rightarrow> 'v option" where
  "dict_get d k \<equiv> map_of d k"

abbreviation dict_set :: "'k \<Rightarrow> 'v \<Rightarrow> ('k, 'v) dict \<Rightarrow> ('k, 'v) dict" where
  "dict_set k v d \<equiv> AList.update k v d"

definition dict_wf :: "('k, 'v) dict \<Rightarrow> bool" where
  "dict_wf d \<longleftrightarrow> distinct (map fst d)"

lemma dict_wf_empty [dict_simps]: "dict_wf []"
  by (simp add: dict_wf_def)

lemma dict_wf_set [dict_simps]: "dict_wf d \<Longrightarrow> dict_wf (dict_set k v d)"
  by (simp add: dict_wf_def distinct_update)

lemma dict_get_set [dict_simps]: "dict_get (dict_set k v d) = (dict_get d)(k \<mapsto> v)"
  by (rule update_conv')

lemma dict_set_new [dict_simps]: "k \<notin> fst ` set d \<Longrightarrow> dict_set k v d = d @ [(k, v)]"
  by (induction d) auto

lemma dict_get_iff_mem: "dict_wf d \<Longrightarrow> dict_get d k = Some v \<longleftrightarrow> (k, v) \<in> set d"
  by (simp add: dict_wf_def)

lemma dict_values_of_get:
  "dict_wf d \<Longrightarrow> v \<in> snd ` set d \<longleftrightarrow> (\<exists>k. dict_get d k = Some v)"
  by (force simp: dict_get_iff_mem)

end
