(* ===== verification/Exceptions.thy ===== *)
theory Exceptions
  imports Prelude
begin

section \<open>The exceptions the program raises and catches\<close>

text \<open>
  Python's exception classes as one datatype, so that a \<open>try/except\<close> of the source is a
  \<open>case\<close> on it: \<open>tasks/models.py\<close>, \<open>tasks/repository.py\<close>, \<open>agent/runner.py\<close>,
  \<open>llm/errors.py\<close>, \<open>tools/models.py\<close>, \<open>mcp/protocol.py\<close>, \<open>demo/data.py\<close>. The exceptions of
  the standard library and of the packages that reach the program's handlers are constructors
  too; every other one is \<open>OtherError\<close> with its class name and text. \<open>exn_str\<close> is \<open>str(exc)\<close>.
\<close>

datatype task_status = PENDING | RUNNING | AWAITING_APPROVAL | COMPLETED | FAILED | CANCELLED

fun status_value :: "task_status \<Rightarrow> string" where
  "status_value PENDING = ''pending''"
| "status_value RUNNING = ''running''"
| "status_value AWAITING_APPROVAL = ''awaiting_approval''"
| "status_value COMPLETED = ''completed''"
| "status_value FAILED = ''failed''"
| "status_value CANCELLED = ''cancelled''"

definition all_statuses :: "task_status list" where
  "all_statuses = [PENDING, RUNNING, AWAITING_APPROVAL, COMPLETED, FAILED, CANCELLED]"

lemma all_statuses_complete [simp]: "s \<in> set all_statuses"
  by (cases s) (simp_all add: all_statuses_def)

text \<open>\<open>TaskStatus(value)\<close>: the member with that value, if there is one.\<close>

definition parse_status :: "string \<Rightarrow> task_status option" where
  "parse_status s = List.find (\<lambda>x. status_value x = s) all_statuses"

lemma parse_status_value [simp]: "parse_status (status_value s) = Some s"
  by (cases s) (simp_all add: parse_status_def all_statuses_def)

lemma status_value_inject [simp]: "status_value a = status_value b \<longleftrightarrow> a = b"
  by (metis option.inject parse_status_value)

text \<open>\<open>llm/errors.py\<close>. The delay of a rate limit is a number of milliseconds.\<close>

datatype llm_error =
    LLMError string
  | LLMTimeoutError string
  | LLMRateLimitError string "int option"
  | LLMUnavailableError string
  | LLMRequestError string
  | LLMRefusalError string
  | StructuredOutputError string string

fun retryable :: "llm_error \<Rightarrow> bool" where
  "retryable (LLMTimeoutError _) = True"
| "retryable (LLMRateLimitError _ _) = True"
| "retryable (LLMUnavailableError _) = True"
| "retryable _ = False"

fun llm_error_name :: "llm_error \<Rightarrow> string" where
  "llm_error_name (LLMError _) = ''LLMError''"
| "llm_error_name (LLMTimeoutError _) = ''LLMTimeoutError''"
| "llm_error_name (LLMRateLimitError _ _) = ''LLMRateLimitError''"
| "llm_error_name (LLMUnavailableError _) = ''LLMUnavailableError''"
| "llm_error_name (LLMRequestError _) = ''LLMRequestError''"
| "llm_error_name (LLMRefusalError _) = ''LLMRefusalError''"
| "llm_error_name (StructuredOutputError _ _) = ''StructuredOutputError''"

fun llm_error_text :: "llm_error \<Rightarrow> string" where
  "llm_error_text (LLMError m) = m"
| "llm_error_text (LLMTimeoutError m) = m"
| "llm_error_text (LLMRateLimitError m _) = m"
| "llm_error_text (LLMUnavailableError m) = m"
| "llm_error_text (LLMRequestError m) = m"
| "llm_error_text (LLMRefusalError m) = m"
| "llm_error_text (StructuredOutputError m _) = m"

text \<open>\<open>mcp/protocol.py\<close>. To \<open>isinstance(code, int)\<close> a \<open>bool\<close> is an \<open>int\<close>, which prints as itself.\<close>

datatype py_int = PyInt int | PyBool bool

fun py_int_str :: "py_int \<Rightarrow> string" where
  "py_int_str (PyInt i) = int_str i"
| "py_int_str (PyBool b) = (if b then ''True'' else ''False'')"

datatype mcp_error =
    MCPTransportError string
  | MCPProtocolError string
  | MCPRemoteError py_int string

fun mcp_error_text :: "mcp_error \<Rightarrow> string" where
  "mcp_error_text (MCPTransportError m) = m"
| "mcp_error_text (MCPProtocolError m) = m"
| "mcp_error_text (MCPRemoteError code m) = ''MCP error '' @ py_int_str code @ '': '' @ m"

datatype exn =
    ValueError string
  | ValidationError string
  | RuntimeError string
  | TimeoutError
  | InvalidTransitionError task_status task_status
  | TaskNotFoundError uuid
  | ConcurrentUpdateError uuid int int
  | NotResumableError uuid
  | LLM llm_error
  | ToolExecutionError string
  | MCP mcp_error
  | LedgerError string
  | OtherError string string

fun exn_str :: "exn \<Rightarrow> string" where
  "exn_str (ValueError m) = m"
| "exn_str (ValidationError m) = m"
| "exn_str (RuntimeError m) = m"
| "exn_str TimeoutError = []"
| "exn_str (InvalidTransitionError current target) =
     ''cannot transition task from '' @ [CHR 0x27] @ status_value current @ [CHR 0x27] @
     '' to '' @ [CHR 0x27] @ status_value target @ [CHR 0x27]"
| "exn_str (TaskNotFoundError i) =
     ''task '' @ [CHR 0x27] @ uuid_str i @ [CHR 0x27] @ '' not found''"
| "exn_str (ConcurrentUpdateError i expected actual) =
     ''task '' @ [CHR 0x27] @ uuid_str i @ [CHR 0x27] @ '' was modified concurrently '' @
     ''(expected version '' @ int_str expected @ '', found '' @ int_str actual @ '')''"
| "exn_str (NotResumableError i) =
     ''task '' @ [CHR 0x27] @ uuid_str i @ [CHR 0x27] @ '' has no paused run to resume''"
| "exn_str (LLM e) = llm_error_text e"
| "exn_str (ToolExecutionError m) = m"
| "exn_str (MCP e) = mcp_error_text e"
| "exn_str (LedgerError m) = m"
| "exn_str (OtherError _ m) = m"

text \<open>Quoting in messages: \<open>f"'{x}'"\<close>.\<close>

abbreviation quoted :: "string \<Rightarrow> string" where
  "quoted s \<equiv> [CHR 0x27] @ s @ [CHR 0x27]"

end
