(* ===== verification/LLM_Models.thy ===== *)
theory LLM_Models
  imports Exceptions
begin

section \<open>Provider-neutral request and response types (\<open>llm/models.py\<close>)\<close>

text \<open>
  Each Pydantic model is a record, its validated constructor a function \<open>mk_...\<close> that raises
  \<open>ValidationError\<close> where a field constraint or a validator of the source refuses the value.
  Pydantic collects several errors into one text; the model reports the first, and nothing in the
  program reads that text. \<open>..._ok\<close> is what an object that exists satisfies, because the models
  are frozen; the \<open>mk_..._eq\<close> lemmas say that construction succeeds exactly on such values.
\<close>

text \<open>Decoded JSON. A float is held as its \<open>repr\<close>: no code under \<open>src/\<close> computes with one.\<close>

datatype json =
    JNull
  | JBool bool
  | JInt int
  | JFloat string
  | JStr string
  | JList "json list"
  | JObj "(string \<times> json) list"

type_synonym json_object = "(string, json) dict"

datatype role = USER | ASSISTANT

datatype stop_reason = END_TURN | MAX_TOKENS | STOP_SEQUENCE | REFUSAL | TOOL_USE

definition is_tool_name_char :: "char \<Rightarrow> bool" where
  "is_tool_name_char c \<longleftrightarrow> is_alnum_ascii c \<or> c = CHR ''_'' \<or> c = CHR ''-''"

text \<open>\<open>TOOL_NAME_PATTERN\<close>.\<close>

definition valid_tool_name :: "string \<Rightarrow> bool" where
  "valid_tool_name s \<longleftrightarrow> matches_class is_tool_name_char 1 64 s"


subsection \<open>Tools as the model sees them, calls and results\<close>

record tool_spec =
  spec_name :: string
  spec_description :: string
  spec_input_schema :: json_object

definition mk_tool_spec :: "string \<Rightarrow> string \<Rightarrow> json_object \<Rightarrow> exn + tool_spec" where
  "mk_tool_spec name description schema =
     (if \<not> valid_tool_name name then Inl (ValidationError ''name: pattern'')
      else if description = [] then Inl (ValidationError ''description: min_length'')
      else Inr \<lparr>spec_name = name, spec_description = description, spec_input_schema = schema\<rparr>)"

record tool_call =
  call_id :: string
  call_name :: string
  call_arguments :: json_object

definition tool_call_ok :: "tool_call \<Rightarrow> bool" where
  "tool_call_ok c \<longleftrightarrow> call_id c \<noteq> [] \<and> valid_tool_name (call_name c)"

definition mk_tool_call :: "string \<Rightarrow> string \<Rightarrow> json_object \<Rightarrow> exn + tool_call" where
  "mk_tool_call i name arguments =
     (if i = [] then Inl (ValidationError ''id: min_length'')
      else if \<not> valid_tool_name name then Inl (ValidationError ''name: pattern'')
      else Inr \<lparr>call_id = i, call_name = name, call_arguments = arguments\<rparr>)"

record tool_result =
  res_call_id :: string
  res_content :: string
  res_is_error :: bool

definition mk_tool_result :: "string \<Rightarrow> string \<Rightarrow> bool \<Rightarrow> exn + tool_result" where
  "mk_tool_result i content is_error =
     (if i = [] then Inl (ValidationError ''call_id: min_length'')
      else Inr \<lparr>res_call_id = i, res_content = content, res_is_error = is_error\<rparr>)"


subsection \<open>Conversation turns\<close>

record message =
  msg_role :: role
  msg_content :: string
  msg_tool_calls :: "tool_call list"
  msg_tool_results :: "tool_result list"

definition mk_message ::
  "role \<Rightarrow> string \<Rightarrow> tool_call list \<Rightarrow> tool_result list \<Rightarrow> exn + message" where
  "mk_message r content calls results =
     (if calls \<noteq> [] \<and> r \<noteq> ASSISTANT
      then Inl (ValidationError ''only an assistant message can carry tool calls'')
      else if results \<noteq> [] \<and> r \<noteq> USER
      then Inl (ValidationError ''only a user message can carry tool results'')
      else if content = [] \<and> calls = [] \<and> results = []
      then Inl (ValidationError ''message must carry content, tool calls, or tool results'')
      else Inr \<lparr>msg_role = r, msg_content = content, msg_tool_calls = calls,
                msg_tool_results = results\<rparr>)"

definition message_ok :: "message \<Rightarrow> bool" where
  "message_ok m \<longleftrightarrow>
     (msg_tool_calls m = [] \<or> msg_role m = ASSISTANT) \<and>
     (msg_tool_results m = [] \<or> msg_role m = USER) \<and>
     (msg_content m \<noteq> [] \<or> msg_tool_calls m \<noteq> [] \<or> msg_tool_results m \<noteq> [])"

lemma mk_message_eq:
  "mk_message r c cs rs = Inr m \<longleftrightarrow>
     m = \<lparr>msg_role = r, msg_content = c, msg_tool_calls = cs, msg_tool_results = rs\<rparr> \<and> message_ok m"
  by (auto simp: mk_message_def message_ok_def)

definition with_tool_results :: "tool_result list \<Rightarrow> exn + message" where
  "with_tool_results results = mk_message USER [] [] results"


subsection \<open>Usage, completions and requests\<close>

record token_usage =
  input_tokens :: int
  output_tokens :: int

definition mk_token_usage :: "int \<Rightarrow> int \<Rightarrow> exn + token_usage" where
  "mk_token_usage i out =
     (if i < 0 then Inl (ValidationError ''input_tokens: ge'')
      else if out < 0 then Inl (ValidationError ''output_tokens: ge'')
      else Inr \<lparr>input_tokens = i, output_tokens = out\<rparr>)"

definition usage_ok :: "token_usage \<Rightarrow> bool" where
  "usage_ok u \<longleftrightarrow> 0 \<le> input_tokens u \<and> 0 \<le> output_tokens u"

record completion =
  comp_text :: string
  comp_model :: string
  comp_stop_reason :: stop_reason
  comp_usage :: token_usage
  comp_tool_calls :: "tool_call list"

definition mk_completion ::
  "string \<Rightarrow> string \<Rightarrow> stop_reason \<Rightarrow> token_usage \<Rightarrow> tool_call list \<Rightarrow> exn + completion" where
  "mk_completion text model stop usage calls =
     (if stop = TOOL_USE \<and> calls = []
      then Inl (ValidationError ''a tool_use completion must carry at least one tool call'')
      else if \<not> distinct (map call_id calls)
      then Inl (ValidationError ''tool call ids must be unique within a completion'')
      else Inr \<lparr>comp_text = text, comp_model = model, comp_stop_reason = stop,
                comp_usage = usage, comp_tool_calls = calls\<rparr>)"

text \<open>What a \<open>Completion\<close> object satisfies: its own validators and those of its parts.\<close>

definition completion_ok :: "completion \<Rightarrow> bool" where
  "completion_ok c \<longleftrightarrow>
     (comp_stop_reason c = TOOL_USE \<longrightarrow> comp_tool_calls c \<noteq> []) \<and>
     distinct (map call_id (comp_tool_calls c)) \<and>
     list_all tool_call_ok (comp_tool_calls c) \<and> usage_ok (comp_usage c)"

lemma mk_completion_ok:
  "mk_completion t m s u cs = Inr c \<Longrightarrow> list_all tool_call_ok cs \<Longrightarrow> usage_ok u \<Longrightarrow> completion_ok c"
  by (auto simp: mk_completion_def completion_ok_def split: if_splits)

lemma mk_tool_call_ok: "mk_tool_call i n a = Inr c \<Longrightarrow> tool_call_ok c"
  by (auto simp: mk_tool_call_def tool_call_ok_def split: if_splits)

lemma mk_token_usage_ok: "mk_token_usage i out = Inr u \<Longrightarrow> usage_ok u"
  by (auto simp: mk_token_usage_def usage_ok_def split: if_splits)

definition from_completion :: "completion \<Rightarrow> exn + message" where
  "from_completion c = mk_message ASSISTANT (comp_text c) (comp_tool_calls c) []"

record completion_request =
  req_messages :: "message list"
  req_system :: "string option"
  req_max_tokens :: int
  req_output_schema :: "json_object option"
  req_tools :: "tool_spec list"

definition mk_completion_request ::
  "message list \<Rightarrow> string option \<Rightarrow> int \<Rightarrow> json_object option \<Rightarrow> tool_spec list
   \<Rightarrow> exn + completion_request" where
  "mk_completion_request messages sys max_tokens schema tools =
     (case messages of
        [] \<Rightarrow> Inl (ValidationError ''messages: min_length'')
      | first # _ \<Rightarrow>
          if msg_role first \<noteq> USER
          then Inl (ValidationError ''conversation must start with a user message'')
          else if max_tokens < 1 then Inl (ValidationError ''max_tokens: ge'')
          else if \<not> distinct (map spec_name tools)
          then Inl (ValidationError ''tool names offered to the model must be unique'')
          else Inr \<lparr>req_messages = messages, req_system = sys, req_max_tokens = max_tokens,
                    req_output_schema = schema, req_tools = tools\<rparr>)"

text \<open>A conversation a request can carry: valid turns, the first one the user's.\<close>

definition conversation_ok :: "message list \<Rightarrow> bool" where
  "conversation_ok ms \<longleftrightarrow> ms \<noteq> [] \<and> msg_role (hd ms) = USER \<and> list_all message_ok ms"

lemma mk_completion_request_eq:
  "mk_completion_request ms sys n sc ts = Inr r \<longleftrightarrow>
     ms \<noteq> [] \<and> msg_role (hd ms) = USER \<and> 1 \<le> n \<and> distinct (map spec_name ts) \<and>
     r = \<lparr>req_messages = ms, req_system = sys, req_max_tokens = n,
          req_output_schema = sc, req_tools = ts\<rparr>"
  by (auto simp: mk_completion_request_def split: list.splits if_splits)

lemma mk_completion_request_ok:
  "conversation_ok ms \<Longrightarrow> 1 \<le> n \<Longrightarrow> distinct (map spec_name ts) \<Longrightarrow>
   mk_completion_request ms sys n sc ts =
     Inr \<lparr>req_messages = ms, req_system = sys, req_max_tokens = n,
          req_output_schema = sc, req_tools = ts\<rparr>"
  by (simp add: mk_completion_request_eq conversation_ok_def)

lemma conversation_ok_append:
  "conversation_ok ms \<Longrightarrow> list_all message_ok ms' \<Longrightarrow> conversation_ok (ms @ ms')"
  by (auto simp: conversation_ok_def)

lemma from_completion_ok:
  assumes "completion_ok c" and "comp_stop_reason c = TOOL_USE"
  shows "\<exists>m. from_completion c = Inr m \<and> message_ok m \<and> msg_role m = ASSISTANT \<and>
     msg_content m = comp_text c \<and> msg_tool_calls m = comp_tool_calls c \<and> msg_tool_results m = []"
  using assms by (auto simp: from_completion_def mk_message_def completion_ok_def message_ok_def)

lemma with_tool_results_ok:
  assumes "rs \<noteq> []"
  shows "\<exists>m. with_tool_results rs = Inr m \<and> message_ok m \<and> msg_role m = USER \<and>
     msg_content m = [] \<and> msg_tool_calls m = [] \<and> msg_tool_results m = rs"
  using assms by (auto simp: with_tool_results_def mk_message_def message_ok_def)


subsection \<open>Conversations in which every tool call is answered\<close>

text \<open>
  What the chat protocol asks for: the results of a turn answer exactly the calls of the turn before
  it, in their order. \<open>paired calls ms\<close>: so it is in \<open>ms\<close>, the first turn answering \<open>calls\<close>;
  \<open>dialogue_ok\<close>: and no call is left open at the end.
\<close>

fun paired :: "tool_call list \<Rightarrow> message list \<Rightarrow> bool" where
  "paired calls [] \<longleftrightarrow> True"
| "paired calls (m # ms) \<longleftrightarrow>
     map res_call_id (msg_tool_results m) = map call_id calls \<and> paired (msg_tool_calls m) ms"

lemma paired_append:
  "paired calls (xs @ ys) \<longleftrightarrow>
     paired calls xs \<and> paired (if xs = [] then calls else msg_tool_calls (last xs)) ys"
  by (induction xs arbitrary: calls) auto

definition dialogue_ok :: "message list \<Rightarrow> bool" where
  "dialogue_ok ms \<longleftrightarrow> conversation_ok ms \<and> paired [] ms \<and> msg_tool_calls (last ms) = []"

lemma dialogue_ok_single: "conversation_ok [m] \<Longrightarrow> msg_tool_results m = [] \<Longrightarrow> dialogue_ok [m]"
  by (auto simp: dialogue_ok_def conversation_ok_def message_ok_def)

lemma from_completion_message:
  "from_completion c = Inr m \<Longrightarrow> message_ok m \<and> msg_role m = ASSISTANT \<and>
     msg_tool_calls m = comp_tool_calls c \<and> msg_tool_results m = []"
  by (auto simp: from_completion_def mk_message_eq)

lemma with_tool_results_message:
  "with_tool_results rs = Inr m \<Longrightarrow> message_ok m \<and> msg_role m = USER \<and>
     msg_tool_calls m = [] \<and> msg_tool_results m = rs"
  by (auto simp: with_tool_results_def mk_message_eq)

text \<open>A turn that asks for tools, then their results.\<close>

lemma dialogue_ok_asks:
  "dialogue_ok ms \<Longrightarrow> from_completion c = Inr m \<Longrightarrow> conversation_ok (ms @ [m]) \<and> paired [] (ms @ [m])"
  using conversation_ok_append [of ms "[m]"]
  by (auto simp: dialogue_ok_def paired_append dest!: from_completion_message)

lemma dialogue_ok_answered:
  assumes "conversation_ok (ms @ [m])" "paired [] (ms @ [m])"
    and "with_tool_results rs = Inr m'" "map res_call_id rs = map call_id (msg_tool_calls m)"
  shows "dialogue_ok (ms @ [m, m'])"
  using assms conversation_ok_append [of "ms @ [m]" "[m']"] with_tool_results_message [OF assms(3)]
  by (simp add: dialogue_ok_def paired_append)

lemma dialogue_ok_round:
  assumes "dialogue_ok ms" "from_completion c = Inr m" "with_tool_results rs = Inr m'"
    and "map res_call_id rs = map call_id (comp_tool_calls c)"
  shows "dialogue_ok (ms @ [m, m'])"
  using dialogue_ok_answered [of ms m rs m'] dialogue_ok_asks [OF assms(1,2)]
    from_completion_message [OF assms(2)] assms(3,4)
  by simp

end
