(* ===== verification/Task_Models.thy ===== *)
theory Task_Models
  imports LLM_Models
begin

section \<open>The agent task and its lifecycle (\<open>tasks/models.py\<close>)\<close>

text \<open>
  \<open>AgentTask\<close> is an immutable record; \<open>transition_to\<close> returns the next version. Time is a
  parameter of every operation that reads the clock. \<open>task_ok\<close> is the invariant of the tasks the
  program builds: it contains the model's own validators and adds what construction and
  transitions keep true between the fields (version and history agree, the history is a path of
  the lifecycle from \<open>pending\<close> to the current status). \<open>legal_step\<close> is the abstract
  specification of a transition, \<open>evolves\<close> its closure: what any number of writers may do to a
  stored task.
\<close>

type_synonym timestamp = int \<comment> \<open>microseconds since the epoch, UTC\<close>

fun ALLOWED_TRANSITIONS :: "task_status \<Rightarrow> task_status list" where
  "ALLOWED_TRANSITIONS PENDING = [RUNNING, CANCELLED]"
| "ALLOWED_TRANSITIONS RUNNING = [AWAITING_APPROVAL, COMPLETED, FAILED, CANCELLED]"
| "ALLOWED_TRANSITIONS AWAITING_APPROVAL = [RUNNING, CANCELLED]"
| "ALLOWED_TRANSITIONS COMPLETED = []"
| "ALLOWED_TRANSITIONS FAILED = []"
| "ALLOWED_TRANSITIONS CANCELLED = []"

record status_transition =
  from_status :: task_status
  to_status :: task_status
  at_time :: timestamp
  reason :: "string option"


subsection \<open>Checkpoints\<close>

record run_checkpoint =
  cp_messages :: "message list"
  cp_steps :: int
  cp_tool_calls :: int
  cp_usage :: token_usage

definition pending_calls :: "run_checkpoint \<Rightarrow> tool_call list" where
  "pending_calls cp = msg_tool_calls (last (cp_messages cp))"

definition mk_run_checkpoint ::
  "message list \<Rightarrow> int \<Rightarrow> int \<Rightarrow> token_usage \<Rightarrow> exn + run_checkpoint" where
  "mk_run_checkpoint messages steps calls usage =
     (if messages = [] then Inl (ValidationError ''messages: min_length'')
      else if steps < 1 then Inl (ValidationError ''steps: ge'')
      else if calls < 0 then Inl (ValidationError ''tool_calls: ge'')
      else let final = last messages in
      (if msg_role final \<noteq> ASSISTANT \<or> msg_tool_calls final = []
       then Inl (ValidationError ''a checkpoint must end with the assistant turn that requested tools'')
       else Inr \<lparr>cp_messages = messages, cp_steps = steps, cp_tool_calls = calls, cp_usage = usage\<rparr>))"

definition checkpoint_ok :: "run_checkpoint \<Rightarrow> bool" where
  "checkpoint_ok cp \<longleftrightarrow>
     cp_messages cp \<noteq> [] \<and> 1 \<le> cp_steps cp \<and> 0 \<le> cp_tool_calls cp \<and>
     msg_role (last (cp_messages cp)) = ASSISTANT \<and> pending_calls cp \<noteq> []"

text \<open>
  What a run's pause adds to the validators: a conversation that began with the user and in which
  every call but those of its last turn has been answered.
\<close>

definition paused_ok :: "run_checkpoint \<Rightarrow> bool" where
  "paused_ok cp \<longleftrightarrow>
     checkpoint_ok cp \<and> conversation_ok (cp_messages cp) \<and> paired [] (cp_messages cp)"

lemma mk_run_checkpoint_eq:
  "mk_run_checkpoint ms n k u = Inr cp \<longleftrightarrow>
     cp = \<lparr>cp_messages = ms, cp_steps = n, cp_tool_calls = k, cp_usage = u\<rparr> \<and> checkpoint_ok cp"
  by (auto simp: mk_run_checkpoint_def checkpoint_ok_def pending_calls_def Let_def)


subsection \<open>Tasks\<close>

record agent_task =
  task_id :: uuid
  goal :: string
  requested_by :: string
  status :: task_status
  version :: int
  created_at :: timestamp
  updated_at :: timestamp
  history :: "status_transition list"
  checkpoint :: "run_checkpoint option"

definition check_checkpoint :: "task_status \<Rightarrow> run_checkpoint option \<Rightarrow> exn + unit" where
  "check_checkpoint st cp =
     (if cp \<noteq> None \<and> st \<noteq> AWAITING_APPROVAL
      then Inl (ValueError (''a '' @ quoted (status_value st) @ '' task cannot carry a run checkpoint''))
      else Inr ())"

text \<open>
  Construction with validation: \<open>str_strip_whitespace\<close> first, then the field constraints, then
  the model validator, whose \<open>ValueError\<close> Pydantic reports as a \<open>ValidationError\<close>.
\<close>

definition mk_agent_task :: "agent_task \<Rightarrow> exn + agent_task" where
  "mk_agent_task t =
     (let g = trim (goal t); r = trim (requested_by t) in
      if g = [] \<or> 4000 < length g then Inl (ValidationError ''goal: length'')
      else if r = [] \<or> 256 < length r then Inl (ValidationError ''requested_by: length'')
      else if version t < 1 then Inl (ValidationError ''version: ge'')
      else (case check_checkpoint (status t) (checkpoint t) of
              Inl e \<Rightarrow> Inl (ValidationError (exn_str e))
            | Inr _ \<Rightarrow> Inr (t\<lparr>goal := g, requested_by := r\<rparr>)))"

definition create :: "uuid \<Rightarrow> string \<Rightarrow> string \<Rightarrow> timestamp \<Rightarrow> exn + agent_task" where
  "create new_id g by_whom now =
     mk_agent_task
       \<lparr>task_id = new_id, goal = g, requested_by = by_whom, status = PENDING, version = 1,
        created_at = now, updated_at = now, history = [], checkpoint = None\<rparr>"

definition is_terminal :: "agent_task \<Rightarrow> bool" where
  "is_terminal t \<longleftrightarrow> ALLOWED_TRANSITIONS (status t) = []"

definition can_transition_to :: "agent_task \<Rightarrow> task_status \<Rightarrow> bool" where
  "can_transition_to t target \<longleftrightarrow> target \<in> set (ALLOWED_TRANSITIONS (status t))"

definition transition_to ::
  "agent_task \<Rightarrow> task_status \<Rightarrow> string option \<Rightarrow> run_checkpoint option \<Rightarrow> timestamp
   \<Rightarrow> exn + agent_task" where
  "transition_to t target why cp now =
     (if \<not> can_transition_to t target then Inl (InvalidTransitionError (status t) target)
      else (case check_checkpoint target cp of
              Inl e \<Rightarrow> Inl e
            | Inr _ \<Rightarrow>
                let entry = \<lparr>from_status = status t, to_status = target, at_time = now, reason = why\<rparr>
                in Inr (t\<lparr>status := target, version := version t + 1, updated_at := now,
                          history := history t @ [entry], checkpoint := cp\<rparr>)))"


subsection \<open>The invariant\<close>

fun history_path :: "task_status \<Rightarrow> status_transition list \<Rightarrow> task_status \<Rightarrow> bool" where
  "history_path s [] e \<longleftrightarrow> s = e"
| "history_path s (h # hs) e \<longleftrightarrow>
     from_status h = s \<and> to_status h \<in> set (ALLOWED_TRANSITIONS s) \<and> history_path (to_status h) hs e"

lemma history_path_append:
  "history_path s (xs @ ys) e \<longleftrightarrow> (\<exists>m. history_path s xs m \<and> history_path m ys e)"
  by (induction xs arbitrary: s) auto

definition task_ok :: "agent_task \<Rightarrow> bool" where
  "task_ok t \<longleftrightarrow>
     goal t \<noteq> [] \<and> length (goal t) \<le> 4000 \<and>
     requested_by t \<noteq> [] \<and> length (requested_by t) \<le> 256 \<and>
     version t = 1 + int (length (history t)) \<and>
     history_path PENDING (history t) (status t) \<and>
     updated_at t = (if history t = [] then created_at t else at_time (last (history t))) \<and>
     (case checkpoint t of None \<Rightarrow> True
      | Some cp \<Rightarrow> status t = AWAITING_APPROVAL \<and> paused_ok cp)"

lemma task_ok_checkpoint:
  "task_ok t \<Longrightarrow> checkpoint t = Some cp \<Longrightarrow> status t = AWAITING_APPROVAL \<and> paused_ok cp"
  by (simp add: task_ok_def)

lemma is_terminal_iff: "is_terminal t \<longleftrightarrow> status t \<in> {COMPLETED, FAILED, CANCELLED}"
  by (cases "status t") (simp_all add: is_terminal_def)

text \<open>\<open>create\<close> on every branch.\<close>

lemma create_eq:
  "create i g by_whom now = Inr t \<longleftrightarrow>
     trim g \<noteq> [] \<and> length (trim g) \<le> 4000 \<and>
     trim by_whom \<noteq> [] \<and> length (trim by_whom) \<le> 256 \<and>
     t = \<lparr>task_id = i, goal = trim g, requested_by = trim by_whom, status = PENDING,
          version = 1, created_at = now, updated_at = now, history = [], checkpoint = None\<rparr>"
  by (auto simp: create_def mk_agent_task_def check_checkpoint_def Let_def)

lemma create_ok: "create i g by_whom now = Inr t \<Longrightarrow> task_ok t"
  by (auto simp: create_eq task_ok_def)

text \<open>\<open>transition_to\<close> on every branch.\<close>

lemma transition_to_eq:
  "transition_to t target why cp now = Inr t' \<longleftrightarrow>
     target \<in> set (ALLOWED_TRANSITIONS (status t)) \<and> (cp = None \<or> target = AWAITING_APPROVAL) \<and>
     t' = t\<lparr>status := target, version := version t + 1, updated_at := now,
            history := history t @
              [\<lparr>from_status = status t, to_status = target, at_time = now, reason = why\<rparr>],
            checkpoint := cp\<rparr>"
  by (auto simp: transition_to_def check_checkpoint_def can_transition_to_def Let_def)

lemma transition_to_Inl:
  "transition_to t target why cp now = Inl e \<longleftrightarrow>
     (target \<notin> set (ALLOWED_TRANSITIONS (status t)) \<and> e = InvalidTransitionError (status t) target) \<or>
     (target \<in> set (ALLOWED_TRANSITIONS (status t)) \<and> cp \<noteq> None \<and> target \<noteq> AWAITING_APPROVAL \<and>
      e = ValueError (''a '' @ quoted (status_value target) @ '' task cannot carry a run checkpoint''))"
  by (auto simp: transition_to_def check_checkpoint_def can_transition_to_def Let_def)

lemma transition_to_no_checkpoint:
  "transition_to t target why None now =
     (if target \<in> set (ALLOWED_TRANSITIONS (status t))
      then Inr (t\<lparr>status := target, version := version t + 1, updated_at := now,
                  history := history t @
                    [\<lparr>from_status = status t, to_status = target, at_time = now, reason = why\<rparr>],
                  checkpoint := None\<rparr>)
      else Inl (InvalidTransitionError (status t) target))"
  by (simp add: transition_to_def check_checkpoint_def can_transition_to_def Let_def)

lemma transition_to_ok:
  assumes "transition_to t target why cp now = Inr t'" and "task_ok t"
    and "\<And>c. cp = Some c \<Longrightarrow> paused_ok c"
  shows "task_ok t'"
  using assms
  by (auto simp: transition_to_eq task_ok_def history_path_append split: option.splits)

lemma transition_to_terminal:
  "is_terminal t \<Longrightarrow> transition_to t target why cp now = Inl (InvalidTransitionError (status t) target)"
  by (simp add: transition_to_def can_transition_to_def is_terminal_def)

text \<open>A task that completed, failed or paused did run.\<close>

lemma history_path_visits_running:
  "history_path s hs e \<Longrightarrow> s = PENDING \<Longrightarrow> e \<notin> {PENDING, CANCELLED} \<Longrightarrow>
   e = RUNNING \<or> RUNNING \<in> to_status ` set hs"
  by (cases hs; cases "tl hs"; cases "to_status (hd hs)") auto


subsection \<open>The abstract specification of a transition\<close>

definition same_identity :: "agent_task \<Rightarrow> agent_task \<Rightarrow> bool" where
  "same_identity t t' \<longleftrightarrow>
     task_id t' = task_id t \<and> goal t' = goal t \<and> requested_by t' = requested_by t \<and>
     created_at t' = created_at t"

definition legal_step :: "agent_task \<Rightarrow> agent_task \<Rightarrow> bool" where
  "legal_step t t' \<longleftrightarrow>
     same_identity t t' \<and>
     status t' \<in> set (ALLOWED_TRANSITIONS (status t)) \<and>
     version t' = version t + 1 \<and>
     (\<exists>why. history t' = history t @
        [\<lparr>from_status = status t, to_status = status t', at_time = updated_at t', reason = why\<rparr>]) \<and>
     (checkpoint t' \<noteq> None \<longrightarrow> status t' = AWAITING_APPROVAL)"

abbreviation evolves :: "agent_task \<Rightarrow> agent_task \<Rightarrow> bool" where
  "evolves \<equiv> legal_step\<^sup>*\<^sup>*"

text \<open>\<open>transition_to\<close> implements the specification, and does all of it.\<close>

lemma transition_to_legal: "transition_to t target why cp now = Inr t' \<Longrightarrow> legal_step t t'"
  by (auto simp: transition_to_eq legal_step_def same_identity_def)

lemma legal_step_realised:
  assumes "legal_step t t'"
  shows "\<exists>why. transition_to t (status t') why (checkpoint t') (updated_at t') = Inr t'"
proof -
  obtain why where "history t' = history t @
      [\<lparr>from_status = status t, to_status = status t', at_time = updated_at t', reason = why\<rparr>]"
    using assms by (auto simp: legal_step_def)
  with assms have "transition_to t (status t') why (checkpoint t') (updated_at t') = Inr t'"
    by (cases t; cases t') (auto simp: transition_to_eq legal_step_def same_identity_def)
  then show ?thesis ..
qed

lemma evolves_identity: "evolves t t' \<Longrightarrow> same_identity t t'"
  by (induction rule: rtranclp_induct) (auto simp: legal_step_def same_identity_def)

lemma evolves_version: "evolves t t' \<Longrightarrow> version t \<le> version t'"
  by (induction rule: rtranclp_induct) (auto simp: legal_step_def)

text \<open>The version decides: a task whose version is unchanged is unchanged.\<close>

lemma evolves_same_version:
  assumes "evolves t t'" and "version t' = version t"
  shows "t' = t"
  using assms(1)
proof (cases rule: converse_rtranclpE)
  case base
  then show ?thesis by simp
next
  case (step u)
  then have "version u = version t + 1" "version u \<le> version t'"
    by (auto simp: legal_step_def dest: evolves_version)
  with assms(2) show ?thesis by simp
qed

lemma evolves_terminal:
  assumes "evolves t t'" and "is_terminal t"
  shows "t' = t"
  using assms(1)
proof (cases rule: converse_rtranclpE)
  case base
  then show ?thesis by simp
next
  case (step u)
  with assms(2) show ?thesis
    by (simp add: legal_step_def is_terminal_def)
qed

lemma evolves_history:
  "evolves t t' \<Longrightarrow> \<exists>hs. history t' = history t @ hs \<and> version t' = version t + int (length hs) \<and>
     history_path (status t) hs (status t')"
proof (induction rule: rtranclp_induct)
  case base
  then show ?case by simp
next
  case (step u v)
  then obtain hs where "history u = history t @ hs" "version u = version t + int (length hs)"
      "history_path (status t) hs (status u)"
    by blast
  with step.hyps(2) show ?case
    by (auto simp: legal_step_def history_path_append)
qed

end
