(* ===== verification/Task_Repository.thy ===== *)
theory Task_Repository
  imports Task_Models
begin

section \<open>Task persistence (\<open>tasks/repository.py\<close>)\<close>

text \<open>
  \<open>TaskRepository\<close> is the storage port: a record of operations, as the Python protocol is. The
  locale \<open>task_repository\<close> is its contract, in terms of what the storage holds (\<open>lookup\<close>);
  the in-memory adapter, a dictionary in insertion order, is modelled and interpreted here.

  The contract allows what a database adapter does that a dictionary does not: it may refuse a
  value it cannot encode (\<open>storable\<close>), hand back a checkpoint in a normalised form
  (\<open>stored\<close>), and write only the columns a transition can change, so that an update is
  specified for tasks of the same identity, by a writer whose version is the next one, and a
  listing for a limit that is a 64-bit integer.
\<close>

record 'r task_repo =
  repo_add :: "agent_task \<Rightarrow> 'r \<Rightarrow> exn + 'r"
  repo_get :: "uuid \<Rightarrow> 'r \<Rightarrow> exn + agent_task"
  repo_update :: "agent_task \<Rightarrow> int \<Rightarrow> 'r \<Rightarrow> exn + 'r"
  repo_list_tasks :: "task_status option \<Rightarrow> int \<Rightarrow> 'r \<Rightarrow> exn + agent_task list"

text \<open>The total order of a listing: newest first, the id breaking ties.\<close>

definition listing_key :: "agent_task \<Rightarrow> timestamp \<times> uuid" where
  "listing_key t = (created_at t, task_id t)"

definition listing_matches :: "task_status option \<Rightarrow> agent_task \<Rightarrow> bool" where
  "listing_matches st t \<longleftrightarrow> (case st of None \<Rightarrow> True | Some s \<Rightarrow> status t = s)"

text \<open>A list is the listing of a store if it is its matching tasks, strictly descending.\<close>

definition is_listing ::
  "(uuid \<Rightarrow> agent_task option) \<Rightarrow> task_status option \<Rightarrow> agent_task list \<Rightarrow> bool" where
  "is_listing m st ts \<longleftrightarrow>
     sorted_wrt (\<lambda>a b. listing_key b < listing_key a) ts \<and>
     set ts = {t \<in> ran m. listing_matches st t}"

lemma is_listing_unique: "is_listing m st ts \<Longrightarrow> is_listing m st us \<Longrightarrow> ts = us"
  unfolding is_listing_def by (blast intro: strictly_decreasing_unique)


subsection \<open>The contract\<close>

locale task_repository =
  fixes R :: "'r task_repo"
    and lookup :: "'r \<Rightarrow> uuid \<Rightarrow> agent_task option"
    and invar :: "'r \<Rightarrow> bool"
    and storable :: "agent_task \<Rightarrow> bool"
    and stored :: "agent_task \<Rightarrow> agent_task"
  assumes lookup_id: "invar r \<Longrightarrow> lookup r i = Some t \<Longrightarrow> task_id t = i"
    and get_law: "invar r \<Longrightarrow>
      repo_get R i r = (case lookup r i of None \<Rightarrow> Inl (TaskNotFoundError i) | Some t \<Rightarrow> Inr t)"
    and add_new: "invar r \<Longrightarrow> storable t \<Longrightarrow> lookup r (task_id t) = None \<Longrightarrow>
      \<exists>r'. repo_add R t r = Inr r' \<and> invar r' \<and> lookup r' = (lookup r)(task_id t \<mapsto> stored t)"
    and add_existing: "invar r \<Longrightarrow> storable t \<Longrightarrow> lookup r (task_id t) = Some c \<Longrightarrow>
      repo_add R t r = Inl (ValueError (''task '' @ quoted (uuid_str (task_id t)) @ '' already exists''))"
    and add_refused: "invar r \<Longrightarrow> \<not> storable t \<Longrightarrow> \<exists>e. repo_add R t r = Inl e"
    and update_missing: "invar r \<Longrightarrow> storable t \<Longrightarrow> version t = v + 1 \<Longrightarrow> lookup r (task_id t) = None \<Longrightarrow>
      repo_update R t v r = Inl (TaskNotFoundError (task_id t))"
    and update_stale: "invar r \<Longrightarrow> storable t \<Longrightarrow> version t = v + 1 \<Longrightarrow>
      lookup r (task_id t) = Some c \<Longrightarrow> version c \<noteq> v \<Longrightarrow>
      repo_update R t v r = Inl (ConcurrentUpdateError (task_id t) v (version c))"
    and update_current: "invar r \<Longrightarrow> storable t \<Longrightarrow> version t = v + 1 \<Longrightarrow>
      lookup r (task_id t) = Some c \<Longrightarrow> version c = v \<Longrightarrow> same_identity c t \<Longrightarrow>
      \<exists>r'. repo_update R t v r = Inr r' \<and> invar r' \<and> lookup r' = (lookup r)(task_id t \<mapsto> stored t)"
    and update_refused: "invar r \<Longrightarrow> \<not> storable t \<Longrightarrow>
      (\<forall>c. lookup r (task_id t) = Some c \<longrightarrow> version c = v \<longrightarrow> same_identity c t) \<Longrightarrow>
      \<exists>e. repo_update R t v r = Inl e"
    and list_law: "invar r \<Longrightarrow> 0 \<le> n \<Longrightarrow> n < 2 ^ 63 \<Longrightarrow>
      \<exists>ts. is_listing (lookup r) st ts \<and> repo_list_tasks R st n r = Inr (take (nat n) ts)"
    and stored_frame: "\<exists>cp. stored t = t\<lparr>checkpoint := cp\<rparr> \<and> (cp = None \<longleftrightarrow> checkpoint t = None)"
    and stored_ok: "task_ok t \<Longrightarrow> task_ok (stored t)"
begin

lemma stored_sel [simp]:
  "task_id (stored t) = task_id t" "goal (stored t) = goal t"
  "requested_by (stored t) = requested_by t" "status (stored t) = status t"
  "version (stored t) = version t" "created_at (stored t) = created_at t"
  "updated_at (stored t) = updated_at t" "history (stored t) = history t"
  "checkpoint (stored t) = None \<longleftrightarrow> checkpoint t = None"
proof -
  obtain cp where "stored t = t\<lparr>checkpoint := cp\<rparr>" "cp = None \<longleftrightarrow> checkpoint t = None"
    using stored_frame by blast
  then show "task_id (stored t) = task_id t" "goal (stored t) = goal t"
    "requested_by (stored t) = requested_by t" "status (stored t) = status t"
    "version (stored t) = version t" "created_at (stored t) = created_at t"
    "updated_at (stored t) = updated_at t" "history (stored t) = history t"
    "checkpoint (stored t) = None \<longleftrightarrow> checkpoint t = None"
    by simp_all
qed

lemma legal_step_stored: "legal_step t t' \<Longrightarrow> legal_step t (stored t')"
  by (simp add: legal_step_def same_identity_def)

lemma get_Inr: "invar r \<Longrightarrow> repo_get R i r = Inr t \<longleftrightarrow> lookup r i = Some t"
  by (simp add: get_law split: option.splits)

lemma get_Inl: "invar r \<Longrightarrow> repo_get R i r = Inl e \<longleftrightarrow> lookup r i = None \<and> e = TaskNotFoundError i"
  by (auto simp: get_law split: option.splits)

text \<open>A write that lands: the version was the expected one and exactly this task changed.\<close>

lemma update_Inr:
  assumes "invar r" and "repo_update R t v r = Inr r'" and "version t = v + 1"
    and "\<And>c. lookup r (task_id t) = Some c \<Longrightarrow> version c = v \<Longrightarrow> same_identity c t"
  shows "\<exists>c. lookup r (task_id t) = Some c \<and> version c = v \<and> storable t \<and> invar r' \<and>
    lookup r' = (lookup r)(task_id t \<mapsto> stored t)"
proof -
  have st: "storable t"
    using update_refused [OF assms(1), of t v] assms(2,4) by auto
  moreover obtain c where c: "lookup r (task_id t) = Some c"
    using update_missing [OF assms(1) st assms(3)] assms(2) by (cases "lookup r (task_id t)") auto
  moreover have v: "version c = v"
    using update_stale [OF assms(1) st assms(3) c] assms(2) by auto
  moreover have "same_identity c t"
    using assms(4) c v .
  ultimately show ?thesis
    using update_current [OF assms(1) st assms(3) c v] assms(2) st by auto
qed

text \<open>Of two writers that expect the same version, the second is refused.\<close>

lemma second_update_refused:
  assumes "invar r" and "repo_update R t v r = Inr r'" and "task_id u = task_id t"
    and "version t = v + 1" and "version u = v + 1" and "storable u"
    and "\<And>c. lookup r (task_id t) = Some c \<Longrightarrow> version c = v \<Longrightarrow> same_identity c t"
  shows "repo_update R u v r' = Inl (ConcurrentUpdateError (task_id u) v (v + 1))"
proof -
  have "invar r'" "lookup r' (task_id u) = Some (stored t)"
    using update_Inr [OF assms(1,2,4,7)] assms(3) by auto
  then show ?thesis
    using update_stale [of r' u v "stored t"] assms(4-6) by simp
qed

end

text \<open>Two repositories under the contract that hold the same tasks answer reads alike.\<close>

definition same_answers :: "'r task_repo \<Rightarrow> 'r \<Rightarrow> 's task_repo \<Rightarrow> 's \<Rightarrow> bool" where
  "same_answers R r S s \<longleftrightarrow>
     (\<forall>i. repo_get R i r = repo_get S i s) \<and>
     (\<forall>st n. 0 \<le> n \<and> n < 2 ^ 63 \<longrightarrow> repo_list_tasks R st n r = repo_list_tasks S st n s)"

lemma contract_same_answers:
  assumes R: "task_repository R lk okR sb sd" and S: "task_repository S lk' okS sb' sd'"
    and "okR r" "okS s" "lk r = lk' s"
  shows "same_answers R r S s"
proof -
  have "repo_get R i r = repo_get S i s" for i
    using task_repository.get_law [OF R assms(3)] task_repository.get_law [OF S assms(4)] assms(5)
    by simp
  moreover have "repo_list_tasks R q n r = repo_list_tasks S q n s" if "0 \<le> n" "n < 2 ^ 63" for q n
    using task_repository.list_law [OF R assms(3) that, of q]
      task_repository.list_law [OF S assms(4) that, of q] assms(5) is_listing_unique
    by metis
  ultimately show ?thesis
    by (simp add: same_answers_def)
qed


subsection \<open>The in-memory adapter\<close>

type_synonym mem_repo = "(uuid, agent_task) dict"

definition mem_empty :: mem_repo where
  "mem_empty = []"

definition mem_add :: "agent_task \<Rightarrow> mem_repo \<Rightarrow> exn + mem_repo" where
  "mem_add t r =
     (if task_id t \<in> fst ` set r
      then Inl (ValueError (''task '' @ quoted (uuid_str (task_id t)) @ '' already exists''))
      else Inr (dict_set (task_id t) t r))"

definition mem_get :: "uuid \<Rightarrow> mem_repo \<Rightarrow> exn + agent_task" where
  "mem_get i r = (case dict_get r i of None \<Rightarrow> Inl (TaskNotFoundError i) | Some t \<Rightarrow> Inr t)"

definition mem_update :: "agent_task \<Rightarrow> int \<Rightarrow> mem_repo \<Rightarrow> exn + mem_repo" where
  "mem_update t expected_version r =
     (case dict_get r (task_id t) of
        None \<Rightarrow> Inl (TaskNotFoundError (task_id t))
      | Some current \<Rightarrow>
          if version current \<noteq> expected_version
          then Inl (ConcurrentUpdateError (task_id t) expected_version (version current))
          else Inr (dict_set (task_id t) t r))"

definition mem_list_tasks :: "task_status option \<Rightarrow> int \<Rightarrow> mem_repo \<Rightarrow> exn + agent_task list" where
  "mem_list_tasks st limit r =
     Inr (py_take limit (sorted_desc listing_key (filter (listing_matches st) (map snd r))))"

definition mem_port :: "mem_repo task_repo" where
  "mem_port = \<lparr>repo_add = mem_add, repo_get = mem_get, repo_update = mem_update,
     repo_list_tasks = mem_list_tasks\<rparr>"

lemma mem_port_sel [simp]:
  "repo_add mem_port = mem_add" "repo_get mem_port = mem_get"
  "repo_update mem_port = mem_update" "repo_list_tasks mem_port = mem_list_tasks"
  by (simp_all add: mem_port_def)

definition mem_invar :: "mem_repo \<Rightarrow> bool" where
  "mem_invar r \<longleftrightarrow> dict_wf r \<and> list_all (\<lambda>(i, t). task_id t = i) r"

lemma mem_invar_empty [simp]: "mem_invar mem_empty"
  by (simp add: mem_invar_def mem_empty_def dict_wf_def)

lemma mem_lookup_id: "mem_invar r \<Longrightarrow> dict_get r i = Some t \<Longrightarrow> task_id t = i"
  by (auto simp: mem_invar_def list_all_iff dest: map_of_SomeD)

lemma mem_invar_set: "mem_invar r \<Longrightarrow> mem_invar (dict_set (task_id t) t r)"
proof -
  assume inv: "mem_invar r"
  then have wf: "dict_wf (dict_set (task_id t) t r)"
    by (simp add: mem_invar_def dict_wf_set)
  have "task_id u = i" if "(i, u) \<in> set (dict_set (task_id t) t r)" for i u
  proof -
    have "dict_get (dict_set (task_id t) t r) i = Some u"
      using that wf by (simp add: dict_get_iff_mem)
    then show ?thesis
      using mem_lookup_id [OF inv] by (auto simp: dict_get_set split: if_splits)
  qed
  with wf show ?thesis
    by (auto simp: mem_invar_def list_all_iff)
qed

lemma mem_values: "mem_invar r \<Longrightarrow> set (map snd r) = ran (dict_get r)"
  by (auto simp: mem_invar_def ran_def dict_get_iff_mem) (force simp: dict_get_iff_mem)

lemma mem_keys_distinct: "mem_invar r \<Longrightarrow> distinct (map listing_key (map snd r))"
proof -
  assume inv: "mem_invar r"
  have ids: "map (\<lambda>t. task_id t) (map snd r) = map fst r"
    using inv by (auto simp: mem_invar_def list_all_iff)
  have "distinct (map (\<lambda>t. task_id t) (map snd r))"
    using inv by (simp only: ids) (simp add: mem_invar_def dict_wf_def)
  then have "distinct (map snd (map listing_key (map snd r)))"
    by (simp add: listing_key_def comp_def)
  then show ?thesis
    by (simp only: distinct_map)
qed

lemma mem_is_listing:
  assumes "mem_invar r"
  shows "is_listing (dict_get r) st (sorted_desc listing_key (filter (listing_matches st) (map snd r)))"
proof -
  have "distinct (map listing_key (filter (listing_matches st) (map snd r)))"
    using mem_keys_distinct [OF assms] by (rule distinct_map_filter)
  then show ?thesis
    using mem_values [OF assms] by (auto simp: is_listing_def intro: strictly_sorted_desc)
qed

interpretation mem: task_repository mem_port dict_get mem_invar "\<lambda>_. True" id
proof (unfold_locales, goal_cases)
  case (1 r i t)
  then show ?case by (rule mem_lookup_id)
next
  case (2 r i)
  then show ?case by (simp add: mem_get_def)
next
  case (3 r t)
  then show ?case
    by (auto simp: mem_add_def map_of_eq_None_iff mem_invar_set dict_get_set)
next
  case (4 r t c)
  then show ?case
    by (force simp: mem_add_def dest: map_of_SomeD)
next
  case (8 r t c v)
  then show ?case
    by (auto simp: mem_update_def mem_invar_set dict_get_set)
next
  case (10 r n st)
  then show ?case
    using mem_is_listing by (auto simp: mem_list_tasks_def)
next
  case (11 t)
  then show ?case by (cases t) auto
qed (auto simp: mem_update_def)

end
