(* ===== verification/LLM_Client.thy ===== *)
theory LLM_Client
  imports LLM_Models
begin

section \<open>The outside world, the provider port and the LLM client\<close>

text \<open>
  \<open>llm/provider.py\<close> and \<open>llm/client.py\<close>. What lies outside the program (the model backend, the
  systems the tools act on) is a state \<open>ext_state\<close> that a provider call or a tool handler may
  change. \<open>event_trace\<close> is a ghost record of what the program asked of it, in order: one entry
  per provider call and one per handler that ran. The program never reads it; it lets a theorem
  speak of what was done and not only of what was returned.
\<close>

datatype event =
    ModelCall completion_request
  | HandlerRun tool_call

record 'x outside =
  ext_state :: 'x
  event_trace :: "event list"

definition log_event :: "event \<Rightarrow> ('x, 'm) outside_scheme \<Rightarrow> ('x, 'm) outside_scheme" where
  "log_event ev w = w\<lparr>event_trace := event_trace w @ [ev]\<rparr>"

lemma log_event_sel [simp]:
  "ext_state (log_event ev w) = ext_state w"
  "event_trace (log_event ev w) = event_trace w @ [ev]"
  "outside.more (log_event ev w) = outside.more w"
  by (simp_all add: log_event_def)

fun is_model_call :: "event \<Rightarrow> bool" where
  "is_model_call (ModelCall _) = True"
| "is_model_call (HandlerRun _) = False"

text \<open>Durations in whole milliseconds, printed as Python prints the float of seconds.\<close>

definition py_seconds :: "int \<Rightarrow> string" where
  "py_seconds ms =
     (let frac = nat (ms mod 1000);
          digits = [digit_char (frac div 100), digit_char (frac div 10 mod 10), digit_char (frac mod 10)];
          kept = rev (dropWhile (\<lambda>c. c = CHR ''0'') (rev digits))
      in int_str (ms div 1000) @ ''.'' @ (if kept = [] then ''0'' else kept))"


subsection \<open>The provider port\<close>

text \<open>
  A backend answers a request, changing the outside state, or raises. The port's contract is that
  failures are \<open>LLMError\<close>s; a backend that breaks it raises something else, and a call that the
  client's deadline cuts off is \<open>TimeoutError\<close>.
\<close>

record 'x llm_provider =
  provider_name :: string
  provider_complete :: "completion_request \<Rightarrow> 'x \<Rightarrow> (exn + completion) \<times> 'x"

text \<open>Every \<open>Completion\<close> object was built by its validated constructor.\<close>

definition provider_ok :: "'x llm_provider \<Rightarrow> bool" where
  "provider_ok P \<longleftrightarrow>
     (\<forall>req x c x'. provider_complete P req x = (Inr c, x') \<longrightarrow> completion_ok c)"

text \<open>The port's documented contract: failures are the taxonomy's, or a deadline.\<close>

definition raises_only_llm_errors :: "'x llm_provider \<Rightarrow> bool" where
  "raises_only_llm_errors P \<longleftrightarrow>
     (\<forall>req x e x'. provider_complete P req x = (Inl e, x') \<longrightarrow> e = TimeoutError \<or> (\<exists>le. e = LLM le))"


subsection \<open>The scripted fake\<close>

datatype script_item = ScriptText string | ScriptCompletion completion | ScriptError llm_error

record fake_state =
  fake_script :: "script_item list"
  fake_requests :: "completion_request list"

text \<open>\<open>str.split()\<close>: the maximal runs of non-space characters.\<close>

fun py_words_acc :: "string \<Rightarrow> string \<Rightarrow> string list" where
  "py_words_acc acc [] = (if acc = [] then [] else [rev acc])"
| "py_words_acc acc (c # cs) =
     (if is_space c then (if acc = [] then py_words_acc [] cs else rev acc # py_words_acc [] cs)
      else py_words_acc (c # acc) cs)"

definition py_split :: "string \<Rightarrow> string list" where
  "py_split s = py_words_acc [] s"

definition fake_complete ::
  "string \<Rightarrow> completion_request \<Rightarrow> fake_state \<Rightarrow> (exn + completion) \<times> fake_state" where
  "fake_complete model req st =
     (let st1 = st\<lparr>fake_requests := fake_requests st @ [req]\<rparr> in
      case fake_script st1 of
        [] \<Rightarrow> (Inl (RuntimeError ''FakeLLMProvider script exhausted''), st1)
      | item # rest \<Rightarrow>
          let st2 = st1\<lparr>fake_script := rest\<rparr> in
          (case item of
             ScriptError e \<Rightarrow> (Inl (LLM e), st2)
           | ScriptCompletion c \<Rightarrow> (Inr c, st2)
           | ScriptText t \<Rightarrow>
               (Inr \<lparr>comp_text = t, comp_model = model, comp_stop_reason = END_TURN,
                  comp_usage = \<lparr>input_tokens =
                      sum_list (map (\<lambda>m. int (length (py_split (msg_content m)))) (req_messages req)),
                    output_tokens = int (length (py_split t))\<rparr>,
                  comp_tool_calls = []\<rparr>, st2)))"

definition fake_provider :: "string \<Rightarrow> fake_state llm_provider" where
  "fake_provider model = \<lparr>provider_name = ''fake'', provider_complete = fake_complete model\<rparr>"


subsection \<open>The client\<close>

record 'x llm_client =
  client_provider :: "'x llm_provider"
  client_timeout_ms :: int

definition mk_llm_client :: "'x llm_provider \<Rightarrow> int \<Rightarrow> exn + 'x llm_client" where
  "mk_llm_client P timeout_ms =
     (if timeout_ms \<le> 0 then Inl (ValueError ''timeout_seconds must be positive'')
      else Inr \<lparr>client_provider = P, client_timeout_ms = timeout_ms\<rparr>)"

definition llm_complete ::
  "'x llm_client \<Rightarrow> completion_request \<Rightarrow> ('x, 'm) outside_scheme
   \<Rightarrow> (exn + completion) \<times> ('x, 'm) outside_scheme" where
  "llm_complete C req w =
     (case provider_complete (client_provider C) req (ext_state w) of
        (outcome, x) \<Rightarrow>
          let w' = log_event (ModelCall req) w\<lparr>ext_state := x\<rparr> in
          (case outcome of
             Inl TimeoutError \<Rightarrow>
               (Inl (LLM (LLMTimeoutError (provider_name (client_provider C) @
                  '' did not respond within '' @ py_seconds (client_timeout_ms C) @ ''s''))), w')
           | Inl e \<Rightarrow> (Inl e, w')
           | Inr c \<Rightarrow> (Inr c, w')))"

text \<open>
  A response schema: a Pydantic class, of which the program uses its JSON Schema, its name and
  \<open>model_validate_json\<close> (here: the value, or the number of validation errors).
\<close>

record 'a response_schema =
  schema_json :: json_object
  schema_name :: string
  schema_validate :: "string \<Rightarrow> nat + 'a"

definition complete_structured ::
  "'x llm_client \<Rightarrow> completion_request \<Rightarrow> 'a response_schema \<Rightarrow> string
   \<Rightarrow> ('x, 'm) outside_scheme \<Rightarrow> (exn + 'a) \<times> ('x, 'm) outside_scheme" where
  "complete_structured C req S operation w =
     (if req_tools req \<noteq> []
      then (Inl (ValueError ''complete_structured cannot be combined with tools''), w)
      else let req1 = req\<lparr>req_output_schema := Some (schema_json S)\<rparr> in
      (case llm_complete C req1 w of
         (Inl e, w1) \<Rightarrow> (Inl e, w1)
       | (Inr c, w1) \<Rightarrow>
           (if comp_stop_reason c = REFUSAL
            then (Inl (LLM (LLMRefusalError (''model refused structured output for '' @ quoted operation))), w1)
            else if comp_stop_reason c = MAX_TOKENS
            then (Inl (LLM (StructuredOutputError (''output for '' @ quoted operation @
                    '' was truncated at max_tokens='' @ int_str (req_max_tokens req1)) (comp_text c))), w1)
            else (case schema_validate S (comp_text c) of
                    Inr v \<Rightarrow> (Inr v, w1)
                  | Inl n \<Rightarrow> (Inl (LLM (StructuredOutputError (''output for '' @ quoted operation @
                      '' does not match '' @ schema_name S @ '': '' @ nat_str n @
                      '' validation error(s)'') (comp_text c))), w1)))))"

lemma llm_complete_event_trace:
  "llm_complete C req w = (out, w') \<Longrightarrow> event_trace w' = event_trace w @ [ModelCall req]"
  by (auto simp: llm_complete_def Let_def split: prod.splits sum.splits exn.splits)

lemma llm_complete_more:
  "llm_complete C req w = (out, w') \<Longrightarrow> outside.more w' = outside.more w"
  by (auto simp: llm_complete_def Let_def split: prod.splits sum.splits exn.splits)

lemma llm_complete_ok:
  "llm_complete C req w = (Inr c, w') \<Longrightarrow> provider_ok (client_provider C) \<Longrightarrow> completion_ok c"
  by (auto simp: llm_complete_def provider_ok_def Let_def split: prod.splits sum.splits exn.splits)

lemma llm_complete_llm_error:
  "llm_complete C req w = (Inl e, w') \<Longrightarrow> raises_only_llm_errors (client_provider C) \<Longrightarrow> \<exists>le. e = LLM le"
  by (force simp: llm_complete_def raises_only_llm_errors_def Let_def
            split: prod.splits sum.splits exn.splits)

text \<open>
  The validated value of a structured call is exactly what the schema accepts of the answer, and
  the answer was neither cut off nor refused.
\<close>

lemma complete_structured_ok:
  assumes "complete_structured C req S operation w = (Inr v, w')"
  shows "req_tools req = [] \<and>
    (\<exists>c. llm_complete C (req\<lparr>req_output_schema := Some (schema_json S)\<rparr>) w = (Inr c, w') \<and>
         schema_validate S (comp_text c) = Inr v \<and> comp_stop_reason c \<notin> {REFUSAL, MAX_TOKENS})"
  using assms
  by (auto simp: complete_structured_def Let_def split: prod.splits sum.splits if_splits)

end
