(* ===== verification/Tool_Models.thy ===== *)
theory Tool_Models
  imports LLM_Client
begin

section \<open>Tools and the risk policy (\<open>tools/models.py\<close>)\<close>

text \<open>
  \<open>RiskLevel\<close> is the datatype \<open>risk_level\<close>, a linear order by \<open>rank\<close>. A tool's argument model is a
  Pydantic class outside this repository's code: of it the program uses \<open>model_validate\<close> (here
  \<open>tool_validate\<close>, with the rendered error list on the left) and \<open>model_json_schema\<close>. A handler
  runs on the outside world and returns its text or raises.
\<close>

datatype risk_level = READ | WRITE | CRITICAL

fun rank :: "risk_level \<Rightarrow> int" where
  "rank READ = 0"
| "rank WRITE = 1"
| "rank CRITICAL = 2"

definition exceeds :: "risk_level \<Rightarrow> risk_level \<Rightarrow> bool" where
  "exceeds a b \<longleftrightarrow> rank a > rank b"

lemma rank_inject [simp]: "rank a = rank b \<longleftrightarrow> a = b"
  by (cases a; cases b) simp_all

instantiation risk_level :: linorder
begin

definition less_eq_risk_level :: "risk_level \<Rightarrow> risk_level \<Rightarrow> bool" where
  "less_eq_risk_level a b \<longleftrightarrow> rank a \<le> rank b"

definition less_risk_level :: "risk_level \<Rightarrow> risk_level \<Rightarrow> bool" where
  "less_risk_level a b \<longleftrightarrow> rank a < rank b"

instance
proof
  fix a b c :: risk_level
  show "a < b \<longleftrightarrow> a \<le> b \<and> \<not> b \<le> a"
    by (auto simp: less_eq_risk_level_def less_risk_level_def)
  show "a \<le> a"
    by (simp add: less_eq_risk_level_def)
  show "a \<le> b \<Longrightarrow> b \<le> c \<Longrightarrow> a \<le> c"
    by (simp add: less_eq_risk_level_def)
  show "a \<le> b \<Longrightarrow> b \<le> a \<Longrightarrow> a = b"
    by (simp add: less_eq_risk_level_def)
  show "a \<le> b \<or> b \<le> a"
    by (auto simp: less_eq_risk_level_def)
qed

end

lemma exceeds_iff_less: "exceeds a b \<longleftrightarrow> b < a"
  by (simp add: exceeds_def less_risk_level_def)

lemma READ_least [simp]: "READ \<le> a"
  by (cases a) (simp_all add: less_eq_risk_level_def)

lemma CRITICAL_greatest [simp]: "a \<le> CRITICAL"
  by (cases a) (simp_all add: less_eq_risk_level_def)

record 'x tool =
  tool_name :: string
  tool_description :: string
  tool_validate :: "json_object \<Rightarrow> string + json_object"
  tool_schema :: json_object
  tool_risk :: risk_level
  tool_handler :: "json_object \<Rightarrow> 'x \<Rightarrow> (exn + string) \<times> 'x"
  tool_input_schema :: "json_object option"

text \<open>\<open>__post_init__\<close>.\<close>

definition tool_ok :: "'x tool \<Rightarrow> bool" where
  "tool_ok t \<longleftrightarrow> valid_tool_name (tool_name t) \<and> py_strip (tool_description t) \<noteq> []"

definition mk_tool :: "'x tool \<Rightarrow> exn + 'x tool" where
  "mk_tool t =
     (if \<not> valid_tool_name (tool_name t)
      then Inl (ValueError (''invalid tool name '' @ quoted (tool_name t)))
      else if py_strip (tool_description t) = []
      then Inl (ValueError (''tool '' @ quoted (tool_name t) @ '' needs a description''))
      else Inr t)"

lemma mk_tool_eq: "mk_tool t = Inr t' \<longleftrightarrow> t' = t \<and> tool_ok t"
  by (auto simp: mk_tool_def tool_ok_def)

definition spec :: "'x tool \<Rightarrow> exn + tool_spec" where
  "spec t =
     (let schema = (case tool_input_schema t of Some s \<Rightarrow> s | None \<Rightarrow> tool_schema t)
      in mk_tool_spec (tool_name t) (tool_description t) schema)"

definition requires_approval :: "'x tool \<Rightarrow> risk_level \<Rightarrow> bool" where
  "requires_approval t auto_approve_up_to \<longleftrightarrow> exceeds (tool_risk t) auto_approve_up_to"

lemma requires_approval_iff: "requires_approval t up_to \<longleftrightarrow> up_to < tool_risk t"
  by (simp add: requires_approval_def exceeds_iff_less)

text \<open>Tightening the threshold never lifts a requirement; at \<open>CRITICAL\<close> nothing needs a human.\<close>

lemma requires_approval_antimono:
  "a \<le> b \<Longrightarrow> requires_approval t b \<Longrightarrow> requires_approval t a"
  by (auto simp: requires_approval_iff)

lemma requires_approval_critical [simp]: "\<not> requires_approval t CRITICAL"
  by (simp add: requires_approval_iff not_less)

lemma tool_ok_description: "tool_ok t \<Longrightarrow> tool_description t \<noteq> []"
  by (auto simp: tool_ok_def py_strip_def py_lstrip_def py_rstrip_def)

lemma spec_ok:
  "tool_ok t \<Longrightarrow> \<exists>s. spec t = Inr s \<and> spec_name s = tool_name t"
  by (auto simp: spec_def mk_tool_spec_def Let_def tool_ok_def dest: tool_ok_description
           simp: tool_ok_description [unfolded tool_ok_def])

end
