(* ===== verification/Tool_Registry.thy ===== *)
theory Tool_Registry
  imports Tool_Models
begin

section \<open>The tool registry (\<open>tools/registry.py\<close>)\<close>

text \<open>
  The one place a model's tool call becomes work. \<open>execute\<close> follows the source's order: unknown
  tool, invalid arguments, then the handler under its deadline, with its exceptions mapped to
  results. \<open>execute_all\<close> is \<open>asyncio.gather\<close>: the calls take effect in some order, given by a
  priority for each index, and the results come back in the order of the calls. A handler's
  effect is one atomic step of the outside world; a handler that the deadline cuts off raises
  \<open>TimeoutError\<close> and may have changed the world.
\<close>

definition TRUNCATION_NOTE :: string where
  "TRUNCATION_NOTE = CHR 0x0A # ''[truncated]''"

lemma length_TRUNCATION_NOTE [simp]: "length TRUNCATION_NOTE = 12"
  by (simp add: TRUNCATION_NOTE_def)

record 'x registry =
  registered_tools :: "(string, 'x tool) dict"
  registry_timeout_ms :: int
  max_result_chars :: int

definition register :: "'x tool \<Rightarrow> 'x registry \<Rightarrow> exn + 'x registry" where
  "register t reg =
     (if tool_name t \<in> fst ` set (registered_tools reg)
      then Inl (ValueError (''tool '' @ quoted (tool_name t) @ '' is already registered''))
      else Inr (reg\<lparr>registered_tools := dict_set (tool_name t) t (registered_tools reg)\<rparr>))"

fun register_each :: "'x tool list \<Rightarrow> 'x registry \<Rightarrow> exn + 'x registry" where
  "register_each [] reg = Inr reg"
| "register_each (t # ts) reg =
     (case register t reg of Inl e \<Rightarrow> Inl e | Inr reg' \<Rightarrow> register_each ts reg')"

definition mk_registry :: "'x tool list \<Rightarrow> int \<Rightarrow> int \<Rightarrow> exn + 'x registry" where
  "mk_registry tools timeout_ms max_chars =
     (if timeout_ms \<le> 0 then Inl (ValueError ''timeout_seconds must be positive'')
      else if max_chars \<le> int (length TRUNCATION_NOTE)
      then Inl (ValueError ''max_result_chars must leave room for the truncation note'')
      else register_each tools
             \<lparr>registered_tools = [], registry_timeout_ms = timeout_ms, max_result_chars = max_chars\<rparr>)"

definition get_tool :: "'x registry \<Rightarrow> string \<Rightarrow> 'x tool option" where
  "get_tool reg name = dict_get (registered_tools reg) name"

definition names :: "'x registry \<Rightarrow> string list" where
  "names reg = map fst (registered_tools reg)"

fun spec_each :: "'x tool list \<Rightarrow> exn + tool_spec list" where
  "spec_each [] = Inr []"
| "spec_each (t # ts) =
     (case spec t of Inl e \<Rightarrow> Inl e
      | Inr s \<Rightarrow> (case spec_each ts of Inl e \<Rightarrow> Inl e | Inr ss \<Rightarrow> Inr (s # ss)))"

definition specs :: "'x registry \<Rightarrow> exn + tool_spec list" where
  "specs reg = spec_each (map snd (registered_tools reg))"

definition truncate_result :: "'x registry \<Rightarrow> string \<Rightarrow> string" where
  "truncate_result reg content =
     (if int (length content) \<le> max_result_chars reg then content
      else py_take (max_result_chars reg - int (length TRUNCATION_NOTE)) content @ TRUNCATION_NOTE)"

definition failure :: "'x registry \<Rightarrow> tool_call \<Rightarrow> string \<Rightarrow> tool_result" where
  "failure reg call message =
     \<lparr>res_call_id = call_id call, res_content = truncate_result reg message, res_is_error = True\<rparr>"

definition execute ::
  "'x registry \<Rightarrow> tool_call \<Rightarrow> ('x, 'm) outside_scheme \<Rightarrow> tool_result \<times> ('x, 'm) outside_scheme" where
  "execute reg call w =
     (case get_tool reg (call_name call) of
        None \<Rightarrow>
          (failure reg call (''No tool named '' @ quoted (call_name call) @ ''. Available tools: '' @
             (if names reg = [] then ''none'' else py_join '', '' (names reg)) @ ''.''), w)
      | Some t \<Rightarrow>
          (case tool_validate t (call_arguments call) of
             Inl errors \<Rightarrow>
               (failure reg call (''Invalid arguments for '' @ quoted (tool_name t) @ '': '' @ errors), w)
           | Inr arguments \<Rightarrow>
               (case tool_handler t arguments (ext_state w) of
                  (outcome, x) \<Rightarrow>
                    let w' = log_event (HandlerRun call) w\<lparr>ext_state := x\<rparr> in
                    (case outcome of
                       Inl (ToolExecutionError m) \<Rightarrow>
                         (failure reg call
                            (if m = [] then ''Tool '' @ quoted (tool_name t) @ '' reported a failure.''
                             else m), w')
                     | Inl TimeoutError \<Rightarrow>
                         (failure reg call (''Tool '' @ quoted (tool_name t) @ '' timed out after '' @
                            py_seconds (registry_timeout_ms reg) @ ''s.''), w')
                     | Inl _ \<Rightarrow>
                         (\<lparr>res_call_id = call_id call,
                           res_content = ''Tool '' @ quoted (tool_name t) @ '' failed to run.'',
                           res_is_error = True\<rparr>, w')
                     | Inr output \<Rightarrow>
                         (\<lparr>res_call_id = call_id call, res_content = truncate_result reg output,
                           res_is_error = False\<rparr>, w')))))"

fun execute_in_order ::
  "'x registry \<Rightarrow> tool_call list \<Rightarrow> nat list \<Rightarrow> ('x, 'm) outside_scheme
   \<Rightarrow> (nat \<times> tool_result) list \<times> ('x, 'm) outside_scheme" where
  "execute_in_order reg calls [] w = ([], w)"
| "execute_in_order reg calls (i # is) w =
     (case execute reg (calls ! i) w of
        (r, w1) \<Rightarrow> (case execute_in_order reg calls is w1 of (rs, w2) \<Rightarrow> ((i, r) # rs, w2)))"

definition gather_order :: "(nat \<Rightarrow> nat) \<Rightarrow> nat \<Rightarrow> nat list" where
  "gather_order prio n = sort_key prio [0..<n]"

definition execute_all ::
  "'x registry \<Rightarrow> (nat \<Rightarrow> nat) \<Rightarrow> tool_call list \<Rightarrow> ('x, 'm) outside_scheme
   \<Rightarrow> tool_result list \<times> ('x, 'm) outside_scheme" where
  "execute_all reg prio calls w =
     (case execute_in_order reg calls (gather_order prio (length calls)) w of
        (rs, w') \<Rightarrow> (map (\<lambda>i. the (dict_get rs i)) [0..<length calls], w'))"


subsection \<open>A well-formed registry\<close>

text \<open>
  Every tool is a constructed \<open>Tool\<close> and sits under its own name; there is room for the
  truncation note. \<open>mk_registry\<close> establishes it and \<open>register\<close> keeps it.
\<close>

definition registry_ok :: "'x registry \<Rightarrow> bool" where
  "registry_ok reg \<longleftrightarrow>
     dict_wf (registered_tools reg) \<and>
     list_all (\<lambda>(n, t). n = tool_name t \<and> tool_ok t) (registered_tools reg) \<and>
     0 < registry_timeout_ms reg \<and> 12 < max_result_chars reg"

lemma register_eq:
  "register t reg = Inr reg' \<longleftrightarrow>
     tool_name t \<notin> set (names reg) \<and>
     reg' = reg\<lparr>registered_tools := registered_tools reg @ [(tool_name t, t)]\<rparr>"
  by (auto simp: register_def names_def dict_set_new)

lemma register_ok:
  "registry_ok reg \<Longrightarrow> tool_ok t \<Longrightarrow> register t reg = Inr reg' \<Longrightarrow> registry_ok reg'"
  by (auto simp: registry_ok_def register_eq dict_wf_def names_def)

lemma register_get:
  "register t reg = Inr reg' \<Longrightarrow>
   get_tool reg' n = (if n = tool_name t then Some t else get_tool reg n)"
  by (auto simp: register_def get_tool_def dict_get_set split: if_splits)

lemma register_each_ok:
  "registry_ok reg \<Longrightarrow> list_all tool_ok ts \<Longrightarrow> register_each ts reg = Inr reg' \<Longrightarrow> registry_ok reg'"
  by (induction ts arbitrary: reg) (auto split: sum.splits dest: register_ok)

lemma register_each_names:
  "register_each ts reg = Inr reg' \<Longrightarrow> names reg' = names reg @ map tool_name ts"
  by (induction ts arbitrary: reg) (auto simp: register_eq names_def split: sum.splits)

lemma register_keeps_names_distinct:
  "distinct (names reg) \<Longrightarrow> register t reg = Inr reg' \<Longrightarrow> distinct (names reg')"
  by (auto simp: register_eq names_def)

lemma register_each_distinct:
  "distinct (names reg) \<Longrightarrow> register_each ts reg = Inr reg' \<Longrightarrow> distinct (names reg')"
  by (induction ts arbitrary: reg)
     (auto split: sum.splits dest: register_keeps_names_distinct)

lemma mk_registry_ok:
  "mk_registry ts tmo mx = Inr reg \<Longrightarrow> list_all tool_ok ts \<Longrightarrow> registry_ok reg"
  by (auto simp: mk_registry_def split: if_splits elim!: register_each_ok [rotated 2])
     (simp add: registry_ok_def dict_wf_def)

lemma register_each_get:
  "register_each ts reg = Inr reg' \<Longrightarrow> get_tool reg' n = Some t \<Longrightarrow>
   get_tool reg n = Some t \<or> t \<in> set ts \<and> tool_name t = n"
  by (induction ts arbitrary: reg) (fastforce split: sum.splits if_splits simp: register_get)+

lemma mk_registry_get:
  "mk_registry ts tmo mx = Inr reg \<Longrightarrow> get_tool reg n = Some t \<Longrightarrow> t \<in> set ts \<and> tool_name t = n"
  by (auto simp: mk_registry_def get_tool_def split: if_splits dest!: register_each_get [unfolded get_tool_def])

lemma get_tool_ok:
  "registry_ok reg \<Longrightarrow> get_tool reg n = Some t \<Longrightarrow> tool_name t = n \<and> tool_ok t"
  by (auto simp: registry_ok_def get_tool_def list_all_iff dest!: map_of_SomeD)

lemma spec_each_ok:
  "list_all tool_ok ts \<Longrightarrow> \<exists>ss. spec_each ts = Inr ss \<and> map spec_name ss = map tool_name ts"
proof (induction ts)
  case Nil
  then show ?case by simp
next
  case (Cons t ts)
  then obtain ss where "spec_each ts = Inr ss" "map spec_name ss = map tool_name ts"
    by auto
  moreover obtain s where "spec t = Inr s" "spec_name s = tool_name t"
    using Cons.prems spec_ok by auto
  ultimately show ?case by simp
qed

text \<open>The declarations offered to the model: one per tool, under distinct names.\<close>

lemma specs_ok:
  assumes "registry_ok reg"
  shows "\<exists>ss. specs reg = Inr ss \<and> map spec_name ss = names reg \<and> distinct (map spec_name ss)"
proof -
  have "list_all tool_ok (map snd (registered_tools reg))"
    using assms by (auto simp: registry_ok_def list_all_iff)
  from spec_each_ok [OF this] obtain ss where ss: "specs reg = Inr ss"
      "map spec_name ss = map tool_name (map snd (registered_tools reg))"
    unfolding specs_def by blast
  moreover have "map tool_name (map snd (registered_tools reg)) = names reg"
    using assms by (auto simp: registry_ok_def list_all_iff names_def)
  moreover have "distinct (names reg)"
    using assms by (simp add: registry_ok_def dict_wf_def names_def)
  ultimately show ?thesis by auto
qed


subsection \<open>One call\<close>

lemma length_truncate_result:
  assumes "12 < max_result_chars reg"
  shows "int (length (truncate_result reg s)) \<le> max_result_chars reg"
  using assms by (auto simp: truncate_result_def)

lemma truncate_result_short:
  "int (length s) \<le> max_result_chars reg \<Longrightarrow> truncate_result reg s = s"
  by (simp add: truncate_result_def)

lemma failure_sel [simp]:
  "res_call_id (failure reg c m) = call_id c"
  "res_content (failure reg c m) = truncate_result reg m"
  "res_is_error (failure reg c m)"
  by (simp_all add: failure_def)

text \<open>What a call does to the world: nothing, or it runs its tool's handler once.\<close>

lemma execute_effect:
  assumes "execute reg call w = (r, w')"
  shows "w' = w \<or>
    (\<exists>t args out x. get_tool reg (call_name call) = Some t \<and>
       tool_validate t (call_arguments call) = Inr args \<and>
       tool_handler t args (ext_state w) = (out, x) \<and>
       w' = log_event (HandlerRun call) w\<lparr>ext_state := x\<rparr>)"
  using assms
  by (auto simp: execute_def Let_def split: option.splits sum.splits prod.splits exn.splits)

lemma execute_call_id: "execute reg call w = (r, w') \<Longrightarrow> res_call_id r = call_id call"
  by (auto simp: execute_def Let_def split: option.splits sum.splits prod.splits exn.splits)

lemma execute_more: "execute reg call w = (r, w') \<Longrightarrow> outside.more w' = outside.more w"
  by (auto dest!: execute_effect)

lemma execute_trace:
  "execute reg call w = (r, w') \<Longrightarrow>
   \<exists>evs. event_trace w' = event_trace w @ evs \<and>
     (evs = [] \<or> evs = [HandlerRun call] \<and> get_tool reg (call_name call) \<noteq> None)"
  by (auto dest!: execute_effect)

text \<open>A call fails as data only, and its text is bounded, the generic message included.\<close>

lemma execute_length:
  assumes "execute reg call w = (r, w')" and "registry_ok reg"
  shows "int (length (res_content r)) \<le> max (max_result_chars reg) 87"
proof -
  have mx: "12 < max_result_chars reg"
    using assms(2) by (simp add: registry_ok_def)
  have tr: "int (length (truncate_result reg s)) \<le> max_result_chars reg" for s
    using mx by (rule length_truncate_result)
  have nm: "get_tool reg (call_name call) = Some t \<Longrightarrow> length (tool_name t) \<le> 64" for t
    using get_tool_ok [OF assms(2), of "call_name call" t]
    by (auto simp: tool_ok_def valid_tool_name_def matches_class_def)
  show ?thesis
    using assms(1) tr nm
    by (auto simp: execute_def Let_def le_max_iff_disj
             split: option.splits sum.splits prod.splits exn.splits)
qed


subsection \<open>A whole turn\<close>

lemma set_gather_order [simp]: "set (gather_order prio n) = {0..<n}"
  by (simp add: gather_order_def)

lemma distinct_gather_order [simp]: "distinct (gather_order prio n)"
  by (simp add: gather_order_def)

lemma execute_in_order_keys:
  "execute_in_order reg calls is w = (rs, w') \<Longrightarrow> map fst rs = is"
  by (induction "is" arbitrary: w rs w') (auto split: prod.splits)

lemma execute_in_order_ids:
  "execute_in_order reg calls is w = (rs, w') \<Longrightarrow> (i, r) \<in> set rs \<Longrightarrow>
   res_call_id r = call_id (calls ! i)"
  by (induction "is" arbitrary: w rs w') (auto simp: execute_call_id split: prod.splits)

lemma execute_in_order_more:
  "execute_in_order reg calls is w = (rs, w') \<Longrightarrow> outside.more w' = outside.more w"
  by (induction "is" arbitrary: w rs w') (auto split: prod.splits dest!: execute_more)

lemma execute_in_order_trace:
  "execute_in_order reg calls is w = (rs, w') \<Longrightarrow>
   \<exists>js. event_trace w' = event_trace w @ map (\<lambda>i. HandlerRun (calls ! i)) js \<and>
     set js \<subseteq> set is \<and> (distinct is \<longrightarrow> distinct js) \<and>
     (\<forall>j \<in> set js. get_tool reg (call_name (calls ! j)) \<noteq> None)"
proof (induction "is" arbitrary: w rs w')
  case Nil
  then show ?case by auto
next
  case (Cons i "is")
  obtain r w1 rs2 where 1: "execute reg (calls ! i) w = (r, w1)"
      and 2: "execute_in_order reg calls is w1 = (rs2, w')"
    using Cons.prems by (auto split: prod.splits)
  obtain js where js: "event_trace w' = event_trace w1 @ map (\<lambda>i. HandlerRun (calls ! i)) js"
      "set js \<subseteq> set is" "distinct is \<longrightarrow> distinct js"
      "\<forall>j \<in> set js. get_tool reg (call_name (calls ! j)) \<noteq> None"
    using Cons.IH [OF 2] by blast
  from execute_trace [OF 1] show ?case
  proof (elim exE conjE disjE)
    fix evs
    assume "event_trace w1 = event_trace w @ evs" "evs = []"
    with js show ?thesis
      by (intro exI [of _ js]) auto
  next
    fix evs
    assume "event_trace w1 = event_trace w @ evs" "evs = [HandlerRun (calls ! i)]"
      "get_tool reg (call_name (calls ! i)) \<noteq> None"
    with js show ?thesis
      by (intro exI [of _ "i # js"]) auto
  qed
qed

text \<open>
  Results come back in the order of the calls, one per call, under the call's id, whatever order
  the calls finished in.
\<close>

lemma execute_all_ids:
  assumes "execute_all reg prio calls w = (rs, w')"
  shows "map res_call_id rs = map call_id calls"
proof -
  obtain ps where ps: "execute_in_order reg calls (gather_order prio (length calls)) w = (ps, w')"
      and rs: "rs = map (\<lambda>i. the (dict_get ps i)) [0..<length calls]"
    using assms by (auto simp: execute_all_def split: prod.splits)
  have keys: "map fst ps = gather_order prio (length calls)"
    using ps by (rule execute_in_order_keys)
  have "res_call_id (the (dict_get ps i)) = call_id (calls ! i)" if "i < length calls" for i
  proof -
    have "i \<in> fst ` set ps"
      using that keys by (metis atLeast0LessThan lessThan_iff list.set_map set_gather_order)
    then obtain r where "dict_get ps i = Some r"
      by (metis map_of_eq_None_iff option.exhaust)
    then show ?thesis
      by (auto dest: map_of_SomeD execute_in_order_ids [OF ps])
  qed
  then show ?thesis
    by (auto simp: rs intro!: nth_equalityI)
qed

lemma execute_all_length: "execute_all reg prio calls w = (rs, w') \<Longrightarrow> length rs = length calls"
  by (metis execute_all_ids length_map)

lemma execute_all_more: "execute_all reg prio calls w = (rs, w') \<Longrightarrow> outside.more w' = outside.more w"
  by (auto simp: execute_all_def split: prod.splits dest: execute_in_order_more)

lemma execute_all_trace:
  assumes "execute_all reg prio calls w = (rs, w')"
  shows "\<exists>js. event_trace w' = event_trace w @ map (\<lambda>i. HandlerRun (calls ! i)) js \<and>
     distinct js \<and> set js \<subseteq> {0..<length calls} \<and>
     (\<forall>j \<in> set js. get_tool reg (call_name (calls ! j)) \<noteq> None)"
  using assms execute_in_order_trace [of reg calls "gather_order prio (length calls)" w _ w']
  by (auto simp: execute_all_def split: prod.splits)

lemma execute_in_order_each:
  "execute_in_order reg calls is w = (rs, w') \<Longrightarrow> (i, r) \<in> set rs \<Longrightarrow>
   \<exists>v v' :: ('x, 'm) outside_scheme. execute reg (calls ! i) v = (r, v')"
  for w w' :: "('x, 'm) outside_scheme"
proof (induction "is" arbitrary: w rs w')
  case Nil
  then show ?case by simp
next
  case (Cons a js)
  obtain r1 w1 rs1 where one: "execute reg (calls ! a) w = (r1, w1)"
      and rest: "execute_in_order reg calls js w1 = (rs1, w')" and rs: "rs = (a, r1) # rs1"
    using Cons.prems(1) by (auto split: prod.splits)
  from Cons.prems(2) rs consider "i = a" "r = r1" | "(i, r) \<in> set rs1" by auto
  then show ?case
    using one Cons.IH [OF rest] by cases blast+
qed

text \<open>Each result is that of its own call, run on the world the calls before it left.\<close>

lemma execute_all_each:
  fixes w w' :: "('x, 'm) outside_scheme"
  assumes "execute_all reg prio calls w = (rs, w')" and "j < length calls"
  shows "\<exists>v v' :: ('x, 'm) outside_scheme. execute reg (calls ! j) v = (rs ! j, v')"
proof -
  obtain ps where ps: "execute_in_order reg calls (gather_order prio (length calls)) w = (ps, w')"
      and rs: "rs = map (\<lambda>i. the (dict_get ps i)) [0..<length calls]"
    using assms(1) by (auto simp: execute_all_def split: prod.splits)
  have "j \<in> fst ` set ps"
    using execute_in_order_keys [OF ps] assms(2) by (metis atLeastLessThan_iff image_set set_gather_order zero_le)
  then obtain r where "dict_get ps j = Some r"
    by (metis dom_map_of_conv_image_fst domD)
  moreover from this have "(j, r) \<in> set ps" by (rule map_of_SomeD)
  ultimately show ?thesis
    using execute_in_order_each [OF ps] rs assms(2) by auto
qed

text \<open>
  A reflexive, transitive relation on the outside state that the handlers of the called tools keep
  is kept by the call, and by the turn.
\<close>

lemma execute_lift:
  assumes "execute reg call w = (r, w')" and "\<And>x. R x x"
    and "\<And>t args x. get_tool reg (call_name call) = Some t \<Longrightarrow>
      tool_validate t (call_arguments call) = Inr args \<Longrightarrow> R x (snd (tool_handler t args x))"
  shows "R (ext_state w) (ext_state w')"
  using execute_effect [OF assms(1)]
proof (elim disjE exE conjE)
  fix t args out x
  assume "get_tool reg (call_name call) = Some t" "tool_validate t (call_arguments call) = Inr args"
    "tool_handler t args (ext_state w) = (out, x)" "w' = log_event (HandlerRun call) w\<lparr>ext_state := x\<rparr>"
  then show ?thesis using assms(3) [of t args "ext_state w"] by simp
qed (simp add: assms(2))

lemma execute_all_lift:
  fixes w w' :: "('x, 'm) outside_scheme"
  assumes ex: "execute_all reg prio calls w = (rs, w')" and refl: "\<And>x. R x x"
    and trans: "\<And>x y z. R x y \<Longrightarrow> R y z \<Longrightarrow> R x z"
    and keep: "\<And>c t args x. c \<in> set calls \<Longrightarrow> get_tool reg (call_name c) = Some t \<Longrightarrow>
      tool_validate t (call_arguments c) = Inr args \<Longrightarrow> R x (snd (tool_handler t args x))"
  shows "R (ext_state w) (ext_state w')"
proof -
  have "R (ext_state w) (ext_state w')"
    if "execute_in_order reg calls is w = (ps, w')" "\<forall>i \<in> set is. i < length calls"
    for "is" ps and w w' :: "('x, 'm) outside_scheme"
    using that
  proof (induction "is" arbitrary: w ps)
    case Nil
    then show ?case by (simp add: refl)
  next
    case (Cons i js)
    obtain r w1 qs where one: "execute reg (calls ! i) w = (r, w1)"
        and rest: "execute_in_order reg calls js w1 = (qs, w')"
      using Cons.prems(1) by (auto split: prod.splits)
    have "calls ! i \<in> set calls" using Cons.prems(2) by simp
    then have "R (ext_state w) (ext_state w1)"
      using keep by (intro execute_lift [OF one refl]) blast
    moreover have "R (ext_state w1) (ext_state w')"
      using Cons.IH [OF rest] Cons.prems(2) by simp
    ultimately show ?case by (rule trans)
  qed
  moreover obtain ps where "execute_in_order reg calls (gather_order prio (length calls)) w = (ps, w')"
    using ex by (auto simp: execute_all_def split: prod.splits)
  ultimately show ?thesis by (metis atLeastLessThan_iff set_gather_order)
qed

end
