(* ===== verification/Task_Service.thy ===== *)
theory Task_Service
  imports Task_Repository Tool_Registry
begin

section \<open>Suspension points, other writers and \<open>transition_task\<close> (\<open>tasks/service.py\<close>)\<close>

text \<open>
  The program is asynchronous: at every \<open>await\<close> other requests may run, so between two operations
  of one request the store can change. A \<open>world\<close> is the outside state plus the store and the
  number of suspension points passed; an \<open>env\<close> says what the rest of the system does at the
  \<open>n\<close>-th of them: what the other writers make of the store, what the clock reads, in which order
  the calls of a turn finish. Every theorem about the code holds for every \<open>env\<close>; where it needs
  the other writers to be writers of this program it says \<open>fair_env\<close>, which allows them any
  number of legal transitions and new tasks.
\<close>

record 'r env =
  others :: "nat \<Rightarrow> 'r \<Rightarrow> 'r"
  clock :: "nat \<Rightarrow> timestamp"
  finish_priority :: "nat \<Rightarrow> nat \<Rightarrow> nat"

record ('x, 'r) world = "'x outside" +
  store :: 'r
  await_count :: nat

definition await :: "'r env \<Rightarrow> ('x, 'r) world \<Rightarrow> ('x, 'r) world" where
  "await e w = w\<lparr>store := others e (await_count w) (store w), await_count := Suc (await_count w)\<rparr>"

definition now :: "'r env \<Rightarrow> ('x, 'r) world \<Rightarrow> timestamp" where
  "now e w = clock e (await_count w)"

text \<open>\<open>await repository.get(i)\<close> and \<open>await repository.update(t, expected_version=v)\<close>.\<close>

definition await_get ::
  "'r task_repo \<Rightarrow> 'r env \<Rightarrow> uuid \<Rightarrow> ('x, 'r) world \<Rightarrow> (exn + agent_task) \<times> ('x, 'r) world" where
  "await_get R e i w = (let w1 = await e w in (repo_get R i (store w1), w1))"

definition await_update ::
  "'r task_repo \<Rightarrow> 'r env \<Rightarrow> agent_task \<Rightarrow> int \<Rightarrow> ('x, 'r) world
   \<Rightarrow> (exn + unit) \<times> ('x, 'r) world" where
  "await_update R e t v w =
     (let w1 = await e w in
      case repo_update R t v (store w1) of
        Inl x \<Rightarrow> (Inl x, w1)
      | Inr r \<Rightarrow> (Inr (), w1\<lparr>store := r\<rparr>))"

definition await_add ::
  "'r task_repo \<Rightarrow> 'r env \<Rightarrow> agent_task \<Rightarrow> ('x, 'r) world \<Rightarrow> (exn + unit) \<times> ('x, 'r) world" where
  "await_add R e t w =
     (let w1 = await e w in
      case repo_add R t (store w1) of
        Inl x \<Rightarrow> (Inl x, w1)
      | Inr r \<Rightarrow> (Inr (), w1\<lparr>store := r\<rparr>))"

text \<open>\<open>expected_version is not None and current.version != expected_version\<close>.\<close>

definition version_moved :: "int option \<Rightarrow> agent_task \<Rightarrow> bool" where
  "version_moved expected current \<longleftrightarrow>
     (case expected of None \<Rightarrow> False | Some v \<Rightarrow> version current \<noteq> v)"

definition transition_task ::
  "'r task_repo \<Rightarrow> 'r env \<Rightarrow> uuid \<Rightarrow> task_status \<Rightarrow> string option \<Rightarrow> run_checkpoint option
   \<Rightarrow> int option \<Rightarrow> ('x, 'r) world \<Rightarrow> (exn + agent_task) \<times> ('x, 'r) world" where
  "transition_task R e i target why cp expected_version w =
     (case await_get R e i w of
        (Inl x, w1) \<Rightarrow> (Inl x, w1)
      | (Inr current, w1) \<Rightarrow>
          if version_moved expected_version current
          then (Inl (ConcurrentUpdateError i (the expected_version) (version current)), w1)
          else
            (case transition_to current target why cp (now e w1) of
               Inl x \<Rightarrow> (Inl x, w1)
             | Inr updated \<Rightarrow>
                 (case await_update R e updated (version current) w1 of
                    (Inl x, w2) \<Rightarrow> (Inl x, w2)
                  | (Inr _, w2) \<Rightarrow> (Inr updated, w2))))"


subsection \<open>What other writers may do\<close>

definition repo_evolves :: "('r \<Rightarrow> uuid \<Rightarrow> agent_task option) \<Rightarrow> 'r \<Rightarrow> 'r \<Rightarrow> bool" where
  "repo_evolves lookup r r' \<longleftrightarrow>
     (\<forall>i t. lookup r i = Some t \<longrightarrow> (\<exists>t'. lookup r' i = Some t' \<and> evolves t t'))"

definition all_tasks_ok :: "('r \<Rightarrow> uuid \<Rightarrow> agent_task option) \<Rightarrow> 'r \<Rightarrow> bool" where
  "all_tasks_ok lookup r \<longleftrightarrow> (\<forall>i t. lookup r i = Some t \<longrightarrow> task_ok t)"

definition fair_env ::
  "('r \<Rightarrow> uuid \<Rightarrow> agent_task option) \<Rightarrow> ('r \<Rightarrow> bool) \<Rightarrow> 'r env \<Rightarrow> bool" where
  "fair_env lookup invar e \<longleftrightarrow>
     (\<forall>n r. invar r \<longrightarrow> invar (others e n r) \<and> repo_evolves lookup r (others e n r) \<and>
        (all_tasks_ok lookup r \<longrightarrow> all_tasks_ok lookup (others e n r)))"

text \<open>An environment in which nobody else writes.\<close>

definition alone :: "'r env \<Rightarrow> bool" where
  "alone e \<longleftrightarrow> (\<forall>n r. others e n r = r)"

lemma repo_evolves_refl [simp]: "repo_evolves lookup r r"
  by (simp add: repo_evolves_def)

lemma repo_evolves_trans [trans]:
  "repo_evolves lookup r s \<Longrightarrow> repo_evolves lookup s t \<Longrightarrow> repo_evolves lookup r t"
  unfolding repo_evolves_def by (meson rtranclp_trans)

lemma repo_evolvesD:
  "repo_evolves lookup r r' \<Longrightarrow> lookup r i = Some t \<Longrightarrow> \<exists>t'. lookup r' i = Some t' \<and> evolves t t'"
  by (simp add: repo_evolves_def)

lemma alone_fair: "alone e \<Longrightarrow> fair_env lookup invar e"
  by (simp add: alone_def fair_env_def)

lemma await_sel [simp]:
  "ext_state (await e w) = ext_state w" "event_trace (await e w) = event_trace w"
  "await_count (await e w) = Suc (await_count w)"
  by (simp_all add: await_def)

lemma store_await: "store (await e w) = others e (await_count w) (store w)"
  by (simp add: await_def)

lemma store_await_alone: "alone e \<Longrightarrow> store (await e w) = store w"
  by (simp add: store_await alone_def)

text \<open>What happens outside leaves the store alone.\<close>

lemma store_same_more: "outside.more w' = outside.more w \<Longrightarrow> store w' = store w"
  for w w' :: "('x, 'r) world"
  by (cases w; cases w') simp

lemma await_count_same_more: "outside.more w' = outside.more w \<Longrightarrow> await_count w' = await_count w"
  for w w' :: "('x, 'r) world"
  by (cases w; cases w') simp

lemmas llm_complete_store = llm_complete_more [THEN store_same_more]
lemmas execute_all_store = execute_all_more [THEN store_same_more]

text \<open>\<open>transition_task\<close> with its two suspension points in the open, and its outcomes.\<close>

lemma transition_task_eq:
  "transition_task R e i target why cp expected w =
     (case repo_get R i (store (await e w)) of
        Inl x \<Rightarrow> (Inl x, await e w)
      | Inr t \<Rightarrow>
          if version_moved expected t
          then (Inl (ConcurrentUpdateError i (the expected) (version t)), await e w)
          else
            (case transition_to t target why cp (now e (await e w)) of
               Inl x \<Rightarrow> (Inl x, await e w)
             | Inr t' \<Rightarrow>
                 (case repo_update R t' (version t) (store (await e (await e w))) of
                    Inl x \<Rightarrow> (Inl x, await e (await e w))
                  | Inr r \<Rightarrow> (Inr t', (await e (await e w))\<lparr>store := r\<rparr>))))"
  by (simp add: transition_task_def await_get_def await_update_def Let_def split: sum.split)

lemma transition_task_InrE:
  assumes "transition_task R e i target why cp expected w = (Inr t', w')"
  obtains t r where "repo_get R i (store (await e w)) = Inr t" "\<not> version_moved expected t"
    "transition_to t target why cp (now e (await e w)) = Inr t'"
    "repo_update R t' (version t) (store (await e (await e w))) = Inr r"
    "w' = (await e (await e w))\<lparr>store := r\<rparr>"
  using assms by (simp add: transition_task_eq split: sum.split_asm if_split_asm)

lemma transition_task_InlE:
  assumes "transition_task R e i target why cp expected w = (Inl x, w')"
  obtains
    (get) "repo_get R i (store (await e w)) = Inl x" "w' = await e w"
  | (moved) t where "repo_get R i (store (await e w)) = Inr t" "version_moved expected t"
      "x = ConcurrentUpdateError i (the expected) (version t)" "w' = await e w"
  | (lifecycle) t where "repo_get R i (store (await e w)) = Inr t" "\<not> version_moved expected t"
      "transition_to t target why cp (now e (await e w)) = Inl x" "w' = await e w"
  | (update) t t' where "repo_get R i (store (await e w)) = Inr t" "\<not> version_moved expected t"
      "transition_to t target why cp (now e (await e w)) = Inr t'"
      "repo_update R t' (version t) (store (await e (await e w))) = Inl x"
      "w' = await e (await e w)"
proof (cases "repo_get R i (store (await e w))")
  case (Inl y)
  with assms have "x = y" "w' = await e w"
    by (simp_all add: transition_task_eq)
  with Inl get show thesis by blast
next
  case (Inr t)
  show thesis
  proof (cases "version_moved expected t")
    case True
    with assms Inr have "x = ConcurrentUpdateError i (the expected) (version t)" "w' = await e w"
      by (simp_all add: transition_task_eq)
    with moved [OF Inr True] show thesis by blast
  next
    case False
    show thesis
    proof (cases "transition_to t target why cp (now e (await e w))")
      case L: (Inl y)
      with assms Inr False have "x = y" "w' = await e w"
        by (simp_all add: transition_task_eq)
      with L lifecycle [OF Inr False] show thesis by blast
    next
      case R: (Inr t')
      have "repo_update R t' (version t) (store (await e (await e w))) = Inl x"
          "w' = await e (await e w)"
        using assms Inr False R by (simp_all add: transition_task_eq split: sum.split_asm)
      then show thesis
        using update [OF Inr False R] by blast
    qed
  qed
qed

lemma transition_task_outside:
  assumes "transition_task R e i target why cp expected w = (out, w')"
  shows "ext_state w' = ext_state w" "event_trace w' = event_trace w"
proof -
  have "ext_state w' = ext_state w \<and> event_trace w' = event_trace w"
  proof (cases out)
    case (Inl x)
    from assms [unfolded Inl] show ?thesis
      by (cases rule: transition_task_InlE) simp_all
  next
    case (Inr t')
    from assms [unfolded Inr] show ?thesis
      by (cases rule: transition_task_InrE) simp_all
  qed
  then show "ext_state w' = ext_state w" "event_trace w' = event_trace w"
    by simp_all
qed

text \<open>A transition that raises has written nothing itself.\<close>

lemma transition_task_Inl_store:
  "transition_task R e i target why cp expected w = (Inl x, w') \<Longrightarrow>
   store w' = store (await e w) \<or> store w' = store (await e (await e w))"
  by (erule transition_task_InlE) simp_all


subsection \<open>The use case against the repository contract\<close>

context task_repository
begin

definition state_ok :: "('x, 'r) world \<Rightarrow> bool" where
  "state_ok w \<longleftrightarrow> invar (store w) \<and> all_tasks_ok lookup (store w)"

lemma await_ok:
  assumes "fair_env lookup invar e" and "invar (store w)"
  shows "invar (store (await e w))" "repo_evolves lookup (store w) (store (await e w))"
    "all_tasks_ok lookup (store w) \<Longrightarrow> all_tasks_ok lookup (store (await e w))"
  using assms by (simp_all add: fair_env_def store_await)

text \<open>
  A transition that returns: the task it read was still the stored one when the write landed, the
  stored task is that one's next version, and nothing else was written by it.
\<close>

lemma transition_task_Inr:
  assumes fair: "fair_env lookup invar e" and inv: "invar (store w)"
    and run: "transition_task R e i target why cp expected w = (Inr t', w')"
  shows "\<exists>t r. repo_evolves lookup (store w) r \<and> invar r \<and> lookup r i = Some t \<and>
    (all_tasks_ok lookup (store w) \<longrightarrow> all_tasks_ok lookup r) \<and>
    \<not> version_moved expected t \<and>
    transition_to t target why cp (now e (await e w)) = Inr t' \<and>
    invar (store w') \<and> lookup (store w') = (lookup r)(i \<mapsto> stored t')"
proof -
  let ?w1 = "await e w" and ?w2 = "await e (await e w)"
  note a1 = await_ok [OF fair inv]
  note a2 = await_ok [OF fair a1(1)]
  obtain t r where t: "repo_get R i (store ?w1) = Inr t" "\<not> version_moved expected t"
      "transition_to t target why cp (now e ?w1) = Inr t'"
      "repo_update R t' (version t) (store ?w2) = Inr r" "w' = ?w2\<lparr>store := r\<rparr>"
    using run by (rule transition_task_InrE)
  have lk: "lookup (store ?w1) i = Some t"
    using get_Inr [OF a1(1)] t(1) by blast
  have id: "task_id t' = i" and ident: "same_identity t t'"
    using lookup_id [OF a1(1) lk] t(3) by (simp_all add: transition_to_eq same_identity_def)
  have same: "c = t" if "lookup (store ?w2) (task_id t') = Some c" "version c = version t" for c
    using repo_evolvesD [OF a2(2) lk] that id evolves_same_version by auto
  have "same_identity c t'" if "lookup (store ?w2) (task_id t') = Some c" "version c = version t" for c
    using same [OF that] ident by simp
  from update_Inr [OF a2(1) t(4) _ this] same id t(3)
  have "lookup (store ?w2) i = Some t" "invar r" "lookup r = (lookup (store ?w2))(i \<mapsto> stored t')"
    by (auto simp: transition_to_eq)
  moreover have "repo_evolves lookup (store w) (store ?w2)"
    using a1(2) a2(2) by (rule repo_evolves_trans)
  ultimately show ?thesis
    using t(2,3,5) a1(3) a2(1,3) by (intro exI [of _ t] exI [of _ "store ?w2"]) simp
qed

text \<open>Whatever it returns, a transition is a legal change of the store.\<close>

lemma transition_task_guarantee:
  assumes fair: "fair_env lookup invar e" and inv: "invar (store w)"
    and run: "transition_task R e i target why cp expected w = (out, w')"
  shows "invar (store w') \<and> repo_evolves lookup (store w) (store w')"
proof (cases out)
  case (Inl x)
  note a1 = await_ok [OF fair inv]
  note a2 = await_ok [OF fair a1(1)]
  from transition_task_Inl_store [OF run [unfolded Inl]] show ?thesis
    using a1(1,2) a2(1) repo_evolves_trans [OF a1(2) a2(2)] by metis
next
  case (Inr t')
  from transition_task_Inr [OF fair inv run [unfolded Inr]]
  obtain t r where r: "repo_evolves lookup (store w) r" "lookup r i = Some t"
      "transition_to t target why cp (now e (await e w)) = Inr t'"
      "invar (store w')" "lookup (store w') = (lookup r)(i \<mapsto> stored t')"
    by blast
  have "legal_step t (stored t')"
    using transition_to_legal [OF r(3)] by (rule legal_step_stored)
  then have "repo_evolves lookup r (store w')"
    using r(2,5) by (simp add: repo_evolves_def)
  with r(1) have "repo_evolves lookup (store w) (store w')"
    by (rule repo_evolves_trans)
  with r(4) show ?thesis ..
qed

lemma transition_task_keeps_ok:
  assumes fair: "fair_env lookup invar e" and ok: "state_ok w"
    and cp: "\<And>c. cp = Some c \<Longrightarrow> paused_ok c"
    and run: "transition_task R e i target why cp expected w = (out, w')"
  shows "state_ok w'"
proof -
  have inv: "invar (store w)" and tasks: "all_tasks_ok lookup (store w)"
    using ok by (simp_all add: state_ok_def)
  note a1 = await_ok [OF fair inv]
  note a2 = await_ok [OF fair a1(1)]
  show ?thesis
  proof (cases out)
    case (Inl x)
    from transition_task_Inl_store [OF run [unfolded Inl]] show ?thesis
      using a1(1,3) a2(1,3) tasks by (metis state_ok_def)
  next
    case (Inr t')
    from transition_task_Inr [OF fair inv run [unfolded Inr]] tasks
    obtain t r where r: "all_tasks_ok lookup r" "lookup r i = Some t"
        "transition_to t target why cp (now e (await e w)) = Inr t'"
        "invar (store w')" "lookup (store w') = (lookup r)(i \<mapsto> stored t')"
      by blast
    have "task_ok t"
      using r(1,2) by (simp add: all_tasks_ok_def)
    then have "task_ok (stored t')"
      using transition_to_ok [OF r(3) _ cp] stored_ok by blast
    with r(1,4,5) show ?thesis
      by (simp add: state_ok_def all_tasks_ok_def)
  qed
qed

text \<open>Its failures are the documented ones, for values the store can hold.\<close>

lemma transition_task_errors:
  assumes fair: "fair_env lookup invar e" and inv: "invar (store w)"
    and run: "transition_task R e i target why cp expected w = (Inl x, w')"
    and cp: "cp = None \<or> target = AWAITING_APPROVAL"
    and storable: "\<And>t. storable t"
  shows "(x = TaskNotFoundError i \<and> lookup (store w) i = None \<and> lookup (store (await e w)) i = None) \<or>
    (\<exists>s. x = InvalidTransitionError s target \<and> target \<notin> set (ALLOWED_TRANSITIONS s)) \<or>
    (\<exists>v c. x = ConcurrentUpdateError i v c)"
proof -
  note a1 = await_ok [OF fair inv]
  note a2 = await_ok [OF fair a1(1)]
  from run show ?thesis
  proof (cases rule: transition_task_InlE)
    case get
    then have "lookup (store (await e w)) i = None" "x = TaskNotFoundError i"
      using get_Inl [OF a1(1)] by simp_all
    with repo_evolvesD [OF a1(2), of i] show ?thesis by (cases "lookup (store w) i") auto
  next
    case moved
    then show ?thesis by simp
  next
    case (lifecycle t)
    with cp show ?thesis by (auto simp: transition_to_Inl)
  next
    case (update t t')
    have lk: "lookup (store (await e w)) i = Some t"
      using get_Inr [OF a1(1)] update(1) by blast
    have id: "task_id t' = i" and ident: "same_identity t t'" and next_v: "version t' = version t + 1"
      using lookup_id [OF a1(1) lk] update(3) by (simp_all add: transition_to_eq same_identity_def)
    obtain c where c: "lookup (store (await e (await e w))) i = Some c" "evolves t c"
      using repo_evolvesD [OF a2(2) lk] by blast
    have "version c \<noteq> version t"
    proof
      assume v: "version c = version t"
      then have "c = t"
        using c(2) evolves_same_version by blast
      with update_current [OF a2(1) storable next_v] c(1) v id ident update(4)
      show False by auto
    qed
    then show ?thesis
      using update_stale [OF a2(1) storable next_v] c(1) id update(4) by auto
  qed
qed

text \<open>With no other writer: the exact outcome.\<close>

lemma transition_task_alone:
  assumes "alone e" and inv: "invar (store w)" and lk: "lookup (store w) i = Some t"
    and "\<not> version_moved expected t"
    and tr: "transition_to t target why cp (now e (await e w)) = Inr t'" and "storable t'"
  shows "\<exists>r. transition_task R e i target why cp expected w =
      (Inr t', (await e (await e w))\<lparr>store := r\<rparr>) \<and>
    invar r \<and> lookup r = (lookup (store w))(i \<mapsto> stored t')"
proof -
  have id: "task_id t' = i" and same: "same_identity t t'" and next_v: "version t' = version t + 1"
    using lookup_id [OF inv lk] tr by (simp_all add: transition_to_eq same_identity_def)
  obtain r where r: "repo_update R t' (version t) (store w) = Inr r" "invar r"
      "lookup r = (lookup (store w))(i \<mapsto> stored t')"
    using update_current [OF inv assms(6) next_v, of t] lk id same by auto
  have "store (await e w) = store w" "store (await e (await e w)) = store w"
    using assms(1) by (simp_all add: store_await_alone)
  then have "transition_task R e i target why cp expected w =
      (Inr t', (await e (await e w))\<lparr>store := r\<rparr>)"
    using r(1) assms(4) tr by (simp add: transition_task_eq get_law [OF inv] lk)
  with r(2,3) show ?thesis by blast
qed

end

end
