(* ===== verification/Runner_Facts.thy ===== *)
theory Runner_Facts
  imports Agent_Runner
begin

section \<open>What every method of the runner keeps: frames, traces, budgets\<close>

text \<open>
  Case rules for the runner's methods; the locale \<open>runner_frame\<close>, which lifts a relation between
  worlds from the runner's primitive actions (a suspension, a model call, an unattended turn, a
  transition) to its methods; the ghost trace; the accounting of steps and model calls.
\<close>

definition is_conflict :: "exn \<Rightarrow> bool" where
  "is_conflict x \<longleftrightarrow>
     (case x of InvalidTransitionError _ _ \<Rightarrow> True | ConcurrentUpdateError _ _ _ \<Rightarrow> True | _ \<Rightarrow> False)"

definition discarded :: "run_state \<Rightarrow> agent_task \<Rightarrow> run_result" where
  "discarded st t =
     \<lparr>rr_task = t, rr_output = [],
      rr_detail = ''run stopped: task is '' @ quoted (status_value (status t)),
      rr_steps = rs_steps st, rr_tool_calls = rs_tool_calls st,
      rr_usage = run_usage st, rr_pending_calls = []\<rparr>"

definition finished :: "run_state \<Rightarrow> string \<Rightarrow> string \<Rightarrow> run_checkpoint option \<Rightarrow> agent_task \<Rightarrow> run_result" where
  "finished st why output cp t =
     \<lparr>rr_task = t, rr_output = output, rr_detail = why,
      rr_steps = rs_steps st, rr_tool_calls = rs_tool_calls st,
      rr_usage = run_usage st,
      rr_pending_calls = (case cp of None \<Rightarrow> [] | Some c \<Rightarrow> pending_calls c)\<rparr>"

lemma discarded_sel [simp]:
  "rr_task (discarded st t) = t" "rr_output (discarded st t) = []"
  "rr_detail (discarded st t) = ''run stopped: task is '' @ quoted (status_value (status t))"
  "rr_steps (discarded st t) = rs_steps st" "rr_tool_calls (discarded st t) = rs_tool_calls st"
  "rr_usage (discarded st t) = run_usage st" "rr_pending_calls (discarded st t) = []"
  by (simp_all add: discarded_def)

lemma finished_sel [simp]:
  "rr_task (finished st why out cp t) = t" "rr_output (finished st why out cp t) = out"
  "rr_detail (finished st why out cp t) = why" "rr_steps (finished st why out cp t) = rs_steps st"
  "rr_tool_calls (finished st why out cp t) = rs_tool_calls st"
  "rr_usage (finished st why out cp t) = run_usage st"
  "rr_pending_calls (finished st why out cp t) = (case cp of None \<Rightarrow> [] | Some c \<Rightarrow> pending_calls c)"
  by (simp_all add: finished_def)

lemma discard_eq:
  "discard D e i st w = (map_sum id (discarded st) (repo_get (runner_repo D) i (store (await e w))), await e w)"
  by (simp add: discard_def await_get_def discarded_def Let_def split: sum.split)

lemma still_running_eq:
  "still_running D e i w =
     (map_sum id (\<lambda>t. status t = RUNNING) (repo_get (runner_repo D) i (store (await e w))), await e w)"
  by (simp add: still_running_def await_get_def Let_def split: sum.split)

lemma require_paused_eq:
  "require_paused D e i w =
     (case repo_get (runner_repo D) i (store (await e w)) of
        Inl x \<Rightarrow> (Inl x, await e w)
      | Inr t \<Rightarrow> if status t \<noteq> AWAITING_APPROVAL then (Inl (InvalidTransitionError (status t) RUNNING), await e w)
                else (Inr t, await e w))"
  by (simp add: require_paused_def await_get_def Let_def split: sum.split)

lemma finish_eq:
  "finish D e i target st why output cp w =
     (case transition_task (runner_repo D) e i target (Some why) cp None w of
        (Inl x, w1) \<Rightarrow> if is_conflict x then discard D e i st w1 else (Inl x, w1)
      | (Inr t, w1) \<Rightarrow> (Inr (finished st why output cp t), w1))"
  by (simp add: finish_def finished_def is_conflict_def split: prod.split sum.split exn.split)

lemma finish_cases:
  assumes "finish D e i target st why output cp w = (out, w')"
  obtains
    (landed) t where "transition_task (runner_repo D) e i target (Some why) cp None w = (Inr t, w')"
      "out = Inr (finished st why output cp t)"
  | (lost) x w1 where "transition_task (runner_repo D) e i target (Some why) cp None w = (Inl x, w1)"
      "is_conflict x" "discard D e i st w1 = (out, w')"
  | (raised) x where "transition_task (runner_repo D) e i target (Some why) cp None w = (Inl x, w')"
      "\<not> is_conflict x" "out = Inl x"
  using assms by (auto simp: finish_eq split: prod.splits sum.splits if_splits)

text \<open>\<open>conclude\<close> is one of three endings.\<close>

lemma conclude_cases:
  assumes "conclude D e i c st w = (out, w')"
  obtains target why ans where "target \<in> {FAILED, COMPLETED}"
    "finish D e i target st why ans None w = (out, w')"
    "ans \<noteq> [] \<longrightarrow> target = COMPLETED \<and> ans = comp_text c"
    "target = COMPLETED \<longleftrightarrow> comp_stop_reason c \<notin> {MAX_TOKENS, REFUSAL}"
  using assms that [of FAILED _ "[]"] that [of COMPLETED]
  by (auto simp: conclude_def split: if_splits)

lemma tool_turn_cases:
  assumes "tool_turn D e i msgs c st w = (out, w')"
  obtains
    (held) cp r where "filter (needs_approval D) (comp_tool_calls c) \<noteq> []"
      "mk_run_checkpoint msgs (rs_steps st) (rs_tool_calls st) (run_usage st) = Inr cp"
      "finish D e i AWAITING_APPROVAL st (approval_reason (filter (needs_approval D) (comp_tool_calls c)))
         (comp_text c) (Some cp) w = (r, w')" "out = Stop r"
  | (no_checkpoint) x where "filter (needs_approval D) (comp_tool_calls c) \<noteq> []"
      "mk_run_checkpoint msgs (rs_steps st) (rs_tool_calls st) (run_usage st) = Inl x"
      "out = Stop (Inl x)" "w' = w"
  | (executed) rs m where "list_all (\<lambda>call. \<not> needs_approval D call) (comp_tool_calls c)"
      "execute_all (runner_tools D) (finish_priority e (await_count w)) (comp_tool_calls c) (await e w) = (rs, w')"
      "with_tool_results rs = Inr m"
      "out = Next (msgs @ [m]) (st\<lparr>rs_tool_calls := rs_tool_calls st + int (length rs)\<rparr>)"
  | (no_message) rs x where "list_all (\<lambda>call. \<not> needs_approval D call) (comp_tool_calls c)"
      "execute_all (runner_tools D) (finish_priority e (await_count w)) (comp_tool_calls c) (await e w) = (rs, w')"
      "with_tool_results rs = Inl x" "out = Stop (Inl x)"
proof (cases "filter (needs_approval D) (comp_tool_calls c) = []")
  case True
  obtain rs w1 where ex: "execute_all (runner_tools D) (finish_priority e (await_count w))
      (comp_tool_calls c) (await e w) = (rs, w1)"
    by (metis surj_pair)
  have ungated: "list_all (\<lambda>call. \<not> needs_approval D call) (comp_tool_calls c)"
    using True by (simp add: filter_empty_conv list_all_iff)
  show thesis
  proof (cases "with_tool_results rs")
    case (Inl x)
    with assms True ex have "out = Stop (Inl x)" "w' = w1"
      by (simp_all add: tool_turn_def Let_def)
    with no_message ungated ex Inl show thesis by blast
  next
    case (Inr m)
    with assms True ex have
      "out = Next (msgs @ [m]) (st\<lparr>rs_tool_calls := rs_tool_calls st + int (length rs)\<rparr>)" "w' = w1"
      by (simp_all add: tool_turn_def Let_def)
    with executed ungated ex Inr show thesis by blast
  qed
next
  case False
  show thesis
  proof (cases "mk_run_checkpoint msgs (rs_steps st) (rs_tool_calls st) (run_usage st)")
    case (Inl x)
    with assms False have "out = Stop (Inl x)" "w' = w"
      by (simp_all add: tool_turn_def Let_def)
    with no_checkpoint False Inl show thesis by blast
  next
    case (Inr cp)
    obtain r w1 where fin: "finish D e i AWAITING_APPROVAL st
        (approval_reason (filter (needs_approval D) (comp_tool_calls c))) (comp_text c) (Some cp) w = (r, w1)"
      by (metis surj_pair)
    with assms False Inr have "out = Stop r" "w' = w1"
      by (simp_all add: tool_turn_def Let_def)
    with held False Inr fin show thesis by blast
  qed
qed

lemma model_turn_cases:
  assumes "model_turn D e i offered msgs st w = (out, w')"
  obtains
    (no_request) x where
      "mk_completion_request msgs (Some (system_prompt D)) (max_tokens D) None offered = Inl x"
      "out = Stop (Inl x)" "w' = w"
  | (model_failed) req le w1 r where
      "mk_completion_request msgs (Some (system_prompt D)) (max_tokens D) None offered = Inr req"
      "llm_complete (runner_llm D) req (await e w) = (Inl (LLM le), w1)"
      "finish D e i FAILED st (''model call failed ('' @ llm_error_name le @ '')'') [] None w1 = (r, w')"
      "out = Stop r"
  | (escaped) req x where
      "mk_completion_request msgs (Some (system_prompt D)) (max_tokens D) None offered = Inr req"
      "llm_complete (runner_llm D) req (await e w) = (Inl x, w')" "\<nexists>le. x = LLM le"
      "out = Stop (Inl x)"
  | (answered) req c w1 r where
      "mk_completion_request msgs (Some (system_prompt D)) (max_tokens D) None offered = Inr req"
      "llm_complete (runner_llm D) req (await e w) = (Inr c, w1)" "comp_stop_reason c \<noteq> TOOL_USE"
      "conclude D e i c (record_usage (comp_usage c) st) w1 = (r, w')" "out = Stop r"
  | (no_turn) req c x where
      "mk_completion_request msgs (Some (system_prompt D)) (max_tokens D) None offered = Inr req"
      "llm_complete (runner_llm D) req (await e w) = (Inr c, w')" "comp_stop_reason c = TOOL_USE"
      "from_completion c = Inl x" "out = Stop (Inl x)"
  | (tools) req c w1 m where
      "mk_completion_request msgs (Some (system_prompt D)) (max_tokens D) None offered = Inr req"
      "llm_complete (runner_llm D) req (await e w) = (Inr c, w1)" "comp_stop_reason c = TOOL_USE"
      "from_completion c = Inr m"
      "tool_turn D e i (msgs @ [m]) c (record_usage (comp_usage c) st) w1 = (out, w')"
proof (cases "mk_completion_request msgs (Some (system_prompt D)) (max_tokens D) None offered")
  case (Inl x)
  with assms no_request show thesis by (simp add: model_turn_def)
next
  case req: (Inr req)
  obtain res w1 where call: "llm_complete (runner_llm D) req (await e w) = (res, w1)"
    by (metis surj_pair)
  show thesis
  proof (cases res)
    case (Inl x)
    show thesis
    proof (cases "\<exists>le. x = LLM le")
      case True
      then obtain le where le: "x = LLM le" ..
      obtain r w2 where fin: "finish D e i FAILED st
          (''model call failed ('' @ llm_error_name le @ '')'') [] None w1 = (r, w2)"
        by (metis surj_pair)
      with assms req call Inl le have "out = Stop r" "w' = w2"
        by (simp_all add: model_turn_def)
      with model_failed req call Inl le fin show thesis by blast
    next
      case False
      with assms req call Inl have "out = Stop (Inl x)" "w' = w1"
        by (simp_all add: model_turn_def split: exn.split_asm)
      with escaped req call Inl False show thesis by blast
    qed
  next
    case (Inr c)
    show thesis
    proof (cases "comp_stop_reason c = TOOL_USE")
      case False
      obtain r w2 where con: "conclude D e i c (record_usage (comp_usage c) st) w1 = (r, w2)"
        by (metis surj_pair)
      with assms req call Inr False have "out = Stop r" "w' = w2"
        by (simp_all add: model_turn_def Let_def)
      with answered req call Inr False con show thesis by blast
    next
      case True
      show thesis
      proof (cases "from_completion c")
        case fc: (Inl x)
        with assms req call Inr True have "out = Stop (Inl x)" "w' = w1"
          by (simp_all add: model_turn_def Let_def)
        with no_turn req call Inr True fc show thesis by blast
      next
        case fc: (Inr m)
        with assms req call Inr True
        have "tool_turn D e i (msgs @ [m]) c (record_usage (comp_usage c) st) w1 = (out, w')"
          by (simp add: model_turn_def Let_def)
        with tools req call Inr True fc show thesis by blast
      qed
    qed
  qed
qed

lemma drive_step_cases:
  assumes "drive_step D e i offered msgs st w = (out, w')"
  obtains
    (lookup_failed) x where "rs_steps st \<noteq> 0"
      "repo_get (runner_repo D) i (store (await e w)) = Inl x" "out = Stop (Inl x)" "w' = await e w"
  | (taken_over) t r where "rs_steps st \<noteq> 0"
      "repo_get (runner_repo D) i (store (await e w)) = Inr t" "status t \<noteq> RUNNING"
      "discard D e i st (await e w) = (r, w')" "out = Stop r"
  | (still_ours) t where "rs_steps st \<noteq> 0"
      "repo_get (runner_repo D) i (store (await e w)) = Inr t" "status t = RUNNING"
      "model_turn D e i offered msgs (st\<lparr>rs_steps := rs_steps st + 1\<rparr>) (await e w) = (out, w')"
  | (first) "rs_steps st = 0"
      "model_turn D e i offered msgs (st\<lparr>rs_steps := rs_steps st + 1\<rparr>) w = (out, w')"
proof (cases "rs_steps st = 0")
  case True
  with assms first show thesis by (simp add: drive_step_def)
next
  case False
  show thesis
  proof (cases "repo_get (runner_repo D) i (store (await e w))")
    case (Inl x)
    with assms False have "out = Stop (Inl x)" "w' = await e w"
      by (simp_all add: drive_step_def still_running_eq)
    with lookup_failed False Inl show thesis by blast
  next
    case (Inr t)
    show thesis
    proof (cases "status t = RUNNING")
      case True
      with assms False Inr have
        "model_turn D e i offered msgs (st\<lparr>rs_steps := rs_steps st + 1\<rparr>) (await e w) = (out, w')"
        by (simp add: drive_step_def still_running_eq)
      with still_ours False Inr True show thesis by blast
    next
      case gone: False
      obtain r w1 where dis: "discard D e i st (await e w) = (r, w1)"
        by (metis surj_pair)
      with assms False Inr gone have "out = Stop r" "w' = w1"
        by (simp_all add: drive_step_def still_running_eq)
      with taken_over False Inr gone dis show thesis by blast
    qed
  qed
qed

lemma drive_loop_cases:
  assumes "drive_loop D e i offered msgs st w = (out, w')"
  obtains
    (exhausted) "max_steps D \<le> rs_steps st"
      "finish D e i FAILED st (''step budget of '' @ int_str (max_steps D) @ '' model calls exhausted'')
         [] None w = (out, w')"
  | (stopped) "rs_steps st < max_steps D" "drive_step D e i offered msgs st w = (Stop out, w')"
  | (again) msgs1 st1 w1 where "rs_steps st < max_steps D"
      "drive_step D e i offered msgs st w = (Next msgs1 st1, w1)"
      "drive_loop D e i offered msgs1 st1 w1 = (out, w')"
proof (cases "rs_steps st < max_steps D")
  case False
  with assms exhausted show thesis by (simp add: drive_loop.simps [of D e i offered msgs st w])
next
  case True
  obtain o1 w1 where step: "drive_step D e i offered msgs st w = (o1, w1)"
    by (metis surj_pair)
  show thesis
  proof (cases o1)
    case (Stop r)
    with assms True step have "out = r" "w' = w1"
      by (simp_all add: drive_loop.simps [of D e i offered msgs st w])
    with stopped True step Stop show thesis by blast
  next
    case (Next msgs1 st1)
    with assms True step have "drive_loop D e i offered msgs1 st1 w1 = (out, w')"
      by (simp add: drive_loop.simps [of D e i offered msgs st w])
    with again True step Next show thesis by blast
  qed
qed

text \<open>Induction over the rounds of the loop.\<close>

lemma drive_loop_induct [consumes 1, case_names exhausted stopped again]:
  assumes "drive_loop D e i offered msgs st w = (out, w')"
    and "\<And>msgs st w. max_steps D \<le> rs_steps st \<Longrightarrow>
      finish D e i FAILED st (''step budget of '' @ int_str (max_steps D) @ '' model calls exhausted'')
        [] None w = (out, w') \<Longrightarrow> P msgs st w"
    and "\<And>msgs st w. rs_steps st < max_steps D \<Longrightarrow>
      drive_step D e i offered msgs st w = (Stop out, w') \<Longrightarrow> P msgs st w"
    and "\<And>msgs st w msgs1 st1 w1. rs_steps st < max_steps D \<Longrightarrow>
      drive_step D e i offered msgs st w = (Next msgs1 st1, w1) \<Longrightarrow>
      drive_loop D e i offered msgs1 st1 w1 = (out, w') \<Longrightarrow> P msgs1 st1 w1 \<Longrightarrow> P msgs st w"
  shows "P msgs st w"
  using assms(1)
proof (induction "nat (max_steps D - rs_steps st)" arbitrary: msgs st w rule: less_induct)
  case less
  from less.prems show ?case
  proof (cases rule: drive_loop_cases)
    case exhausted
    then show ?thesis by (rule assms(2))
  next
    case stopped
    then show ?thesis by (rule assms(3))
  next
    case (again msgs1 st1 w1)
    have "nat (max_steps D - rs_steps st1) < nat (max_steps D - rs_steps st)"
      using drive_step_steps [OF again(2)] again(1) by simp
    then have "P msgs1 st1 w1"
      using again(3) by (rule less.hyps)
    with again show ?thesis by (rule assms(4))
  qed
qed

end
