(* ===== verification/Runner_Frames.thy ===== *)
theory Runner_Frames
  imports Runner_Facts
begin

section \<open>Frames of the runner: lifting a relation from its actions to its methods\<close>

text \<open>
  \<open>runner_frame\<close> is the interface between the runner's methods and the four things they do to the
  world: pass a suspension point, call the model, run a turn nothing of which needs approval,
  make a lifecycle transition. A reflexive, transitive relation that these keep is kept by every
  method. \<open>fit\<close> is what the relation needs of the conversation, an opening that every round
  keeps; a checkpoint written by a pause is a fit conversation and the turn that asked for tools.
  The frame is interpreted here for the ghost trace.
\<close>

locale runner_frame =
  fixes D :: "('x, 'r) agent_runner" and e :: "'r env"
    and fit :: "message list \<Rightarrow> bool"
    and G :: "('x, 'r) world \<Rightarrow> ('x, 'r) world \<Rightarrow> bool"
  assumes fit_opening: "mk_message USER (opening_text g) [] [] = Inr m \<Longrightarrow> fit [m]"
    and fit_round: "fit msgs \<Longrightarrow> from_completion c = Inr m \<Longrightarrow> with_tool_results rs = Inr m' \<Longrightarrow>
      map res_call_id rs = map call_id (comp_tool_calls c) \<Longrightarrow> fit (msgs @ [m, m'])"
    and G_refl: "G w w"
    and G_trans: "G w1 w2 \<Longrightarrow> G w2 w3 \<Longrightarrow> G w1 w3"
    and G_await: "G w (await e w)"
    and G_model: "llm_complete (runner_llm D) req w = (res, w') \<Longrightarrow> G w w'"
    and G_unattended: "list_all (\<lambda>c. \<not> needs_approval D c) calls \<Longrightarrow>
      execute_all (runner_tools D) prio calls w = (rs, w') \<Longrightarrow> G w w'"
    and G_transition: "(\<And>c. cp = Some c \<Longrightarrow> checkpoint_ok c \<and>
        (\<exists>msgs a m. cp_messages c = msgs @ [m] \<and> fit msgs \<and> from_completion a = Inr m)) \<Longrightarrow>
      transition_task (runner_repo D) e i target why cp expected w = (out, w') \<Longrightarrow> G w w'"
begin

lemma G_discard: "discard D e i st w = (out, w') \<Longrightarrow> G w w'"
  using G_await by (auto simp: discard_eq)

lemma G_finish:
  assumes "finish D e i target st why ans cp w = (out, w')" "\<And>c. cp = Some c \<Longrightarrow> checkpoint_ok c \<and>
      (\<exists>msgs a m. cp_messages c = msgs @ [m] \<and> fit msgs \<and> from_completion a = Inr m)"
  shows "G w w'"
  using assms(1)
proof (cases rule: finish_cases)
  case (landed t)
  from assms(2) landed(1) show ?thesis by (rule G_transition)
next
  case (lost x w1)
  have "G w w1"
    using assms(2) lost(1) by (rule G_transition)
  moreover have "G w1 w'"
    using lost(3) by (rule G_discard)
  ultimately show ?thesis by (rule G_trans)
next
  case (raised x)
  from assms(2) raised(1) show ?thesis by (rule G_transition)
qed

lemma G_conclude: "conclude D e i c st w = (out, w') \<Longrightarrow> G w w'"
  by (erule conclude_cases) (erule G_finish, simp)

lemma G_tool_turn:
  assumes "tool_turn D e i (msgs @ [m]) c st w = (out, w')" "fit msgs" "from_completion c = Inr m"
  shows "G w w'"
  using assms(1)
proof (cases rule: tool_turn_cases)
  case (held cp r)
  have "cp_messages cp = msgs @ [m]" "checkpoint_ok cp"
    using mk_run_checkpoint_eq [THEN iffD1, OF held(2)] by auto
  then show ?thesis using G_finish [OF held(3)] assms(2,3) by blast
next
  case no_checkpoint
  then show ?thesis using G_refl by blast
next
  case executed
  show ?thesis by (rule G_trans [OF G_await G_unattended [OF executed(1,2)]])
next
  case no_message
  show ?thesis by (rule G_trans [OF G_await G_unattended [OF no_message(1,2)]])
qed

lemma G_ask: "llm_complete (runner_llm D) req (await e w) = (res, w1) \<Longrightarrow> G w w1"
  by (rule G_trans [OF G_await G_model])

lemma G_model_turn:
  assumes "model_turn D e i offered msgs st w = (out, w')" "fit msgs"
  shows "G w w'"
  using assms(1)
proof (cases rule: model_turn_cases)
  case no_request
  then show ?thesis using G_refl by blast
next
  case (model_failed req le w1 r)
  have "G w1 w'" using model_failed(3) by (rule G_finish) simp
  with G_ask [OF model_failed(2)] show ?thesis by (rule G_trans)
next
  case escaped
  show ?thesis by (rule G_ask [OF escaped(2)])
next
  case answered
  show ?thesis by (rule G_trans [OF G_ask [OF answered(2)] G_conclude [OF answered(4)]])
next
  case no_turn
  show ?thesis by (rule G_ask [OF no_turn(2)])
next
  case tools
  show ?thesis by (rule G_trans [OF G_ask [OF tools(2)] G_tool_turn [OF tools(5) assms(2) tools(4)]])
qed

lemma G_drive_step:
  "drive_step D e i offered msgs st w = (out, w') \<Longrightarrow> fit msgs \<Longrightarrow> G w w'"
  by (erule drive_step_cases)
     (blast intro: G_await G_trans dest: G_discard G_model_turn)+

lemma fit_model_turn:
  assumes "model_turn D e i offered msgs st w = (Next msgs1 st1, w')" "fit msgs"
  shows "fit msgs1"
  using assms(1)
proof (cases rule: model_turn_cases)
  case (tools req c w1 m)
  from tools(5) show ?thesis
  proof (cases rule: tool_turn_cases)
    case (executed rs m')
    from fit_round [OF assms(2) tools(4) executed(3) execute_all_ids [OF executed(2)]] executed(4)
    show ?thesis by simp
  qed simp_all
qed simp_all

lemma fit_drive_step:
  "drive_step D e i offered msgs st w = (Next msgs1 st1, w') \<Longrightarrow> fit msgs \<Longrightarrow> fit msgs1"
  by (erule drive_step_cases) (auto intro: fit_model_turn)

lemma G_drive_loop:
  assumes "drive_loop D e i offered msgs st w = (out, w')" and "fit msgs"
  shows "G w w'"
  using assms
proof (induction rule: drive_loop_induct)
  case (exhausted msgs st w)
  from exhausted(2) show ?case by (rule G_finish) simp
next
  case (stopped msgs st w)
  from stopped(2,3) show ?case by (rule G_drive_step)
next
  case (again msgs st w msgs1 st1 w1)
  from G_drive_step [OF again(2,5)] again(4) [OF fit_drive_step [OF again(2,5)]]
  show ?case by (rule G_trans)
qed

lemma G_drive: "drive D e i msgs st w = (out, w') \<Longrightarrow> fit msgs \<Longrightarrow> G w w'"
  using G_refl by (auto simp: drive_def dest: G_drive_loop split: sum.splits)

lemma G_run: "run D e i w = (out, w') \<Longrightarrow> G w w'"
proof -
  assume run: "run D e i w = (out, w')"
  obtain res w1 where tr: "transition_task (runner_repo D) e i RUNNING (Some ''agent run started'') None None w = (res, w1)"
    by (metis surj_pair)
  have "G w w1" using tr by (rule G_transition [rotated]) simp
  moreover have "G w1 w'"
    using run tr G_refl
    by (auto simp: run_def dest: G_drive [OF _ fit_opening] split: sum.splits)
  ultimately show ?thesis by (rule G_trans)
qed

lemma G_require_paused: "require_paused D e i w = (out, w') \<Longrightarrow> G w w'"
  using G_await by (auto simp: require_paused_eq split: sum.splits if_splits)

lemma G_reject: "reject D e i by_whom why w = (out, w') \<Longrightarrow> G w w'"
proof -
  assume rej: "reject D e i by_whom why w = (out, w')"
  obtain res w1 where rp: "require_paused D e i w = (res, w1)" by (metis surj_pair)
  have "G w w1" using rp by (rule G_require_paused)
  moreover have "G w1 w'"
    using rej rp G_refl by (auto simp: reject_def elim!: G_transition [rotated] split: sum.splits)
  ultimately show ?thesis by (rule G_trans)
qed

text \<open>A resumption up to the approved calls, and from their results on.\<close>

lemma G_resume:
  assumes "resume D e i by_whom note w = (out, w')"
  obtains (refused) "G w w'" "\<exists>x. out = Inl x" "event_trace w' = event_trace w"
  | (released) paused cp t w1 w2 w3 rs where "G w w2"
      "(\<And>m. with_tool_results rs = Inr m \<Longrightarrow> fit (cp_messages cp @ [m])) \<Longrightarrow> G w3 w'"
      "require_paused D e i w = (Inr paused, w1)" "checkpoint paused = Some cp"
      "transition_task (runner_repo D) e i RUNNING (Some (with_note (''approved by '' @ by_whom) note)) None
         (Some (version paused)) w1 = (Inr t, w2)"
      "execute_all (runner_tools D) (finish_priority e (await_count w2)) (pending_calls cp) (await e w2) = (rs, w3)"
      "case with_tool_results rs of Inl x \<Rightarrow> out = Inl x \<and> w' = w3
       | Inr m \<Rightarrow> drive D e (task_id t) (cp_messages cp @ [m])
           ((resuming cp)\<lparr>rs_tool_calls := cp_tool_calls cp + int (length rs)\<rparr>) w3 = (out, w')"
proof -
  obtain res w1 where rp: "require_paused D e i w = (res, w1)" by (metis surj_pair)
  have g1: "G w w1" using rp by (rule G_require_paused)
  have t1: "event_trace w1 = event_trace w"
    using rp by (auto simp: require_paused_eq split: sum.splits if_splits)
  show thesis
  proof (cases res)
    case (Inl x)
    with assms rp have "w' = w1" "out = Inl x" by (simp_all add: resume_def)
    with refused g1 t1 show thesis by blast
  next
    case paused: (Inr paused)
    show thesis
    proof (cases "checkpoint paused")
      case None
      with assms rp paused have "w' = w1" "out = Inl (NotResumableError i)" by (simp_all add: resume_def)
      with refused g1 t1 show thesis by blast
    next
      case cp: (Some cp)
      obtain res2 w2 where tr: "transition_task (runner_repo D) e i RUNNING
          (Some (with_note (''approved by '' @ by_whom) note)) None (Some (version paused)) w1 = (res2, w2)"
        by (metis surj_pair)
      have g2: "G w w2" using G_transition [OF _ tr] g1 G_trans by blast
      have t2: "event_trace w2 = event_trace w"
        using transition_task_outside [OF tr] t1 by simp
      show thesis
      proof (cases res2)
        case (Inl x)
        with assms rp paused cp tr have "w' = w2" "out = Inl x" by (simp_all add: resume_def)
        with refused g2 t2 show thesis by blast
      next
        case t: (Inr t)
        obtain rs w3 where ex: "execute_all (runner_tools D) (finish_priority e (await_count w2))
            (pending_calls cp) (await e w2) = (rs, w3)"
          by (metis surj_pair)
        have start: "rs_tool_calls (resuming cp) = cp_tool_calls cp"
          by (simp add: resuming_def)
        have con: "case with_tool_results rs of Inl x \<Rightarrow> out = Inl x \<and> w' = w3
           | Inr m \<Rightarrow> drive D e (task_id t) (cp_messages cp @ [m])
               ((resuming cp)\<lparr>rs_tool_calls := cp_tool_calls cp + int (length rs)\<rparr>) w3 = (out, w')"
          using assms rp paused cp tr t ex
          by (cases "with_tool_results rs") (simp_all add: resume_def continue_run_def start Let_def)
        then have "G w3 w'" if "\<And>m. with_tool_results rs = Inr m \<Longrightarrow> fit (cp_messages cp @ [m])"
          using G_refl that by (auto dest: G_drive split: sum.splits)
        with released g2 rp paused cp tr t ex con show thesis by blast
      qed
    qed
  qed
qed

end

text \<open>
  The trace: every method only appends to it, and every handler it runs, unless a resumption
  releases it, is one the policy lets run unattended.
\<close>

definition unattended_events :: "('x, 'r) agent_runner \<Rightarrow> event list \<Rightarrow> bool" where
  "unattended_events D evs \<longleftrightarrow> (\<forall>c. HandlerRun c \<in> set evs \<longrightarrow> \<not> needs_approval D c)"

definition extends_unattended ::
  "('x, 'r) agent_runner \<Rightarrow> ('x, 'r) world \<Rightarrow> ('x, 'r) world \<Rightarrow> bool" where
  "extends_unattended D w w' \<longleftrightarrow>
     (\<exists>evs. event_trace w' = event_trace w @ evs \<and> unattended_events D evs)"

lemma extends_unattendedI:
  "event_trace w' = event_trace w @ evs \<Longrightarrow> unattended_events D evs \<Longrightarrow> extends_unattended D w w'"
  by (auto simp: extends_unattended_def)

interpretation trace: runner_frame D e "\<lambda>_. True" "extends_unattended D" for D e
proof (unfold_locales, goal_cases)
  case (3 w)
  show ?case by (rule extends_unattendedI [of _ _ "[]"]) (simp_all add: unattended_events_def)
next
  case (4 w1 w2 w3)
  then show ?case
    unfolding extends_unattended_def unattended_events_def by fastforce
next
  case (5 w)
  show ?case by (rule extends_unattendedI [of _ _ "[]"]) (simp_all add: unattended_events_def)
next
  case (6 req w res w')
  from llm_complete_event_trace [OF 6] show ?case
    by (rule extends_unattendedI) (simp add: unattended_events_def)
next
  case (7 calls prio w rs w')
  from execute_all_trace [OF 7(2)] obtain js where
      "event_trace w' = event_trace w @ map (\<lambda>i. HandlerRun (calls ! i)) js"
      "set js \<subseteq> {0..<length calls}"
    by blast
  moreover have "calls ! j \<in> set calls" if "j \<in> set js" for j
    using that calculation(2) by (intro nth_mem) auto
  ultimately show ?case
    using 7(1) by (intro extends_unattendedI) (auto simp: unattended_events_def list_all_iff)
next
  case (8 cp i target why expected w out w')
  from transition_task_outside [OF 8(2)] show ?case
    by (intro extends_unattendedI [of _ _ "[]"]) (simp_all add: unattended_events_def)
qed simp_all

end
