(* ===== verification/Runner_Endings.thy ===== *)
theory Runner_Endings
  imports Runner_Frames
begin

section \<open>How a run ends, and what it cost\<close>

text \<open>
  The loop leaves in one of three ways: it ends the task with one of the six endings below, it
  finds the task taken over and discards its outcome, or an exception goes through. The lemmas
  give the way out together with the accounts kept on the way: model calls against the step
  counter, handler runs against the tool-call counter.
\<close>

definition model_calls :: "('x, 'm) outside_scheme \<Rightarrow> int" where
  "model_calls w = int (length (filter is_model_call (event_trace w)))"

definition handler_runs :: "('x, 'm) outside_scheme \<Rightarrow> int" where
  "handler_runs w = int (length (filter (\<lambda>ev. \<not> is_model_call ev) (event_trace w)))"

lemma counts_same_trace:
  "event_trace w' = event_trace w \<Longrightarrow> model_calls w' = model_calls w"
  "event_trace w' = event_trace w \<Longrightarrow> handler_runs w' = handler_runs w"
  by (simp_all add: model_calls_def handler_runs_def)

lemma counts_await [simp]:
  "model_calls (await e w) = model_calls w" "handler_runs (await e w) = handler_runs w"
  by (simp_all add: model_calls_def handler_runs_def)

lemma counts_transition:
  assumes "transition_task R e i target why cp expected w = (out, w')"
  shows "model_calls w' = model_calls w" "handler_runs w' = handler_runs w"
  using transition_task_outside(2) [OF assms] by (rule counts_same_trace)+

lemma counts_llm:
  assumes "llm_complete C req w = (out, w')"
  shows "model_calls w' = model_calls w + 1" "handler_runs w' = handler_runs w"
  using llm_complete_event_trace [OF assms] by (simp_all add: model_calls_def handler_runs_def)

lemma counts_execute_all:
  assumes "execute_all reg prio calls w = (rs, w')"
  shows "model_calls w' = model_calls w" "handler_runs w \<le> handler_runs w'"
    "handler_runs w' \<le> handler_runs w + int (length rs)"
proof -
  obtain js where js: "event_trace w' = event_trace w @ map (\<lambda>i. HandlerRun (calls ! i)) js"
      "distinct js" "set js \<subseteq> {0..<length calls}"
    using execute_all_trace [OF assms] by blast
  have "length js \<le> length rs"
    using distinct_card [OF js(2)] card_mono [OF _ js(3)] execute_all_length [OF assms] by simp
  moreover have "filter is_model_call (map (\<lambda>i. HandlerRun (calls ! i)) js) = []"
      "filter (\<lambda>ev. \<not> is_model_call ev) (map (\<lambda>i. HandlerRun (calls ! i)) js) =
       map (\<lambda>i. HandlerRun (calls ! i)) js"
    by (auto simp: filter_empty_conv filter_id_conv)
  ultimately show "model_calls w' = model_calls w" "handler_runs w \<le> handler_runs w'"
    "handler_runs w' \<le> handler_runs w + int (length rs)"
    using js(1) by (simp_all add: model_calls_def handler_runs_def)
qed

lemma counts_discard:
  assumes "discard D e i st w = (out, w')"
  shows "model_calls w' = model_calls w" "handler_runs w' = handler_runs w"
  using assms by (auto simp: discard_eq)

lemma counts_finish:
  assumes "finish D e i target st why ans cp w = (out, w')"
  shows "model_calls w' = model_calls w" "handler_runs w' = handler_runs w"
proof -
  have "model_calls w' = model_calls w \<and> handler_runs w' = handler_runs w"
    using assms
  proof (cases rule: finish_cases)
    case landed
    then show ?thesis by (simp add: counts_transition [OF landed(1)])
  next
    case lost
    then show ?thesis by (simp add: counts_transition [OF lost(1)] counts_discard [OF lost(3)])
  next
    case raised
    then show ?thesis by (simp add: counts_transition [OF raised(1)])
  qed
  then show "model_calls w' = model_calls w" "handler_runs w' = handler_runs w"
    by simp_all
qed


subsection \<open>The endings\<close>

text \<open>\<open>answer_given D c w\<close>: the last thing asked of the outside is a request the model answered \<open>c\<close>.\<close>

definition answer_given :: "('x, 'r) agent_runner \<Rightarrow> completion \<Rightarrow> ('x, 'r) world \<Rightarrow> bool" where
  "answer_given D c w \<longleftrightarrow>
     (\<exists>req evs x. event_trace w = evs @ [ModelCall req] \<and>
        provider_complete (client_provider (runner_llm D)) req x = (Inr c, ext_state w))"

inductive run_ending ::
  "('x, 'r) agent_runner \<Rightarrow> run_state \<Rightarrow> ('x, 'r) world
   \<Rightarrow> task_status \<Rightarrow> string \<Rightarrow> string \<Rightarrow> run_checkpoint option \<Rightarrow> bool"
  for D st w where
  answered: "answer_given D c w \<Longrightarrow> comp_stop_reason c \<in> {END_TURN, STOP_SEQUENCE} \<Longrightarrow>
    run_ending D st w COMPLETED ''agent run completed'' (comp_text c) None"
| truncated: "answer_given D c w \<Longrightarrow> comp_stop_reason c = MAX_TOKENS \<Longrightarrow>
    run_ending D st w FAILED (''answer truncated at max_tokens='' @ int_str (max_tokens D)) [] None"
| refused: "answer_given D c w \<Longrightarrow> comp_stop_reason c = REFUSAL \<Longrightarrow>
    run_ending D st w FAILED ''model refused the task'' [] None"
| model_failed: "run_ending D st w FAILED (''model call failed ('' @ llm_error_name le @ '')'') [] None"
| exhausted: "max_steps D \<le> rs_steps st \<Longrightarrow>
    run_ending D st w FAILED
      (''step budget of '' @ int_str (max_steps D) @ '' model calls exhausted'') [] None"
| held: "answer_given D c w \<Longrightarrow> comp_stop_reason c = TOOL_USE \<Longrightarrow>
    filter (needs_approval D) (comp_tool_calls c) \<noteq> [] \<Longrightarrow>
    checkpoint_ok cp \<Longrightarrow> pending_calls cp = comp_tool_calls c \<Longrightarrow> cp_steps cp = rs_steps st \<Longrightarrow>
    cp_tool_calls cp = rs_tool_calls st \<Longrightarrow> cp_usage cp = run_usage st \<Longrightarrow>
    run_ending D st w AWAITING_APPROVAL
      (approval_reason (filter (needs_approval D) (comp_tool_calls c))) (comp_text c) (Some cp)"

inductive_cases run_endingE: "run_ending D st w target why ans cp"
inductive_cases run_ending_completedE: "run_ending D st w COMPLETED why ans cp"
inductive_cases run_ending_heldE: "run_ending D st w AWAITING_APPROVAL why ans cp"

lemma run_ending_target: "run_ending D st w target why ans cp \<Longrightarrow>
    target \<in> {COMPLETED, FAILED, AWAITING_APPROVAL}"
  by (erule run_endingE) simp_all

lemma run_ending_checkpoint: "run_ending D st w target why ans (Some c) \<Longrightarrow>
    target = AWAITING_APPROVAL \<and> checkpoint_ok c"
  by (erule run_endingE) simp_all

lemma llm_complete_answer_given:
  "llm_complete (runner_llm D) req w = (Inr c, w') \<Longrightarrow> answer_given D c w'"
  by (auto simp: llm_complete_def answer_given_def Let_def
           split: prod.splits sum.splits exn.splits)

lemma conclude_ending:
  assumes "conclude D e i c st w = (out, w')" "answer_given D c w" "comp_stop_reason c \<noteq> TOOL_USE"
  shows "\<exists>target why ans. run_ending D st w target why ans None \<and>
    finish D e i target st why ans None w = (out, w')"
proof (cases "comp_stop_reason c")
  case MAX_TOKENS
  with assms(1,2) show ?thesis
    by (intro exI conjI) (erule (1) run_ending.truncated, simp add: conclude_def)
next
  case REFUSAL
  with assms(1,2) show ?thesis
    by (intro exI conjI) (erule (1) run_ending.refused, simp add: conclude_def)
next
  case END_TURN
  with assms(1,2) show ?thesis
    by (intro exI conjI) (erule run_ending.answered, simp, simp add: conclude_def)
next
  case STOP_SEQUENCE
  with assms(1,2) show ?thesis
    by (intro exI conjI) (erule run_ending.answered, simp, simp add: conclude_def)
next
  case TOOL_USE
  with assms(3) show ?thesis ..
qed


subsection \<open>One round\<close>

text \<open>A round that goes on: a model answer asking for tools none of which is gated, all of them run.\<close>

lemma model_turn_NextE:
  assumes "model_turn D e i offered msgs st w = (Next msgs1 st1, w')"
  obtains req c w1 m rs m' where
    "mk_completion_request msgs (Some (system_prompt D)) (max_tokens D) None offered = Inr req"
    "llm_complete (runner_llm D) req (await e w) = (Inr c, w1)" "comp_stop_reason c = TOOL_USE"
    "from_completion c = Inr m" "list_all (\<lambda>call. \<not> needs_approval D call) (comp_tool_calls c)"
    "execute_all (runner_tools D) (finish_priority e (await_count w1)) (comp_tool_calls c)
       (await e w1) = (rs, w')"
    "with_tool_results rs = Inr m'" "msgs1 = msgs @ [m, m']"
    "st1 = (record_usage (comp_usage c) st)\<lparr>rs_tool_calls := rs_tool_calls st + int (length rs)\<rparr>"
  using assms
proof (cases rule: model_turn_cases)
  case (tools req c w1 m)
  from tools(5) show ?thesis
  proof (cases rule: tool_turn_cases)
    case (executed rs m')
    show ?thesis
      by (rule that [OF tools(1-4) executed(1-3)]) (use executed(4) in simp_all)
  qed simp_all
qed simp_all

lemma drive_step_NextE:
  assumes "drive_step D e i offered msgs st w = (Next msgs1 st1, w')"
  obtains w0 req c w1 m rs m' where "w0 = w \<or> w0 = await e w"
    "rs_steps st \<noteq> 0 \<Longrightarrow> \<exists>t. repo_get (runner_repo D) i (store (await e w)) = Inr t \<and> status t = RUNNING"
    "mk_completion_request msgs (Some (system_prompt D)) (max_tokens D) None offered = Inr req"
    "llm_complete (runner_llm D) req (await e w0) = (Inr c, w1)" "comp_stop_reason c = TOOL_USE"
    "from_completion c = Inr m" "list_all (\<lambda>call. \<not> needs_approval D call) (comp_tool_calls c)"
    "execute_all (runner_tools D) (finish_priority e (await_count w1)) (comp_tool_calls c)
       (await e w1) = (rs, w')"
    "with_tool_results rs = Inr m'" "msgs1 = msgs @ [m, m']"
    "rs_steps st1 = rs_steps st + 1" "rs_tool_calls st1 = rs_tool_calls st + int (length rs)"
    "run_usage st1 = run_usage (record_usage (comp_usage c) st)"
proof -
  obtain w0 where w0: "w0 = w \<or> w0 = await e w"
      "rs_steps st \<noteq> 0 \<Longrightarrow> \<exists>t. repo_get (runner_repo D) i (store (await e w)) = Inr t \<and> status t = RUNNING"
      "model_turn D e i offered msgs (st\<lparr>rs_steps := rs_steps st + 1\<rparr>) w0 = (Next msgs1 st1, w')"
    using assms by (cases rule: drive_step_cases) auto
  show thesis
    using w0(3)
  proof (rule model_turn_NextE)
    fix req c w1 m rs m'
    assume "mk_completion_request msgs (Some (system_prompt D)) (max_tokens D) None offered = Inr req"
      "llm_complete (runner_llm D) req (await e w0) = (Inr c, w1)" "comp_stop_reason c = TOOL_USE"
      "from_completion c = Inr m" "list_all (\<lambda>call. \<not> needs_approval D call) (comp_tool_calls c)"
      "execute_all (runner_tools D) (finish_priority e (await_count w1)) (comp_tool_calls c)
         (await e w1) = (rs, w')"
      "with_tool_results rs = Inr m'" "msgs1 = msgs @ [m, m']"
    note facts = this
    assume "st1 = (record_usage (comp_usage c) (st\<lparr>rs_steps := rs_steps st + 1\<rparr>))
      \<lparr>rs_tool_calls := rs_tool_calls (st\<lparr>rs_steps := rs_steps st + 1\<rparr>) + int (length rs)\<rparr>"
    then show thesis
      by (intro that [OF w0(1,2) facts]) (simp_all add: run_usage_def record_usage_def)
  qed
qed

lemma counts_drive_step_Next:
  assumes "drive_step D e i offered msgs st w = (Next msgs1 st1, w')"
  shows "rs_steps st1 = rs_steps st + 1" "model_calls w' = model_calls w + 1"
    "handler_runs w \<le> handler_runs w'"
    "handler_runs w' - handler_runs w \<le> rs_tool_calls st1 - rs_tool_calls st"
  using assms
  by (cases rule: drive_step_NextE; use counts_llm counts_execute_all in fastforce)+


lemma store_ask:
  "alone e \<Longrightarrow> llm_complete C req (await e w) = (res, w') \<Longrightarrow> store w' = store w"
  for w w' :: "('x, 'r) world"
  by (simp add: llm_complete_store store_await_alone)

lemma store_drive_step_Next:
  assumes "drive_step D e i offered msgs st w = (Next msgs1 st1, w')" and "alone e"
  shows "store w' = store w"
  using assms(1)
proof (cases rule: drive_step_NextE)
  case (1 w0 req c w1 m rs m')
  have "store w' = store w1"
    using execute_all_store [OF 1(8)] store_await_alone [OF assms(2)] by simp
  also have "\<dots> = store w0"
    using 1(4) assms(2) by (simp add: store_ask)
  also have "\<dots> = store w"
    using 1(1) assms(2) by (auto simp: store_await_alone)
  finally show ?thesis .
qed


subsection \<open>The way out\<close>

text \<open>
  A round that stops, and the way out of the loop, inside the frame: whatever relation the runner's
  actions keep also links the start to the point where the ending is written.
\<close>

context runner_frame
begin

lemma model_turn_StopE:
  assumes "model_turn D e i offered msgs st w = (Stop out, w')"
  obtains
    (ended) st1 w1 target why ans cp where "run_ending D st1 w1 target why ans cp"
      "finish D e i target st1 why ans cp w1 = (out, w')" "rs_steps st1 = rs_steps st"
      "rs_tool_calls st1 = rs_tool_calls st" "model_calls w1 = model_calls w + 1"
      "handler_runs w1 = handler_runs w" "G w w1" "alone e \<Longrightarrow> store w1 = store w"
  | (raised) x where "out = Inl x" "model_calls w' \<le> model_calls w + 1"
      "handler_runs w \<le> handler_runs w'"
  using assms
proof (cases rule: model_turn_cases)
  case no_request
  then show ?thesis using raised by simp
next
  case (model_failed req le w1 r)
  show ?thesis
    by (rule ended [OF run_ending.model_failed [of D st w1 le]])
       (use model_failed counts_llm [OF model_failed(2)] G_ask [OF model_failed(2)] store_ask [OF _ model_failed(2)] in simp_all)
next
  case escaped
  then show ?thesis using raised counts_llm [OF escaped(2)] by simp
next
  case (answered req c w1 r)
  from conclude_ending [OF answered(4) llm_complete_answer_given [OF answered(2)] answered(3)]
  obtain target why ans where
    "run_ending D (record_usage (comp_usage c) st) w1 target why ans None"
    "finish D e i target (record_usage (comp_usage c) st) why ans None w1 = (out, w')"
    using answered(5) by blast
  then show ?thesis
    by (rule ended) (use answered counts_llm [OF answered(2)] G_ask [OF answered(2)] store_ask [OF _ answered(2)] in auto)
next
  case no_turn
  then show ?thesis using raised counts_llm [OF no_turn(2)] by simp
next
  case (tools req c w1 m)
  note asked = counts_llm [OF tools(2)]
  from tools(5) show ?thesis
  proof (cases rule: tool_turn_cases)
    case (held cp r)
    have m: "msg_tool_calls m = comp_tool_calls c"
      using tools(4) by (simp add: from_completion_def mk_message_eq)
    have "checkpoint_ok cp" "cp = \<lparr>cp_messages = msgs @ [m], cp_steps = rs_steps st,
        cp_tool_calls = rs_tool_calls st, cp_usage = run_usage (record_usage (comp_usage c) st)\<rparr>"
      using mk_run_checkpoint_eq [THEN iffD1, OF held(2)] by auto
    then have "run_ending D (record_usage (comp_usage c) st) w1 AWAITING_APPROVAL
        (approval_reason (filter (needs_approval D) (comp_tool_calls c))) (comp_text c) (Some cp)"
      by (intro run_ending.held [OF llm_complete_answer_given [OF tools(2)] tools(3) held(1)])
         (simp_all add: pending_calls_def m)
    then show ?thesis
      by (rule ended) (use held(3,4) asked G_ask [OF tools(2)] store_ask [OF _ tools(2)] in auto)
  next
    case no_checkpoint
    then show ?thesis using raised asked by simp
  next
    case executed
    then show ?thesis by simp
  next
    case (no_message rs)
    then show ?thesis using raised asked counts_execute_all [OF no_message(2)] by simp
  qed
qed

lemma drive_step_StopE:
  assumes "drive_step D e i offered msgs st w = (Stop out, w')"
  obtains
    (ended) st1 w1 target why ans cp where "run_ending D st1 w1 target why ans cp"
      "finish D e i target st1 why ans cp w1 = (out, w')" "rs_steps st1 = rs_steps st + 1"
      "rs_tool_calls st1 = rs_tool_calls st" "model_calls w1 = model_calls w + 1"
      "handler_runs w1 = handler_runs w" "G w w1" "alone e \<Longrightarrow> store w1 = store w"
  | (taken_over) t where "rs_steps st \<noteq> 0" "repo_get (runner_repo D) i (store (await e w)) = Inr t"
      "status t \<noteq> RUNNING" "discard D e i st (await e w) = (out, w')"
  | (raised) x where "out = Inl x" "model_calls w' \<le> model_calls w + 1"
      "handler_runs w \<le> handler_runs w'"
  using assms
proof (cases rule: drive_step_cases)
  case lookup_failed
  then show ?thesis using raised by simp
next
  case taken_over
  then show ?thesis using that(2) by simp
next
  case still_ours
  from still_ours(4) show ?thesis
  proof (cases rule: model_turn_StopE)
    case (ended st1 w1 target why ans cp)
    show ?thesis
      by (rule that(1) [OF ended(1,2)]) (use ended(3-6,8) G_trans [OF G_await ended(7)] in \<open>simp_all add: store_await_alone\<close>)
  qed (use raised in simp)
next
  case first
  from first(2) show ?thesis
    by (cases rule: model_turn_StopE) (use ended raised in auto)
qed

text \<open>The way out of the loop, with the accounts since it was entered.\<close>

lemma drive_loop_endE:
  assumes "drive_loop D e i offered msgs st w = (out, w')" and "fit msgs"
  obtains
    (ended) st1 w1 target why ans cp where "run_ending D st1 w1 target why ans cp"
      "finish D e i target st1 why ans cp w1 = (out, w')"
      "rs_steps st \<le> rs_steps st1" "rs_steps st1 \<le> max (max_steps D) (rs_steps st)"
      "model_calls w1 - model_calls w = rs_steps st1 - rs_steps st"
      "handler_runs w \<le> handler_runs w1"
      "handler_runs w1 - handler_runs w \<le> rs_tool_calls st1 - rs_tool_calls st" "G w w1"
      "alone e \<Longrightarrow> store w1 = store w"
  | (taken_over) st1 w1 t where "discard D e i st1 (await e w1) = (out, w')"
      "repo_get (runner_repo D) i (store (await e w1)) = Inr t" "status t \<noteq> RUNNING"
      "rs_steps st \<le> rs_steps st1" "rs_steps st1 < max_steps D"
      "model_calls w1 - model_calls w = rs_steps st1 - rs_steps st"
      "handler_runs w \<le> handler_runs w1"
      "handler_runs w1 - handler_runs w \<le> rs_tool_calls st1 - rs_tool_calls st" "G w w1"
      "alone e \<Longrightarrow> store w1 = store w"
  | (raised) x where "out = Inl x"
      "model_calls w' - model_calls w \<le> max (max_steps D) (rs_steps st) - rs_steps st"
      "handler_runs w \<le> handler_runs w'"
  using assms
proof (induction arbitrary: thesis rule: drive_loop_induct)
  case (exhausted msgs st w)
  show ?case
    by (rule exhausted(3) [OF run_ending.exhausted [OF exhausted(1)] exhausted(2)]) (simp_all add: G_refl)
next
  case (stopped msgs st w)
  from stopped(2) show ?case
  proof (cases rule: drive_step_StopE)
    case ended
    show ?thesis
      by (rule stopped(3) [OF ended(1,2)]) (use ended(3-8) stopped(1) in auto)
  next
    case taken_over
    show ?thesis
      by (rule stopped(4) [OF taken_over(4,2,3)]) (use stopped(1) G_refl in auto)
  next
    case raised
    show ?thesis
      by (rule stopped(5) [OF raised(1)]) (use raised(2,3) stopped(1) in auto)
  qed
next
  case (again msgs st w msgs1 st1 w1)
  note c = counts_drive_step_Next [OF again(2)]
  show ?case
  proof (rule again(4))
    fix st2 w2 target why ans cp
    assume "run_ending D st2 w2 target why ans cp" "finish D e i target st2 why ans cp w2 = (out, w')"
      "rs_steps st1 \<le> rs_steps st2" "rs_steps st2 \<le> max (max_steps D) (rs_steps st1)"
      "model_calls w2 - model_calls w1 = rs_steps st2 - rs_steps st1"
      "handler_runs w1 \<le> handler_runs w2"
      "handler_runs w2 - handler_runs w1 \<le> rs_tool_calls st2 - rs_tool_calls st1" "G w1 w2"
      "alone e \<Longrightarrow> store w2 = store w1"
    with c again(1) store_drive_step_Next [OF again(2)] G_trans [OF G_drive_step [OF again(2,8)]] show thesis
      by (intro again(5) [of st2 w2 target why ans cp]) (assumption | simp)+
  next
    fix st2 w2 t
    assume "discard D e i st2 (await e w2) = (out, w')"
      "repo_get (runner_repo D) i (store (await e w2)) = Inr t" "status t \<noteq> RUNNING"
      "rs_steps st1 \<le> rs_steps st2" "rs_steps st2 < max_steps D"
      "model_calls w2 - model_calls w1 = rs_steps st2 - rs_steps st1"
      "handler_runs w1 \<le> handler_runs w2"
      "handler_runs w2 - handler_runs w1 \<le> rs_tool_calls st2 - rs_tool_calls st1" "G w1 w2"
      "alone e \<Longrightarrow> store w2 = store w1"
    with c again(1) store_drive_step_Next [OF again(2)] G_trans [OF G_drive_step [OF again(2,8)]] show thesis
      by (intro again(6) [of st2 w2 t]) (assumption | simp)+
  next
    fix x
    assume "out = Inl x" "model_calls w' - model_calls w1 \<le> max (max_steps D) (rs_steps st1) - rs_steps st1"
      "handler_runs w1 \<le> handler_runs w'"
    with c again(1) show thesis
      by (intro again(7) [of x]) (assumption | simp)+
  next
    show "fit msgs1" by (rule fit_drive_step [OF again(2,8)])
  qed
qed

end

end
