(* ===== verification/Runner_Repository.thy ===== *)
theory Runner_Repository
  imports Runner_Endings
begin

section \<open>The runner on a repository that keeps the contract\<close>

text \<open>
  What the runner guarantees to everybody else who uses the store, what it keeps of the store's
  invariant, and how its result relates to the stored task, for every repository under
  \<open>task_repository\<close> and every environment whose other writers are writers of this program.
\<close>

text \<open>The result against the stored task: the transition it made, or what it found instead.\<close>

definition landed :: "(uuid \<Rightarrow> agent_task option) \<Rightarrow> uuid \<Rightarrow> (agent_task \<Rightarrow> agent_task) \<Rightarrow> run_result \<Rightarrow> bool" where
  "landed m i norm r \<longleftrightarrow>
     m i = Some (norm (rr_task r)) \<and>
     status (rr_task r) \<in> {COMPLETED, FAILED, AWAITING_APPROVAL} \<and>
     history (rr_task r) \<noteq> [] \<and>
     from_status (last (history (rr_task r))) = RUNNING \<and>
     to_status (last (history (rr_task r))) = status (rr_task r) \<and>
     reason (last (history (rr_task r))) = Some (rr_detail r) \<and>
     rr_pending_calls r = task_pending_calls (rr_task r)"

definition given_up :: "(uuid \<Rightarrow> agent_task option) \<Rightarrow> uuid \<Rightarrow> run_result \<Rightarrow> bool" where
  "given_up m i r \<longleftrightarrow>
     m i = Some (rr_task r) \<and> rr_output r = [] \<and> rr_pending_calls r = [] \<and>
     rr_detail r = ''run stopped: task is '' @ quoted (status_value (status (rr_task r)))"

lemma given_upI:
  assumes "m i = Some (rr_task r)" and "r = discarded st (rr_task r)"
  shows "given_up m i r"
proof -
  have "rr_output r = []" "rr_pending_calls r = []"
    "rr_detail r = ''run stopped: task is '' @ quoted (status_value (status (rr_task r)))"
    using assms(2) by (metis discarded_sel)+
  with assms(1) show ?thesis by (simp add: given_up_def)
qed

lemma finished_landed:
  assumes tr: "transition_to t target (Some why) cp at = Inr t'" and m: "m i = Some (norm t')"
    and ending: "run_ending D st w target why ans cp"
  shows "landed m i norm (finished st why ans cp t') \<and> status t' = target \<and> checkpoint t' = cp"
proof -
  have t': "target \<in> set (ALLOWED_TRANSITIONS (status t))" "status t' = target" "checkpoint t' = cp"
      "history t' = history t @ [\<lparr>from_status = status t, to_status = target,
        at_time = at, reason = Some why\<rparr>]"
    using tr by (simp_all add: transition_to_eq)
  have "status t = RUNNING"
    using t'(1) run_ending_target [OF ending] by (cases "status t") auto
  then show ?thesis
    using t' m run_ending_target [OF ending] by (simp add: landed_def task_pending_calls_def)
qed

text \<open>A runner whose collaborators keep their documented contracts.\<close>

definition runner_ok :: "('x, 'r) agent_runner \<Rightarrow> bool" where
  "runner_ok D \<longleftrightarrow>
     provider_ok (client_provider (runner_llm D)) \<and>
     raises_only_llm_errors (client_provider (runner_llm D)) \<and>
     registry_ok (runner_tools D) \<and> 1 \<le> max_steps D \<and> 1 \<le> max_tokens D"

context task_repository
begin

definition guaranteed ::
  "('x, 'r) agent_runner \<Rightarrow> 'r env \<Rightarrow> ('x, 'r) world \<Rightarrow> ('x, 'r) world \<Rightarrow> bool" where
  "guaranteed D e w w' \<longleftrightarrow>
     (runner_repo D = R \<and> fair_env lookup invar e \<and> invar (store w) \<longrightarrow>
      invar (store w') \<and> repo_evolves lookup (store w) (store w'))"

definition keeps_ok ::
  "('x, 'r) agent_runner \<Rightarrow> 'r env \<Rightarrow> ('x, 'r) world \<Rightarrow> ('x, 'r) world \<Rightarrow> bool" where
  "keeps_ok D e w w' \<longleftrightarrow>
     (runner_repo D = R \<and> fair_env lookup invar e \<and> state_ok w \<longrightarrow> state_ok w')"

lemma guaranteedD:
  assumes "guaranteed D e w w'" "runner_repo D = R" "fair_env lookup invar e" "invar (store w)"
  shows "invar (store w')" "repo_evolves lookup (store w) (store w')"
  using assms by (simp_all add: guaranteed_def)

end

text \<open>
  The two frames of a repository under the contract: every method of the runner is a fair writer,
  and it keeps the invariant of the stored tasks, of their paused conversations too.
\<close>

sublocale task_repository \<subseteq> guarantee: runner_frame D e "\<lambda>_. True" "guaranteed D e"
  for D :: "('x, 'r) agent_runner" and e
proof (unfold_locales, goal_cases)
  case (3 w)
  show ?case by (simp add: guaranteed_def)
next
  case (4 w1 w2 w3)
  then show ?case
    by (auto simp: guaranteed_def elim: repo_evolves_trans)
next
  case (5 w)
  show ?case
    by (simp add: guaranteed_def await_ok)
next
  case (6 req w res w')
  from llm_complete_store [OF 6] show ?case
    by (simp add: guaranteed_def)
next
  case (7 calls prio w rs w')
  from execute_all_store [OF 7(2)] show ?case
    by (simp add: guaranteed_def)
next
  case (8 cp i target why expected w out w')
  then show ?case
    unfolding guaranteed_def using transition_task_guarantee by blast
qed simp_all

sublocale task_repository \<subseteq> tasks_ok: runner_frame D e dialogue_ok "keeps_ok D e"
  for D :: "('x, 'r) agent_runner" and e
proof (unfold_locales, goal_cases)
  case (1 g m)
  then have "conversation_ok [m]" "msg_tool_results m = []"
    by (auto simp: mk_message_eq conversation_ok_def)
  then show ?case by (rule dialogue_ok_single)
next
  case (2 msgs c m rs m')
  then show ?case by (rule dialogue_ok_round)
next
  case (3 w)
  show ?case by (simp add: keeps_ok_def)
next
  case (4 w1 w2 w3)
  then show ?case by (simp add: keeps_ok_def)
next
  case (5 w)
  show ?case
    by (simp add: keeps_ok_def state_ok_def await_ok)
next
  case (6 req w res w')
  from llm_complete_store [OF 6] show ?case
    by (simp add: keeps_ok_def state_ok_def)
next
  case (7 calls prio w rs w')
  from execute_all_store [OF 7(2)] show ?case
    by (simp add: keeps_ok_def state_ok_def)
next
  case (8 cp i target why expected w out w')
  have "paused_ok c" if "cp = Some c" for c
    using 8(1) [OF that] dialogue_ok_asks by (auto simp: paused_ok_def)
  then show ?case
    unfolding keeps_ok_def using transition_task_keeps_ok 8(2) by blast
qed

context task_repository
begin

subsection \<open>Results\<close>

lemma discard_outcome:
  assumes "runner_repo D = R" "fair_env lookup invar e" "invar (store w)"
    and "discard D e i st w = (Inr r, w')"
  shows "lookup (store w') i = Some (rr_task r) \<and> r = discarded st (rr_task r)"
proof -
  obtain t where t: "repo_get R i (store (await e w)) = Inr t" "r = discarded st t" "w' = await e w"
    using assms(1,4) by (cases "repo_get R i (store (await e w))") (auto simp: discard_eq)
  then have "lookup (store w') i = Some t"
    using get_Inr [OF await_ok(1) [OF assms(2,3)]] by blast
  with t(2) show ?thesis by simp
qed

lemma finish_outcome:
  assumes D: "runner_repo D = R" and fair: "fair_env lookup invar e" and inv: "invar (store w)"
    and fin: "finish D e i target st why ans cp w = (Inr r, w')"
  obtains
    (landed) t where "transition_to t target (Some why) cp (now e (await e w)) = Inr (rr_task r)"
      "lookup (store w') i = Some (stored (rr_task r))" "r = finished st why ans cp (rr_task r)"
      "invar (store w')"
  | (lost) "lookup (store w') i = Some (rr_task r)" "r = discarded st (rr_task r)"
  using fin
proof (cases rule: finish_cases)
  case (landed t)
  then have "transition_task R e i target (Some why) cp None w = (Inr t, w')" using D by simp
  from transition_task_Inr [OF fair inv this] obtain t0 where
    "transition_to t0 target (Some why) cp (now e (await e w)) = Inr t" "invar (store w')"
    "lookup (store w') i = Some (stored t)"
    by (auto simp: fun_upd_def)
  with landed(2) show ?thesis by (intro that(1)) simp_all
next
  case (lost x w1)
  have "invar (store w1)"
    using transition_task_guarantee [OF fair inv] lost(1) D by blast
  from discard_outcome [OF D fair this lost(3)] show ?thesis
    by (intro that(2)) simp_all
next
  case raised
  then show ?thesis by simp
qed

lemma finish_ending:
  assumes D: "runner_repo D = R" and fair: "fair_env lookup invar e" and inv: "invar (store w)"
    and ending: "run_ending D st w0 target why ans cp"
    and fin: "finish D e i target st why ans cp w = (Inr r, w')"
  shows "(landed (lookup (store w')) i stored r \<and> status (rr_task r) = target \<and>
      checkpoint (rr_task r) = cp \<and> r = finished st why ans cp (rr_task r)) \<or>
    (given_up (lookup (store w')) i r \<and> r = discarded st (rr_task r))"
  using D fair inv fin
proof (cases rule: finish_outcome)
  case (landed t)
  from finished_landed [OF landed(1) _ ending, of "lookup (store w')" i stored] landed(2,3)
  show ?thesis by simp
next
  case lost
  with given_upI show ?thesis by blast
qed

end

end
