(* ===== verification/Runner_Results.thy ===== *)
theory Runner_Results
  imports Runner_Repository
begin

section \<open>Every run returns, and what it returns\<close>

text \<open>
  With collaborators that keep their contracts the loop never raises: \<open>drive_loop_returns\<close>. The
  result of a run or a resumption is then one of the endings of \<open>run_ending\<close>, recorded on the
  task, or the loop gave up because somebody else had taken the task over.
\<close>

definition result_state :: "run_result \<Rightarrow> run_state" where
  "result_state r =
     \<lparr>rs_steps = rr_steps r, rs_tool_calls = rr_tool_calls r,
      rs_input_tokens = input_tokens (rr_usage r), rs_output_tokens = output_tokens (rr_usage r)\<rparr>"

lemma result_state_built [simp]:
  "result_state (finished st why out cp t) = st" "result_state (discarded st t) = st"
  by (simp_all add: result_state_def run_usage_def)

lemma result_state_sel [simp]:
  "rs_steps (result_state r) = rr_steps r" "rs_tool_calls (result_state r) = rr_tool_calls r"
  by (simp_all add: result_state_def)

lemma finish_outside:
  assumes "finish D e i target st why ans cp w = (out, w')"
  shows "ext_state w' = ext_state w" "event_trace w' = event_trace w"
proof -
  have "ext_state w' = ext_state w \<and> event_trace w' = event_trace w"
    using assms
  proof (cases rule: finish_cases)
    case landed
    then show ?thesis using transition_task_outside [OF landed(1)] by blast
  next
    case lost
    then show ?thesis using transition_task_outside [OF lost(1)] by (auto simp: discard_eq)
  next
    case raised
    then show ?thesis using transition_task_outside [OF raised(1)] by blast
  qed
  then show "ext_state w' = ext_state w" "event_trace w' = event_trace w" by simp_all
qed

lemma run_ending_same_outside:
  assumes "run_ending D st w target why ans cp"
    and "ext_state w' = ext_state w" "event_trace w' = event_trace w"
  shows "run_ending D st w' target why ans cp"
proof -
  have same: "answer_given D c w' = answer_given D c w" for c
    by (simp add: answer_given_def assms(2,3))
  show ?thesis
    using assms(1)
  proof induction
    case answered
    then show ?case by (intro run_ending.answered) (simp_all add: same)
  next
    case truncated
    then show ?case by (intro run_ending.truncated) (simp_all add: same)
  next
    case refused
    then show ?case by (intro run_ending.refused) (simp_all add: same)
  next
    case model_failed
    show ?case by (rule run_ending.model_failed)
  next
    case exhausted
    then show ?case by (rule run_ending.exhausted)
  next
    case held
    then show ?case by (intro run_ending.held) (simp_all add: same)
  qed
qed

lemma discard_state: "discard D e i st w = (Inr r, w') \<Longrightarrow> result_state r = st"
  by (cases "repo_get (runner_repo D) i (store (await e w))") (auto simp: discard_eq)

lemma finish_state: "finish D e i target st why ans cp w = (Inr r, w') \<Longrightarrow> result_state r = st"
  by (erule finish_cases) (auto dest: discard_state)


subsection \<open>The methods opened up\<close>

lemma opening_message:
  "\<exists>m. mk_message USER (opening_text g) [] [] = Inr m \<and> conversation_ok [m]"
  by (auto simp: mk_message_def opening_text_def conversation_ok_def message_ok_def)

lemma drive_cases:
  assumes "drive D e i msgs st w = (out, w')"
  obtains (no_specs) x where "specs (runner_tools D) = Inl x" "out = Inl x" "w' = w"
  | (loop) offered where "specs (runner_tools D) = Inr offered"
      "drive_loop D e i offered msgs st w = (out, w')"
  using assms by (auto simp: drive_def split: sum.splits)

lemma run_cases:
  assumes "run D e i w = (out, w')"
  obtains
    (refused) x where "out = Inl x"
      "transition_task (runner_repo D) e i RUNNING (Some ''agent run started'') None None w = (Inl x, w')"
  | (started) t w1 m where
      "transition_task (runner_repo D) e i RUNNING (Some ''agent run started'') None None w = (Inr t, w1)"
      "mk_message USER (opening_text (goal t)) [] [] = Inr m" "conversation_ok [m]"
      "drive D e (task_id t) [m] new_run_state w1 = (out, w')"
proof -
  obtain res w1 where tr: "transition_task (runner_repo D) e i RUNNING (Some ''agent run started'')
      None None w = (res, w1)"
    by (metis surj_pair)
  show thesis
  proof (cases res)
    case (Inl x)
    show thesis
      by (rule refused [of x]) (use assms tr Inl in \<open>simp_all add: run_def\<close>)
  next
    case (Inr t)
    obtain m where m: "mk_message USER (opening_text (goal t)) [] [] = Inr m" "conversation_ok [m]"
      using opening_message by blast
    have "drive D e (task_id t) [m] new_run_state w1 = (out, w')"
      using assms tr Inr m(1) by (simp add: run_def)
    with started tr Inr m show thesis by blast
  qed
qed

lemma new_run_state_sel [simp]:
  "rs_steps new_run_state = 0" "rs_tool_calls new_run_state = 0"
  by (simp_all add: new_run_state_def)

text \<open>A pause and a resumption keep the counters: the checkpoint is the run state.\<close>

lemma resuming_checkpoint:
  "mk_run_checkpoint msgs (rs_steps st) (rs_tool_calls st) (run_usage st) = Inr cp \<Longrightarrow>
   resuming cp = st \<and> cp_messages cp = msgs"
  by (simp add: mk_run_checkpoint_eq resuming_def run_usage_def)

text \<open>The account of a drive that returned, whatever the collaborators did.\<close>

lemma drive_cost:
  assumes "drive D e i msgs st w = (Inr r, w')"
  shows "model_calls w' - model_calls w = rr_steps r - rs_steps st"
    "rs_steps st \<le> rr_steps r" "rr_steps r \<le> max (max_steps D) (rs_steps st)"
    "handler_runs w' - handler_runs w \<le> rr_tool_calls r - rs_tool_calls st"
proof -
  obtain offered where loop: "drive_loop D e i offered msgs st w = (Inr r, w')"
    using assms by (cases rule: drive_cases) auto
  have "model_calls w' - model_calls w = rr_steps r - rs_steps st \<and>
    rs_steps st \<le> rr_steps r \<and> rr_steps r \<le> max (max_steps D) (rs_steps st) \<and>
    handler_runs w' - handler_runs w \<le> rr_tool_calls r - rs_tool_calls st"
    using loop
  proof (cases rule: trace.drive_loop_endE [OF _ TrueI, consumes 1, case_names ended taken_over raised])
    case (ended st1 w1 target why ans cp)
    have "rr_steps r = rs_steps st1 \<and> rr_tool_calls r = rs_tool_calls st1"
      using finish_state [OF ended(2)] by (metis result_state_sel)
    then show ?thesis using ended(3-7) counts_finish [OF ended(2)] by simp
  next
    case (taken_over st1 w1 t)
    have "rr_steps r = rs_steps st1 \<and> rr_tool_calls r = rs_tool_calls st1"
      using discard_state [OF taken_over(1)] by (metis result_state_sel)
    then show ?thesis using taken_over(4-8) counts_discard [OF taken_over(1)] by simp
  qed simp
  then show "model_calls w' - model_calls w = rr_steps r - rs_steps st"
    "rs_steps st \<le> rr_steps r" "rr_steps r \<le> max (max_steps D) (rs_steps st)"
    "handler_runs w' - handler_runs w \<le> rr_tool_calls r - rs_tool_calls st"
    by blast+
qed

text \<open>Also a drive that raised stayed within the budget.\<close>

lemma drive_budget:
  assumes "drive D e i msgs st w = (out, w')"
  shows "model_calls w' - model_calls w \<le> max (max_steps D) (rs_steps st) - rs_steps st"
  using assms
proof (cases rule: drive_cases)
  case no_specs
  then show ?thesis by simp
next
  case (loop offered)
  from loop(2) show ?thesis
  proof (cases rule: trace.drive_loop_endE [OF _ TrueI, consumes 1, case_names ended taken_over raised])
    case ended
    then show ?thesis using counts_finish [OF ended(2)] by simp
  next
    case taken_over
    then show ?thesis using counts_discard [OF taken_over(1)] by simp
  next
    case raised
    then show ?thesis by simp
  qed
qed


subsection \<open>The loop returns\<close>

context task_repository
begin

lemma present_persists:
  "repo_evolves lookup r r' \<Longrightarrow> lookup r i \<noteq> None \<Longrightarrow> lookup r' i \<noteq> None"
  by (auto dest: repo_evolvesD)

lemma present_await:
  "fair_env lookup invar e \<Longrightarrow> invar (store w) \<Longrightarrow> lookup (store w) i \<noteq> None \<Longrightarrow>
   lookup (store (await e w)) i \<noteq> None"
  using await_ok(2) present_persists by blast

lemma discard_returns:
  assumes "runner_repo D = R" "fair_env lookup invar e" "invar (store w)" "lookup (store w) i \<noteq> None"
    and "discard D e i st w = (out, w')"
  shows "\<exists>r. out = Inr r"
  using assms(1,5) present_await [OF assms(2-4)] await_ok(1) [OF assms(2,3)]
  by (auto simp: discard_eq get_law)

lemma finish_returns:
  assumes D: "runner_repo D = R" and fair: "fair_env lookup invar e" and inv: "invar (store w)"
    and present: "lookup (store w) i \<noteq> None" and storable: "\<And>t. storable t"
    and cp: "cp = None \<or> target = AWAITING_APPROVAL"
    and fin: "finish D e i target st why ans cp w = (out, w')"
  shows "\<exists>r. out = Inr r"
  using fin
proof (cases rule: finish_cases)
  case landed
  then show ?thesis by blast
next
  case (lost x w1)
  have "transition_task R e i target (Some why) cp None w = (Inl x, w1)"
    using lost(1) D by simp
  note g = transition_task_guarantee [OF fair inv this]
  have "lookup (store w1) i \<noteq> None"
    using g present_persists [OF _ present] by blast
  with g show ?thesis
    using discard_returns [OF D fair _ _ lost(3)] by blast
next
  case (raised x)
  have "transition_task R e i target (Some why) cp None w = (Inl x, w')"
    using raised(1) D by simp
  from transition_task_errors [OF fair inv this cp storable] present raised(2) show ?thesis
    by (auto simp: is_conflict_def)
qed

text \<open>What the loop needs of the conversation and the counters, and keeps.\<close>

definition loop_ready :: "uuid \<Rightarrow> message list \<Rightarrow> run_state \<Rightarrow> ('x, 'r) world \<Rightarrow> bool" where
  "loop_ready i msgs st w \<longleftrightarrow>
     invar (store w) \<and> lookup (store w) i \<noteq> None \<and> conversation_ok msgs \<and>
     0 \<le> rs_steps st \<and> 0 \<le> rs_tool_calls st"

lemma loop_ready_await:
  "fair_env lookup invar e \<Longrightarrow> loop_ready i msgs st w \<Longrightarrow> loop_ready i msgs st (await e w)"
  by (simp add: loop_ready_def await_ok present_await)

lemma loop_ready_same_store:
  "store w' = store w \<Longrightarrow> loop_ready i msgs st w' = loop_ready i msgs st w"
  for w' :: "('x, 'r) world" and w :: "('x, 'r) world"
  by (simp add: loop_ready_def)

lemma tool_turn_returns:
  assumes D: "runner_repo D = R" and fair: "fair_env lookup invar e" and storable: "\<And>t. storable t"
    and ready: "loop_ready i (msgs @ [m]) st w" and steps: "1 \<le> rs_steps st"
    and c: "completion_ok c" "comp_stop_reason c = TOOL_USE" and m: "from_completion c = Inr m"
    and step: "tool_turn D e i (msgs @ [m]) c st w = (out, w')"
  shows "case out of Stop res \<Rightarrow> (\<exists>r. res = Inr r) | Next msgs1 st1 \<Rightarrow> loop_ready i msgs1 st1 w'"
  using step
proof (cases rule: tool_turn_cases)
  case (held cp r)
  then show ?thesis
    using finish_returns [OF D fair _ _ storable _ held(3)] ready by (auto simp: loop_ready_def)
next
  case (no_checkpoint x)
  have "msg_role m = ASSISTANT" "msg_tool_calls m \<noteq> []"
    using from_completion_ok [OF c] m c by (auto simp: completion_ok_def)
  with no_checkpoint(2) steps ready show ?thesis
    by (simp add: mk_run_checkpoint_def loop_ready_def Let_def)
next
  case (executed rs m')
  have rs: "rs \<noteq> []"
    using execute_all_length [OF executed(2)] c by (auto simp: completion_ok_def)
  have "loop_ready i (msgs @ [m]) st w'"
    using loop_ready_await [OF fair ready] loop_ready_same_store [OF execute_all_store [OF executed(2)]]
    by blast
  moreover have "message_ok m'"
    using with_tool_results_ok [OF rs] executed(3) by auto
  ultimately show ?thesis
    using executed(4) conversation_ok_append [of "msgs @ [m]" "[m']"] by (simp add: loop_ready_def)
next
  case (no_message rs x)
  have "rs \<noteq> []"
    using execute_all_length [OF no_message(2)] c by (auto simp: completion_ok_def)
  then show ?thesis
    using with_tool_results_ok [of rs] no_message(3) by auto
qed

lemma model_turn_returns:
  assumes D: "runner_repo D = R" "runner_ok D" "specs (runner_tools D) = Inr offered"
    and fair: "fair_env lookup invar e" and storable: "\<And>t. storable t"
    and ready: "loop_ready i msgs st w" and steps: "1 \<le> rs_steps st"
    and step: "model_turn D e i offered msgs st w = (out, w')"
  shows "case out of Stop res \<Rightarrow> (\<exists>r. res = Inr r) | Next msgs1 st1 \<Rightarrow> loop_ready i msgs1 st1 w'"
proof -
  have P: "provider_ok (client_provider (runner_llm D))"
      "raises_only_llm_errors (client_provider (runner_llm D))" "1 \<le> max_tokens D"
      "distinct (map spec_name offered)"
    using D(2,3) specs_ok [of "runner_tools D"] by (auto simp: runner_ok_def)
  have asked: "loop_ready i msgs st w1" if "llm_complete (runner_llm D) req (await e w) = (res, w1)"
    for req res w1
    using loop_ready_await [OF fair ready] loop_ready_same_store [OF llm_complete_store [OF that]]
    by blast
  show ?thesis
    using step
  proof (cases rule: model_turn_cases)
    case no_request
    then show ?thesis
      using mk_completion_request_ok P(3,4) ready by (simp add: loop_ready_def)
  next
    case (model_failed req le w1 r)
    then show ?thesis
      using finish_returns [OF D(1) fair _ _ storable _ model_failed(3)] asked [OF model_failed(2)]
      by (auto simp: loop_ready_def)
  next
    case escaped
    then show ?thesis using llm_complete_llm_error [OF escaped(2) P(2)] by blast
  next
    case (answered req c w1 r)
    obtain target why ans where
      "finish D e i target (record_usage (comp_usage c) st) why ans None w1 = (r, w')"
      using conclude_cases [OF answered(4)] by blast
    from finish_returns [OF D(1) fair _ _ storable _ this] asked [OF answered(2)] answered(5)
    show ?thesis by (auto simp: loop_ready_def)
  next
    case (no_turn req c x)
    then show ?thesis
      using from_completion_ok [OF llm_complete_ok [OF no_turn(2) P(1)] no_turn(3)] by auto
  next
    case (tools req c w1 m)
    note c = llm_complete_ok [OF tools(2) P(1)]
    have "message_ok m" using from_completion_ok [OF c tools(3)] tools(4) by auto
    then have "loop_ready i (msgs @ [m]) (record_usage (comp_usage c) st) w1"
      using asked [OF tools(2)] conversation_ok_append [of msgs "[m]"] by (simp add: loop_ready_def)
    from tool_turn_returns [OF D(1) fair storable this _ c tools(3,4,5)] steps show ?thesis by simp
  qed
qed

lemma drive_step_returns:
  assumes D: "runner_repo D = R" "runner_ok D" "specs (runner_tools D) = Inr offered"
    and fair: "fair_env lookup invar e" and storable: "\<And>t. storable t"
    and ready: "loop_ready i msgs st w"
    and step: "drive_step D e i offered msgs st w = (out, w')"
  shows "case out of Stop res \<Rightarrow> (\<exists>r. res = Inr r) | Next msgs1 st1 \<Rightarrow> loop_ready i msgs1 st1 w'"
proof -
  note aw = loop_ready_await [OF fair ready]
  have up: "loop_ready i msgs (st\<lparr>rs_steps := rs_steps st + 1\<rparr>) v" "1 \<le> rs_steps st + 1"
    if "loop_ready i msgs st v" for v :: "('a, 'r) world"
    using that by (simp_all add: loop_ready_def)
  show ?thesis
    using step
  proof (cases rule: drive_step_cases)
    case lookup_failed
    then show ?thesis using aw D(1) by (auto simp: loop_ready_def get_law)
  next
    case taken_over
    then show ?thesis
      using discard_returns [OF D(1) fair _ _ taken_over(4)] aw by (auto simp: loop_ready_def)
  next
    case still_ours
    from model_turn_returns [OF D fair storable up(1) [OF aw] _ still_ours(4)] up(2) [OF ready]
    show ?thesis by simp
  next
    case first
    from model_turn_returns [OF D fair storable up(1) [OF ready] _ first(2)] up(2) [OF ready]
    show ?thesis by simp
  qed
qed

lemma drive_loop_returns:
  assumes "runner_repo D = R" "runner_ok D" "specs (runner_tools D) = Inr offered"
    and "fair_env lookup invar e" and "\<And>t. storable t"
    and "loop_ready i msgs st w" and "drive_loop D e i offered msgs st w = (out, w')"
  shows "\<exists>r. out = Inr r"
  using assms(7,6)
proof (induction rule: drive_loop_induct)
  case (exhausted msgs st w)
  then show ?case
    using finish_returns [OF assms(1,4) _ _ assms(5) _ exhausted(2)] by (auto simp: loop_ready_def)
next
  case (stopped msgs st w)
  from drive_step_returns [OF assms(1-5) stopped(3,2)] show ?case by simp
next
  case (again msgs st w msgs1 st1 w1)
  from drive_step_returns [OF assms(1-5) again(5,2)] again(4) show ?case by simp
qed

end

end
