(* ===== verification/Runner_Correct.thy ===== *)
theory Runner_Correct
  imports Runner_Results
begin

section \<open>Runs, resumptions and rejections under the repository contract\<close>

text \<open>
  The runner's public methods: what a result means against the stored task, which errors leave
  \<open>run\<close>, \<open>resume\<close> and \<open>reject\<close>, what a resumption released and on whose word, and the exact
  outcome when nobody else writes.
\<close>

text \<open>A result is an ending recorded on the task, or the run gave the task up.\<close>

definition reported ::
  "('x, 'r) agent_runner \<Rightarrow> (uuid \<Rightarrow> agent_task option) \<Rightarrow> uuid \<Rightarrow> (agent_task \<Rightarrow> agent_task)
   \<Rightarrow> run_result \<Rightarrow> ('x, 'r) world \<Rightarrow> bool" where
  "reported D m i norm r w \<longleftrightarrow>
     landed m i norm r \<and>
     run_ending D (result_state r) w (status (rr_task r)) (rr_detail r) (rr_output r) (checkpoint (rr_task r))"

context task_repository
begin

lemma ending_reported:
  assumes D: "runner_repo D = R" and fair: "fair_env lookup invar e" and inv: "invar (store w)"
    and ending: "run_ending D st w target why ans cp"
    and fin: "finish D e i target st why ans cp w = (Inr r, w')"
  shows "reported D (lookup (store w')) i stored r w' \<or> given_up (lookup (store w')) i r"
  using finish_ending [OF D fair inv ending fin]
proof
  assume l: "landed (lookup (store w')) i stored r \<and> status (rr_task r) = target \<and>
    checkpoint (rr_task r) = cp \<and> r = finished st why ans cp (rr_task r)"
  then have "rr_detail r = why" "rr_output r = ans" "result_state r = st"
    by (metis finished_sel result_state_built)+
  with l run_ending_same_outside [OF ending finish_outside [OF fin]] show ?thesis
    by (simp add: reported_def)
qed simp

lemma drive_result:
  assumes D: "runner_repo D = R" and fair: "fair_env lookup invar e" and inv: "invar (store w)"
    and drive: "drive D e i msgs st w = (Inr r, w')"
  shows "reported D (lookup (store w')) i stored r w' \<or> given_up (lookup (store w')) i r"
proof -
  obtain offered where "drive_loop D e i offered msgs st w = (Inr r, w')"
    using drive by (cases rule: drive_cases) auto
  then show ?thesis
  proof (cases rule: guarantee.drive_loop_endE [OF _ TrueI, consumes 1, case_names ended taken_over raised])
    case (ended st1 w1 target why ans cp)
    have "invar (store w1)" using guaranteedD(1) [OF ended(8) D fair inv] .
    from ending_reported [OF D fair this ended(1,2)] show ?thesis .
  next
    case (taken_over st1 w1 t)
    have "invar (store w1)" using guaranteedD(1) [OF taken_over(9) D fair inv] .
    note a = await_ok [OF fair this]
    from discard_outcome [OF D fair a(1) taken_over(1)] show ?thesis
      using given_upI by blast
  next
    case raised
    then show ?thesis by simp
  qed
qed

lemma started_task:
  assumes D: "runner_repo D = R" and fair: "fair_env lookup invar e" and inv: "invar (store w)"
    and tr: "transition_task (runner_repo D) e i RUNNING why None expected w = (Inr t, w1)"
  shows "task_id t = i \<and> invar (store w1) \<and> lookup (store w1) i = Some (stored t) \<and> status t = RUNNING"
proof -
  from transition_task_Inr [OF fair inv tr [unfolded D]] obtain t0 r where
    "invar r" "lookup r i = Some t0" "transition_to t0 RUNNING why None (now e (await e w)) = Inr t"
    "invar (store w1)" "lookup (store w1) = (lookup r)(i \<mapsto> stored t)"
    by blast
  with lookup_id [of r i t0] show ?thesis by (simp add: transition_to_eq)
qed

lemma run_result:
  assumes D: "runner_repo D = R" and fair: "fair_env lookup invar e" and inv: "invar (store w)"
    and run: "run D e i w = (Inr r, w')"
  shows "reported D (lookup (store w')) i stored r w' \<or> given_up (lookup (store w')) i r"
  using run
proof (cases rule: run_cases)
  case (started t w1 m)
  note s = started_task [OF D fair inv started(1)]
  with drive_result [OF D fair _ started(4)] show ?thesis by simp
qed simp

text \<open>What leaves \<open>run\<close> as an exception is a lifecycle error, raised before anything was asked of the outside.\<close>

lemma drive_returns:
  assumes "runner_repo D = R" "runner_ok D" "fair_env lookup invar e" "\<And>t. storable t"
    and "loop_ready i msgs st w" and "drive D e i msgs st w = (out, w')"
  shows "\<exists>r. out = Inr r"
  using assms(6)
proof (cases rule: drive_cases)
  case no_specs
  then show ?thesis using specs_ok [of "runner_tools D"] assms(2) by (auto simp: runner_ok_def)
next
  case (loop offered)
  from drive_loop_returns [OF assms(1,2) loop(1) assms(3-5) loop(2)] show ?thesis .
qed

lemma run_errors:
  assumes D: "runner_repo D = R" "runner_ok D" and fair: "fair_env lookup invar e"
    and inv: "invar (store w)" and storable: "\<And>t. storable t"
    and run: "run D e i w = (Inl x, w')"
  shows "event_trace w' = event_trace w \<and>
    ((x = TaskNotFoundError i \<and> lookup (store w) i = None \<and> lookup (store (await e w)) i = None) \<or>
     (\<exists>s. x = InvalidTransitionError s RUNNING \<and> s \<notin> {PENDING, AWAITING_APPROVAL}) \<or>
     (\<exists>v c. x = ConcurrentUpdateError i v c))"
  using run
proof (cases rule: run_cases)
  case (refused y)
  have "transition_task R e i RUNNING (Some ''agent run started'') None None w = (Inl x, w')"
    using refused D(1) by simp
  from transition_task_errors [OF fair inv this _ storable] transition_task_outside(2) [OF this]
  show ?thesis by (auto simp: ALLOWED_TRANSITIONS.simps)
next
  case (started t w1 m)
  note s = started_task [OF D(1) fair inv started(1)]
  then have "loop_ready i [m] new_run_state w1"
    using started(3) by (simp add: loop_ready_def)
  moreover have "drive D e i [m] new_run_state w1 = (Inl x, w')"
    using started(4) s by simp
  ultimately show ?thesis
    using drive_returns [OF D fair storable] by blast
qed


text \<open>The task is reported missing exactly when it is when \<open>run\<close> reads it.\<close>

lemma run_missing:
  assumes "runner_repo D = R" "fair_env lookup invar e" "invar (store w)"
    and "lookup (store (await e w)) i = None"
  shows "run D e i w = (Inl (TaskNotFoundError i), await e w)"
  using assms get_law [OF await_ok(1) [OF assms(2,3)], of i] by (simp add: run_def transition_task_eq)


subsection \<open>Resumptions\<close>

lemma require_paused_Inr:
  assumes "runner_repo D = R" "fair_env lookup invar e" "invar (store w)"
    and "require_paused D e i w = (Inr t, w1)"
  shows "w1 = await e w" "lookup (store w1) i = Some t" "status t = AWAITING_APPROVAL"
  using assms get_Inr [OF await_ok(1) [OF assms(2,3)]]
  by (auto simp: require_paused_eq split: sum.splits if_splits)

lemma require_paused_Inl:
  assumes "runner_repo D = R" "fair_env lookup invar e" "invar (store w)"
    and "require_paused D e i w = (Inl x, w1)"
  shows "(x = TaskNotFoundError i \<and> lookup (store w) i = None) \<or>
    (\<exists>s. x = InvalidTransitionError s RUNNING \<and> s \<noteq> AWAITING_APPROVAL)"
proof (cases "lookup (store (await e w)) i")
  case None
  then have "lookup (store w) i = None"
    using present_await [OF assms(2,3), of i] by blast
  with None assms(1,4) get_law [OF await_ok(1) [OF assms(2,3)], of i] show ?thesis
    by (auto simp: require_paused_eq)
next
  case (Some t)
  with assms(1,4) get_law [OF await_ok(1) [OF assms(2,3)], of i] show ?thesis
    by (auto simp: require_paused_eq split: if_splits)
qed

text \<open>
  A resumption that ran anything: there was a moment at which the stored task was the paused one,
  it was that very version which became \<open>RUNNING\<close> with the approver's name in its history, and
  what ran was the pending calls of its checkpoint, each at most once, and then only turns that
  need no approval.
\<close>

lemma transition_from_version:
  assumes D: "runner_repo D = R" and fair: "fair_env lookup invar e" and inv: "invar (store w)"
    and lk: "lookup (store w) i = Some p"
    and tr: "transition_task (runner_repo D) e i target why None (Some (version p)) w = (Inr t, w')"
  shows "transition_to p target why None (now e (await e w)) = Inr t \<and>
    invar (store w') \<and> lookup (store w') i = Some (stored t)"
proof -
  from transition_task_Inr [OF fair inv tr [unfolded D]] obtain t0 r where
    t0: "repo_evolves lookup (store w) r" "lookup r i = Some t0"
      "\<not> version_moved (Some (version p)) t0"
      "transition_to t0 target why None (now e (await e w)) = Inr t"
      "invar (store w')" "lookup (store w') = (lookup r)(i \<mapsto> stored t)"
    by blast
  have "evolves p t0" "version t0 = version p"
    using repo_evolvesD [OF t0(1) lk] t0(2,3) by (auto simp: version_moved_def)
  then have "t0 = p" by (rule evolves_same_version)
  with t0 show ?thesis by simp
qed

lemma resume_release:
  assumes D: "runner_repo D = R" and fair: "fair_env lookup invar e" and inv: "invar (store w)"
    and run: "resume D e i who note w = (out, w')"
  obtains (refused) x where "out = Inl x" "event_trace w' = event_trace w"
  | (released) paused cp t r2 js evs where
      "lookup (store (await e w)) i = Some paused" "status paused = AWAITING_APPROVAL"
      "checkpoint paused = Some cp" "lookup r2 i = Some (stored t)"
      "repo_evolves lookup (store w) r2" "repo_evolves lookup r2 (store w')"
      "\<exists>at. transition_to paused RUNNING (Some (with_note (''approved by '' @ who) note)) None at = Inr t"
      "event_trace w' = event_trace w @ map (\<lambda>j. HandlerRun (pending_calls cp ! j)) js @ evs"
      "distinct js" "set js \<subseteq> {0..<length (pending_calls cp)}" "unattended_events D evs"
  using run
proof (rule guarantee.G_resume)
  assume "\<exists>x. out = Inl x" "event_trace w' = event_trace w"
  then show ?thesis using refused by blast
next
  fix paused cp t w1 w2 w3 rs
  assume g: "guaranteed D e w w2"
    and g3: "(\<And>m. with_tool_results rs = Inr m \<Longrightarrow> True) \<Longrightarrow> guaranteed D e w3 w'"
    and rp: "require_paused D e i w = (Inr paused, w1)" and cp: "checkpoint paused = Some cp"
    and tr: "transition_task (runner_repo D) e i RUNNING (Some (with_note (''approved by '' @ who) note))
      None (Some (version paused)) w1 = (Inr t, w2)"
    and ex: "execute_all (runner_tools D) (finish_priority e (await_count w2)) (pending_calls cp)
      (await e w2) = (rs, w3)"
    and rest: "case with_tool_results rs of Inl x \<Rightarrow> out = Inl x \<and> w' = w3
       | Inr m \<Rightarrow> drive D e (task_id t) (cp_messages cp @ [m])
           ((resuming cp)\<lparr>rs_tool_calls := cp_tool_calls cp + int (length rs)\<rparr>) w3 = (out, w')"
  note p = require_paused_Inr [OF D fair inv rp]
  have inv1: "invar (store w1)" using await_ok(1) [OF fair inv] p(1) by simp
  note t = transition_from_version [OF D fair inv1 p(2) tr]
  note a = await_ok [OF fair conjunct1 [OF conjunct2 [OF t]]]
  have s3: "store w3 = store (await e w2)" using execute_all_store [OF ex] by simp
  have "repo_evolves lookup (store w3) (store w')"
    using guaranteedD(2) [OF g3 [OF TrueI] D fair] a(1) s3 by simp
  then have ev: "repo_evolves lookup (store w2) (store w')"
    using a(2) s3 repo_evolves_trans by metis
  have tr2: "event_trace (await e w2) = event_trace w"
    using transition_task_outside(2) [OF tr] p(1) by simp
  from execute_all_trace [OF ex] obtain js where
    js: "event_trace w3 = event_trace w @ map (\<lambda>j. HandlerRun (pending_calls cp ! j)) js"
      "distinct js" "set js \<subseteq> {0..<length (pending_calls cp)}"
    using tr2 by auto
  have "extends_unattended D w3 w'"
    using rest trace.G_refl trace.G_drive by (auto split: sum.splits)
  then obtain evs where evs: "event_trace w' = event_trace w3 @ evs" "unattended_events D evs"
    by (auto simp: extends_unattended_def)
  have moment: "lookup (store (await e w)) i = Some paused" using p(1,2) by simp
  have trace: "event_trace w' = event_trace w @ map (\<lambda>j. HandlerRun (pending_calls cp ! j)) js @ evs"
    using js(1) evs(1) by simp
  show ?thesis
    using released [OF moment p(3) cp conjunct2 [OF conjunct2 [OF t]] guaranteedD(2) [OF g D fair inv] ev
        _ trace js(2,3) evs(2)] t by blast
qed

lemma resume_result:
  assumes D: "runner_repo D = R" and fair: "fair_env lookup invar e" and inv: "invar (store w)"
    and run: "resume D e i who note w = (Inr r, w')"
  shows "(reported D (lookup (store w')) i stored r w' \<or> given_up (lookup (store w')) i r) \<and>
    (\<exists>paused cp. lookup (store (await e w)) i = Some paused \<and> checkpoint paused = Some cp \<and>
       model_calls w' - model_calls w = rr_steps r - cp_steps cp \<and>
       cp_steps cp \<le> rr_steps r \<and> rr_steps r \<le> max (max_steps D) (cp_steps cp))"
  using run
proof (rule guarantee.G_resume)
  fix paused cp t w1 w2 w3 rs
  assume g: "guaranteed D e w w2"
    and rp: "require_paused D e i w = (Inr paused, w1)" and cp: "checkpoint paused = Some cp"
    and tr: "transition_task (runner_repo D) e i RUNNING (Some (with_note (''approved by '' @ who) note))
      None (Some (version paused)) w1 = (Inr t, w2)"
    and ex: "execute_all (runner_tools D) (finish_priority e (await_count w2)) (pending_calls cp)
      (await e w2) = (rs, w3)"
    and rest: "case with_tool_results rs of Inl x \<Rightarrow> Inr r = Inl x \<and> w' = w3
       | Inr m \<Rightarrow> drive D e (task_id t) (cp_messages cp @ [m])
           ((resuming cp)\<lparr>rs_tool_calls := cp_tool_calls cp + int (length rs)\<rparr>) w3 = (Inr r, w')"
  note p = require_paused_Inr [OF D fair inv rp]
  have inv1: "invar (store w1)" using await_ok(1) [OF fair inv] p(1) by simp
  note t = started_task [OF D fair inv1 tr]
  have inv3: "invar (store w3)"
    using await_ok(1) [OF fair, of w2] t execute_all_store [OF ex] by simp
  obtain m where d: "drive D e i (cp_messages cp @ [m])
      ((resuming cp)\<lparr>rs_tool_calls := cp_tool_calls cp + int (length rs)\<rparr>) w3 = (Inr r, w')"
    using rest t by (auto split: sum.splits)
  have "model_calls w3 = model_calls w"
    using counts_execute_all(1) [OF ex] counts_transition(1) [OF tr] p(1) by simp
  then have "model_calls w' - model_calls w = rr_steps r - cp_steps cp"
      "cp_steps cp \<le> rr_steps r" "rr_steps r \<le> max (max_steps D) (cp_steps cp)"
    using drive_cost(1-3) [OF d] by (simp_all add: resuming_def)
  with drive_result [OF D fair inv3 d] p cp show ?thesis by blast
qed simp

lemma resume_errors:
  assumes D: "runner_repo D = R" "runner_ok D" and fair: "fair_env lookup invar e"
    and ok: "invar (store w)" "all_tasks_ok lookup (store w)" and storable: "\<And>t. storable t"
    and run: "resume D e i who note w = (Inl x, w')"
  shows "event_trace w' = event_trace w \<and>
    ((x = TaskNotFoundError i \<and> lookup (store w) i = None) \<or> x = NotResumableError i \<or>
     (\<exists>s. x = InvalidTransitionError s RUNNING \<and> s \<noteq> AWAITING_APPROVAL) \<or>
     (\<exists>v c. x = ConcurrentUpdateError i v c))"
  using run
proof -
  obtain res w1 where rp: "require_paused D e i w = (res, w1)" by (metis surj_pair)
  have trace1: "event_trace w1 = event_trace w"
    using rp by (auto simp: require_paused_eq split: sum.splits if_splits)
  show ?thesis
  proof (cases res)
    case (Inl y)
    then have "y = x" "w' = w1" using run rp by (simp_all add: resume_def)
    then show ?thesis
      using require_paused_Inl [OF D(1) fair ok(1)] rp Inl trace1 by blast
  next
    case (Inr p)
    note p = require_paused_Inr [OF D(1) fair ok(1) rp [unfolded Inr]]
    have inv1: "invar (store w1)" and tasks1: "all_tasks_ok lookup (store w1)"
      using await_ok [OF fair ok(1)] ok(2) p(1) by simp_all
    show ?thesis
    proof (cases "checkpoint p")
      case None
      then show ?thesis using run rp Inr trace1 by (simp add: resume_def)
    next
      case cp: (Some cp)
      obtain res2 w2 where tr: "transition_task (runner_repo D) e i RUNNING
          (Some (with_note (''approved by '' @ who) note)) None (Some (version p)) w1 = (res2, w2)"
        by (metis surj_pair)
      show ?thesis
      proof (cases res2)
        case (Inl y)
        then have x: "y = x" "w' = w2" using run rp Inr cp tr by (simp_all add: resume_def)
        have "lookup (store w1) i \<noteq> None" using p(2) by simp
        with transition_task_errors [OF fair inv1 tr [unfolded D(1) Inl] _ storable]
          transition_task_outside(2) [OF tr] x trace1
        show ?thesis by auto
      next
        case t: (Inr t)
        note st = started_task [OF D(1) fair inv1 tr [unfolded t]]
        obtain rs w3 where ex: "execute_all (runner_tools D) (finish_priority e (await_count w2))
            (pending_calls cp) (await e w2) = (rs, w3)"
          by (metis surj_pair)
        have paused: "paused_ok cp"
          using tasks1 p(2) cp task_ok_checkpoint by (auto simp: all_tasks_ok_def)
        then have cpok: "checkpoint_ok cp" by (simp add: paused_ok_def)
        then have "rs \<noteq> []"
          using execute_all_length [OF ex] by (auto simp: checkpoint_ok_def)
        then obtain m where m: "with_tool_results rs = Inr m" "message_ok m"
          using with_tool_results_ok by blast
        have d: "drive D e i (cp_messages cp @ [m])
            ((resuming cp)\<lparr>rs_tool_calls := rs_tool_calls (resuming cp) + int (length rs)\<rparr>) w3 = (Inl x, w')"
          using run rp Inr cp tr t ex m(1) st by (simp add: resume_def continue_run_def Let_def)
        have "conversation_ok (cp_messages cp)"
          using paused by (simp add: paused_ok_def)
        then have "conversation_ok (cp_messages cp @ [m])"
          using conversation_ok_append [of _ "[m]"] m(2) by simp
        moreover have "invar (store w3)" "lookup (store w3) i \<noteq> None"
          using await_ok(1) [OF fair, of w2] present_await [OF fair, of w2] st execute_all_store [OF ex]
          by simp_all
        ultimately have "loop_ready i (cp_messages cp @ [m])
            ((resuming cp)\<lparr>rs_tool_calls := rs_tool_calls (resuming cp) + int (length rs)\<rparr>) w3"
          using cpok by (simp add: loop_ready_def checkpoint_ok_def resuming_def)
        from drive_returns [OF D fair storable this d] show ?thesis by simp
      qed
    qed
  qed
qed


subsection \<open>Rejection, and tasks that are over\<close>

lemma reject_result:
  assumes D: "runner_repo D = R" and fair: "fair_env lookup invar e" and inv: "invar (store w)"
    and rej: "reject D e i who why w = (Inr t, w')"
  shows "\<exists>p at. lookup (store (await e w)) i = Some p \<and> status p = AWAITING_APPROVAL \<and>
    transition_to p CANCELLED (Some (with_note (''rejected by '' @ who) why)) None at = Inr t \<and>
    lookup (store w') i = Some (stored t) \<and> event_trace w' = event_trace w"
proof -
  obtain res w1 where rp: "require_paused D e i w = (res, w1)" by (metis surj_pair)
  show ?thesis
  proof (cases res)
    case (Inl x)
    then show ?thesis using rej rp by (simp add: reject_def)
  next
    case (Inr p)
    note p = require_paused_Inr [OF D fair inv rp [unfolded Inr]]
    have inv1: "invar (store w1)" using await_ok(1) [OF fair inv] p(1) by simp
    have tr: "transition_task (runner_repo D) e i CANCELLED
        (Some (with_note (''rejected by '' @ who) why)) None (Some (version p)) w1 = (Inr t, w')"
      using rej rp Inr by (simp add: reject_def)
    from transition_from_version [OF D fair inv1 p(2) tr] transition_task_outside(2) [OF tr] p
    show ?thesis by auto
  qed
qed

lemma reject_keeps_invar:
  assumes "runner_repo D = R" "fair_env lookup invar e" "invar (store w)"
    and "reject D e i who why w = (out, w')"
  shows "invar (store w')"
  using guaranteedD(1) [OF guarantee.G_reject [OF assms(4)] assms(1-3)] .

lemma terminal_persists:
  assumes "fair_env lookup invar e" "invar (store w)" "lookup (store w) i = Some t" "is_terminal t"
  shows "invar (store (await e w)) \<and> lookup (store (await e w)) i = Some t"
  using await_ok(1,2) [OF assms(1,2)] repo_evolvesD [OF await_ok(2) [OF assms(1,2)] assms(3)]
    evolves_terminal assms(4)
  by blast

lemma terminal_not_started:
  assumes "runner_repo D = R" "fair_env lookup invar e" "invar (store w)"
    and "lookup (store w) i = Some t" "is_terminal t"
  shows "run D e i w = (Inl (InvalidTransitionError (status t) RUNNING), await e w)"
    "resume D e i who note w = (Inl (InvalidTransitionError (status t) RUNNING), await e w)"
    "reject D e i who why w = (Inl (InvalidTransitionError (status t) RUNNING), await e w)"
proof -
  have lk: "repo_get R i (store (await e w)) = Inr t"
    using terminal_persists [OF assms(2-5)] by (simp add: get_law)
  have st: "status t \<noteq> AWAITING_APPROVAL"
    using assms(5) by (auto simp: is_terminal_iff)
  show "run D e i w = (Inl (InvalidTransitionError (status t) RUNNING), await e w)"
    using lk assms(1) transition_to_terminal [OF assms(5)]
    by (simp add: run_def transition_task_eq version_moved_def)
  show "resume D e i who note w = (Inl (InvalidTransitionError (status t) RUNNING), await e w)"
    "reject D e i who why w = (Inl (InvalidTransitionError (status t) RUNNING), await e w)"
    using lk st assms(1) by (simp_all add: resume_def reject_def require_paused_eq)
qed

text \<open>
  A task that is over when a round begins ends the run there: no model call, no tool call, and the
  outcome of the run is discarded in favour of what the task says.
\<close>

lemma terminal_stops_loop:
  assumes "runner_repo D = R" "fair_env lookup invar e" "invar (store w)"
    and "lookup (store w) i = Some t" "is_terminal t" and "rs_steps st \<noteq> 0"
    and "drive_loop D e i offered msgs st w = (out, w')"
  shows "out = Inr (discarded st t) \<and> event_trace w' = event_trace w \<and> lookup (store w') i = Some t"
proof -
  note t1 = terminal_persists [OF assms(2-5)]
  note t2 = terminal_persists [OF assms(2) conjunct1 [OF t1] conjunct2 [OF t1] assms(5)]
  have dis: "discard D e i st (await e w) = (Inr (discarded st t), await e (await e w))"
    using t2 assms(1) by (simp add: discard_eq get_law)
  have dis0: "discard D e i st w = (Inr (discarded st t), await e w)"
    using t1 assms(1) by (simp add: discard_eq get_law)
  show ?thesis
  proof (cases "rs_steps st < max_steps D")
    case True
    have "status t \<noteq> RUNNING" using assms(5) by (auto simp: is_terminal_iff)
    then have "drive_step D e i offered msgs st w = (Stop (Inr (discarded st t)), await e (await e w))"
      using t1 assms(1,6) dis by (simp add: drive_step_def still_running_eq get_law)
    then show ?thesis
      using assms(7) True t2 by (auto simp: drive_loop.simps [of D e i offered msgs st w])
  next
    case False
    have lk: "repo_get R i (store (await e w)) = Inr t" using t1 by (simp add: get_law)
    have "transition_task R e i FAILED why None None w = (Inl (InvalidTransitionError (status t) FAILED), await e w)"
      for why
      using lk transition_to_terminal [OF assms(5)] by (simp add: transition_task_eq version_moved_def)
    then have "(out, w') = discard D e i st (await e w)"
      using assms(7) False assms(1)
      by (simp add: drive_loop.simps [of D e i offered msgs st w] finish_eq is_conflict_def)
    then show ?thesis using dis t2 by simp
  qed
qed


subsection \<open>With nobody else writing\<close>

lemma finish_alone:
  assumes D: "runner_repo D = R" and al: "alone e" and inv: "invar (store w)"
    and storable: "\<And>t. storable t"
    and lk: "lookup (store w) i = Some t" and tr: "target \<in> set (ALLOWED_TRANSITIONS (status t))"
    and cp: "cp = None \<or> target = AWAITING_APPROVAL"
    and fin: "finish D e i target st why ans cp w = (out, w')"
  shows "\<exists>t'. out = Inr (finished st why ans cp t') \<and>
    transition_to t target (Some why) cp (now e (await e w)) = Inr t' \<and>
    lookup (store w') = (lookup (store w))(i \<mapsto> stored t') \<and> invar (store w')"
proof -
  obtain t' where t': "transition_to t target (Some why) cp (now e (await e w)) = Inr t'"
    using tr cp by (auto simp: transition_to_eq)
  have nm: "\<not> version_moved None t" by (simp add: version_moved_def)
  obtain r where r: "transition_task R e i target (Some why) cp None w =
      (Inr t', (await e (await e w))\<lparr>store := r\<rparr>)"
      "invar r" "lookup r = (lookup (store w))(i \<mapsto> stored t')"
    using transition_task_alone [OF al inv lk nm t' storable] by blast
  then have "out = Inr (finished st why ans cp t')" "w' = (await e (await e w))\<lparr>store := r\<rparr>"
    using fin D by (simp_all add: finish_eq)
  with r t' show ?thesis by simp
qed

lemma drive_alone:
  assumes D: "runner_repo D = R" "runner_ok D" and al: "alone e" and storable: "\<And>t. storable t"
    and ready: "loop_ready i msgs st w" and lk: "lookup (store w) i = Some t" "status t = RUNNING"
  shows "\<exists>r w'. drive D e i msgs st w = (Inr r, w') \<and>
    reported D (lookup (store w')) i stored r w' \<and> version (rr_task r) = version t + 1 \<and>
    lookup (store w') = (lookup (store w))(i \<mapsto> stored (rr_task r)) \<and> invar (store w')"
proof -
  note fair = alone_fair [OF al]
  have inv: "invar (store w)" using ready by (simp add: loop_ready_def)
  obtain out w' where run: "drive D e i msgs st w = (out, w')" by (metis surj_pair)
  obtain r where r: "out = Inr r"
    using drive_returns [OF D fair storable ready run] by blast
  obtain offered where "drive_loop D e i offered msgs st w = (Inr r, w')"
    using run r by (cases rule: drive_cases) auto
  then show ?thesis
  proof (cases rule: guarantee.drive_loop_endE [OF _ TrueI, consumes 1, case_names ended taken_over raised])
    case (ended st1 w1 target why ans cp)
    have s: "store w1 = store w" using ended(9) al .
    have "target \<in> set (ALLOWED_TRANSITIONS (status t))"
      using run_ending_target [OF ended(1)] lk(2) by auto
    moreover have "cp = None \<or> target = AWAITING_APPROVAL"
      using run_ending_checkpoint [of D st1 w1 target why ans] ended(1) by (cases cp) auto
    ultimately obtain t' where t': "r = finished st1 why ans cp t'"
        "transition_to t target (Some why) cp (now e (await e w1)) = Inr t'"
        "lookup (store w') = (lookup (store w))(i \<mapsto> stored t')" "invar (store w')"
      using finish_alone [OF D(1) al _ storable _ _ _ ended(2), of t] s inv lk(1) by auto
    have "reported D (lookup (store w')) i stored r w'"
      using finished_landed [OF t'(2) _ ended(1), of "lookup (store w')" i stored] t'(1,3)
        run_ending_same_outside [OF ended(1) finish_outside [OF ended(2)]]
      by (simp add: reported_def)
    moreover have "rr_task r = t'" "version t' = version t + 1"
      using t'(1,2) by (simp_all add: transition_to_eq)
    ultimately show ?thesis
      using run r t' by blast
  next
    case (taken_over st1 w1 t1)
    have "store (await e w1) = store w" using taken_over(10) al by (simp add: store_await_alone)
    then have "t1 = t" using taken_over(2) get_Inr [OF inv, of i] D(1) lk(1) by simp
    with taken_over(3) lk(2) show ?thesis by simp
  next
    case raised
    then show ?thesis by simp
  qed
qed


text \<open>A run of a pending (or paused) task: two transitions, nothing else in the store changed.\<close>

lemma run_alone:
  assumes D: "runner_repo D = R" "runner_ok D" and al: "alone e" and storable: "\<And>t. storable t"
    and inv: "invar (store w)" and lk: "lookup (store w) i = Some t"
    and st: "status t \<in> {PENDING, AWAITING_APPROVAL}"
  shows "\<exists>r w'. run D e i w = (Inr r, w') \<and> reported D (lookup (store w')) i stored r w' \<and>
    version (rr_task r) = version t + 2 \<and>
    lookup (store w') = (lookup (store w))(i \<mapsto> stored (rr_task r)) \<and> invar (store w') \<and>
    model_calls w' - model_calls w = rr_steps r \<and> rr_steps r \<le> max_steps D"
proof -
  let ?why = "Some ''agent run started''"
  obtain t1 where t1: "transition_to t RUNNING ?why None (now e (await e w)) = Inr t1"
    using st by (auto simp: transition_to_eq)
  have nm: "\<not> version_moved None t" by (simp add: version_moved_def)
  obtain s where s: "transition_task R e i RUNNING ?why None None w =
      (Inr t1, (await e (await e w))\<lparr>store := s\<rparr>)"
      "invar s" "lookup s = (lookup (store w))(i \<mapsto> stored t1)"
    using transition_task_alone [OF al inv lk nm t1 storable] by blast
  define w1 where "w1 = (await e (await e w))\<lparr>store := s\<rparr>"
  have t1_sel: "task_id t1 = i" "status t1 = RUNNING" "version t1 = version t + 1"
    using t1 lookup_id [OF inv lk] by (simp_all add: transition_to_eq)
  obtain m where m: "mk_message USER (opening_text (goal t1)) [] [] = Inr m" "conversation_ok [m]"
    using opening_message by blast
  have ready: "loop_ready i [m] new_run_state w1"
    using s(2,3) m(2) by (simp add: loop_ready_def w1_def)
  have "lookup (store w1) i = Some (stored t1)" "status (stored t1) = RUNNING"
    using s(3) t1_sel by (simp_all add: w1_def)
  from drive_alone [OF D al storable ready this] obtain r w' where d:
    "drive D e i [m] new_run_state w1 = (Inr r, w')" "reported D (lookup (store w')) i stored r w'"
    "version (rr_task r) = version (stored t1) + 1"
    "lookup (store w') = (lookup (store w1))(i \<mapsto> stored (rr_task r))" "invar (store w')"
    by blast
  have "run D e i w = (Inr r, w')"
    using s(1) D(1) m(1) d(1) t1_sel(1) by (simp add: run_def w1_def)
  moreover have "model_calls w1 = model_calls w"
    by (simp add: w1_def model_calls_def)
  ultimately show ?thesis
    using d(2-5) drive_cost(1,3) [OF d(1)] t1_sel(3) s(3) D(2)
    by (intro exI [of _ r] exI [of _ w']) (simp add: w1_def runner_ok_def)
qed

text \<open>A running task is not started again.\<close>

lemma run_refuses_running:
  assumes "runner_repo D = R" "alone e" "invar (store w)" "lookup (store w) i = Some t" "status t = RUNNING"
  shows "run D e i w = (Inl (InvalidTransitionError RUNNING RUNNING), await e w)"
  using assms get_law [OF assms(3), of i]
  by (simp add: run_def transition_task_eq store_await_alone version_moved_def transition_to_def can_transition_to_def)

text \<open>
  A provider that breaks its contract, raising what is neither a deadline nor of the taxonomy: the
  exception leaves \<open>run\<close> and the task stays \<open>RUNNING\<close>.
\<close>

lemma run_escape_alone:
  assumes D: "runner_repo D = R" "registry_ok (runner_tools D)" "1 \<le> max_steps D" "1 \<le> max_tokens D"
    and al: "alone e" and storable: "\<And>t. storable t"
    and inv: "invar (store w)" and lk: "lookup (store w) i = Some t" "status t = PENDING"
    and x: "\<And>req s. provider_complete (client_provider (runner_llm D)) req s = (Inl x, s)"
      "x \<noteq> TimeoutError" "\<nexists>le. x = LLM le"
  shows "\<exists>w' t'. run D e i w = (Inl x, w') \<and> lookup (store w') i = Some t' \<and> status t' = RUNNING \<and>
    fst (run D e i w') = Inl (InvalidTransitionError RUNNING RUNNING)"
proof -
  let ?why = "Some ''agent run started''"
  obtain t1 where t1: "transition_to t RUNNING ?why None (now e (await e w)) = Inr t1"
    using lk by (auto simp: transition_to_eq)
  have nm: "\<not> version_moved None t" by (simp add: version_moved_def)
  obtain s where s: "transition_task R e i RUNNING ?why None None w =
      (Inr t1, (await e (await e w))\<lparr>store := s\<rparr>)" "lookup s = (lookup (store w))(i \<mapsto> stored t1)" "invar s"
    using transition_task_alone [OF al inv lk(1) nm t1 storable] by blast
  define w1 where "w1 = (await e (await e w))\<lparr>store := s\<rparr>"
  have t1_sel: "status t1 = RUNNING" using t1 by (simp add: transition_to_eq)
  obtain m where m: "mk_message USER (opening_text (goal t1)) [] [] = Inr m" "conversation_ok [m]"
    using opening_message by blast
  obtain offered where o: "specs (runner_tools D) = Inr offered" "distinct (map spec_name offered)"
    using specs_ok [OF D(2)] by auto
  obtain req where req: "mk_completion_request [m] (Some (system_prompt D)) (max_tokens D) None offered = Inr req"
    using mk_completion_request_ok [OF m(2) D(4) o(2)] by blast
  obtain w2 where w2: "llm_complete (runner_llm D) req (await e w1) = (Inl x, w2)"
    using x(1,2) by (cases x) (simp_all add: llm_complete_def Let_def)
  have "drive_step D e (task_id t1) offered [m] new_run_state w1 = (Stop (Inl x), w2)"
    using req w2 x(3) by (simp add: drive_step_def model_turn_def split: exn.split)
  then have "run D e i w = (Inl x, w2)"
    using s(1) D(1,3) m(1) o(1)
    by (simp add: run_def w1_def drive_def drive_loop.simps [of D e "task_id t1" offered "[m]"])
  moreover have "store w2 = s"
    using llm_complete_store [OF w2] store_await_alone [OF al, of w1] by (simp add: w1_def)
  moreover from this have "run D e i w2 = (Inl (InvalidTransitionError RUNNING RUNNING), await e w2)"
    using s(2,3) t1_sel by (intro run_refuses_running [OF D(1) al, of _ _ "stored t1"]) simp_all
  ultimately show ?thesis
    using s(2) t1_sel by (intro exI [of _ w2] exI [of _ "stored t1"]) simp
qed

end

end
