(* ===== verification/Runner_Requests.thy ===== *)
theory Runner_Requests
  imports Runner_Correct "HOL-Library.Sublist"
begin

section \<open>What the model is asked, and what a pause leaves behind\<close>

text \<open>
  Every request of a run is a well-formed conversation under the runner's own settings, offering
  exactly the registered tools; each tool call in it is answered by the result of the same id. A
  resumption continues the paused conversation, so this carries over a pause.
\<close>

definition request_ok :: "('x, 'r) agent_runner \<Rightarrow> completion_request \<Rightarrow> bool" where
  "request_ok D req \<longleftrightarrow>
     dialogue_ok (req_messages req) \<and> req_system req = Some (system_prompt D) \<and>
     req_max_tokens req = max_tokens D \<and> req_output_schema req = None \<and>
     specs (runner_tools D) = Inr (req_tools req)"

definition asks :: "(completion_request \<Rightarrow> bool) \<Rightarrow> ('x, 'r) world \<Rightarrow> ('x, 'r) world \<Rightarrow> bool" where
  "asks P w w' \<longleftrightarrow>
     (\<exists>evs. event_trace w' = event_trace w @ evs \<and> (\<forall>req. ModelCall req \<in> set evs \<longrightarrow> P req))"

lemma asks_nothing: "event_trace w' = event_trace w \<Longrightarrow> asks P w w'"
  by (simp add: asks_def)

lemma asks_trans: "asks P w1 w2 \<Longrightarrow> asks P w2 w3 \<Longrightarrow> asks P w1 w3"
  unfolding asks_def by fastforce

lemma asks_one: "llm_complete C req w = (res, w') \<Longrightarrow> P req \<Longrightarrow> asks P w w'"
  using llm_complete_event_trace by (fastforce simp: asks_def)

lemma asks_execute_all:
  assumes "execute_all reg prio calls w = (rs, w')"
  shows "asks P w w'"
proof -
  obtain js where "event_trace w' = event_trace w @ map (\<lambda>i. HandlerRun (calls ! i)) js"
    using execute_all_trace [OF assms] by blast
  then show ?thesis unfolding asks_def by (intro exI [of _ "map (\<lambda>i. HandlerRun (calls ! i)) js"]) auto
qed

lemma asks_await: "asks P w (await e w)"
  by (simp add: asks_nothing)

lemma asks_finish: "finish D e i target st why ans cp w = (out, w') \<Longrightarrow> asks P w w'"
  using finish_outside(2) by (rule asks_nothing)

lemma asks_discard: "discard D e i st w = (out, w') \<Longrightarrow> asks P w w'"
  by (auto simp: discard_eq asks_nothing)

lemma asks_tool_turn:
  assumes "tool_turn D e i msgs c st w = (out, w')"
  shows "asks P w w'"
  using assms
proof (cases rule: tool_turn_cases)
  case held
  show ?thesis by (rule asks_finish [OF held(3)])
next
  case no_checkpoint
  then show ?thesis by (simp add: asks_nothing)
next
  case executed
  show ?thesis by (rule asks_trans [OF asks_await asks_execute_all [OF executed(2)]])
next
  case no_message
  show ?thesis by (rule asks_trans [OF asks_await asks_execute_all [OF no_message(2)]])
qed

lemma asks_conclude: "conclude D e i c st w = (out, w') \<Longrightarrow> asks P w w'"
  by (erule conclude_cases) (erule asks_finish)

text \<open>The only request of a round is the one built from its conversation.\<close>

lemma asks_model_turn:
  assumes "model_turn D e i offered msgs st w = (out, w')"
  shows "asks (\<lambda>req. mk_completion_request msgs (Some (system_prompt D)) (max_tokens D) None offered
    = Inr req) w w'"
    (is "asks ?P w w'")
  using assms
proof (cases rule: model_turn_cases)
  case no_request
  then show ?thesis by (simp add: asks_nothing)
next
  case (model_failed req le w1 r)
  show ?thesis
    using asks_trans [OF asks_trans [OF asks_await asks_one [OF model_failed(2), of ?P]] asks_finish [OF model_failed(3)]]
      model_failed(1) by simp
next
  case escaped
  show ?thesis
    using asks_trans [OF asks_await asks_one [OF escaped(2), of ?P]] escaped(1) by simp
next
  case answered
  show ?thesis
    using asks_trans [OF asks_trans [OF asks_await asks_one [OF answered(2), of ?P]] asks_conclude [OF answered(4)]]
      answered(1) by simp
next
  case no_turn
  show ?thesis
    using asks_trans [OF asks_await asks_one [OF no_turn(2), of ?P]] no_turn(1) by simp
next
  case tools
  show ?thesis
    using asks_trans [OF asks_trans [OF asks_await asks_one [OF tools(2), of ?P]] asks_tool_turn [OF tools(5)]]
      tools(1) by simp
qed

lemma asks_drive_step:
  assumes "drive_step D e i offered msgs st w = (out, w')" "dialogue_ok msgs"
    and "specs (runner_tools D) = Inr offered"
  shows "asks (request_ok D) w w'"
proof -
  have one: "asks (request_ok D) v v'" if "model_turn D e i offered msgs st' v = (o', v')" for st' v o' v'
  proof -
    have "request_ok D req" if "mk_completion_request msgs (Some (system_prompt D)) (max_tokens D) None offered
        = Inr req" for req
      using that assms(2,3) by (auto simp: mk_completion_request_eq request_ok_def)
    with asks_model_turn [OF that] show ?thesis unfolding asks_def by blast
  qed
  show ?thesis
    using assms(1)
  proof (cases rule: drive_step_cases)
    case lookup_failed
    then show ?thesis by (simp add: asks_nothing)
  next
    case taken_over
    show ?thesis by (rule asks_trans [OF asks_await asks_discard [OF taken_over(4)]])
  next
    case still_ours
    show ?thesis by (rule asks_trans [OF asks_await one [OF still_ours(4)]])
  next
    case first
    show ?thesis by (rule one [OF first(2)])
  qed
qed

lemma dialogue_drive_step:
  assumes "drive_step D e i offered msgs st w = (Next msgs1 st1, w')" "dialogue_ok msgs"
  shows "dialogue_ok msgs1"
  using assms(1)
proof (cases rule: drive_step_NextE)
  case (1 w0 req c w1 m rs m')
  from dialogue_ok_round [OF assms(2) 1(6,9) execute_all_ids [OF 1(8)]] 1(10) show ?thesis by simp
qed

lemma asks_drive_loop:
  assumes "drive_loop D e i offered msgs st w = (out, w')" "dialogue_ok msgs"
    and "specs (runner_tools D) = Inr offered"
  shows "asks (request_ok D) w w'"
  using assms(1,2)
proof (induction rule: drive_loop_induct)
  case (exhausted msgs st w)
  show ?case by (rule asks_finish [OF exhausted(2)])
next
  case (stopped msgs st w)
  from stopped(2,3) assms(3) show ?case by (rule asks_drive_step)
next
  case (again msgs st w msgs1 st1 w1)
  from asks_drive_step [OF again(2,5) assms(3)] again(4) [OF dialogue_drive_step [OF again(2,5)]]
  show ?case by (rule asks_trans)
qed

lemma asks_drive:
  "drive D e i msgs st w = (out, w') \<Longrightarrow> dialogue_ok msgs \<Longrightarrow> asks (request_ok D) w w'"
  by (erule drive_cases) (auto simp: asks_nothing intro: asks_drive_loop)

lemma run_requests:
  assumes "run D e i w = (out, w')"
  shows "asks (request_ok D) w w'"
  using assms
proof (cases rule: run_cases)
  case refused
  show ?thesis using transition_task_outside(2) [OF refused(2)] by (rule asks_nothing)
next
  case (started t w1 m)
  have "dialogue_ok [m]"
    using started(2,3) by (intro dialogue_ok_single) (auto simp: mk_message_eq)
  from asks_trans [OF asks_nothing [OF transition_task_outside(2) [OF started(1)]] asks_drive [OF started(4) this]]
  show ?thesis .
qed

subsection \<open>A run is one conversation\<close>

text \<open>
  The requests of a run in order: the first asks what the conversation opened with, and each later one
  has the messages of the one before and more.
\<close>

definition requests :: "event list \<Rightarrow> completion_request list" where
  "requests evs = concat (map (\<lambda>ev. case ev of ModelCall req \<Rightarrow> [req] | _ \<Rightarrow> []) evs)"

definition conversation_from :: "message list \<Rightarrow> completion_request list \<Rightarrow> bool" where
  "conversation_from msgs reqs \<longleftrightarrow>
     (reqs = [] \<or> req_messages (hd reqs) = msgs) \<and> sorted_wrt strict_prefix (map req_messages reqs)"

lemma requests_append [simp]: "requests (xs @ ys) = requests xs @ requests ys"
  by (simp add: requests_def)

lemma requests_one [simp]: "requests [ModelCall req] = [req]"
  by (simp add: requests_def)

lemma requests_of: "req \<in> set (requests evs) \<longleftrightarrow> ModelCall req \<in> set evs"
  by (force simp: requests_def split: event.splits)

definition converses :: "message list \<Rightarrow> ('x, 'r) world \<Rightarrow> ('x, 'r) world \<Rightarrow> bool" where
  "converses msgs w w' \<longleftrightarrow> (\<exists>reqs. requests (event_trace w') = requests (event_trace w) @ reqs \<and>
     conversation_from msgs reqs)"

lemma asks_no_requests:
  assumes "asks (\<lambda>_. False) w w'"
  shows "requests (event_trace w') = requests (event_trace w)"
proof -
  obtain evs where "event_trace w' = event_trace w @ evs" "\<forall>req. ModelCall req \<notin> set evs"
    using assms unfolding asks_def by blast
  then show ?thesis using requests_of [of _ evs] by (cases "requests evs") fastforce+
qed

lemma converses_quiet: "asks (\<lambda>_. False) w w' \<Longrightarrow> converses msgs w w'"
  by (simp add: converses_def asks_no_requests conversation_from_def)

lemma converses_one:
  assumes "asks (\<lambda>_. False) w w0" "llm_complete C req w0 = (res, w1)" "req_messages req = msgs"
    "asks (\<lambda>_. False) w1 w'"
  shows "converses msgs w w'"
proof -
  have "requests (event_trace w') = requests (event_trace w) @ [req]"
    using asks_no_requests [OF assms(1)] asks_no_requests [OF assms(4)] llm_complete_event_trace [OF assms(2)] by simp
  then show ?thesis using assms(3) by (simp add: converses_def conversation_from_def)
qed

lemma converses_model_turn:
  assumes "model_turn D e i offered msgs st w = (out, w')"
  shows "converses msgs w w'"
proof -
  have same: "req_messages req = msgs" if "mk_completion_request msgs s n o' offered = Inr req" for s n o' req
    using that by (auto simp: mk_completion_request_eq)
  from assms show ?thesis
  proof (cases rule: model_turn_cases)
    case no_request
    then show ?thesis by (simp add: converses_quiet asks_nothing)
  next
    case (model_failed req le w1 r)
    show ?thesis by (rule converses_one [OF asks_await model_failed(2) same [OF model_failed(1)] asks_finish [OF model_failed(3)]])
  next
    case escaped
    show ?thesis using converses_one [OF asks_await escaped(2) same [OF escaped(1)]] by (simp add: asks_nothing)
  next
    case answered
    show ?thesis by (rule converses_one [OF asks_await answered(2) same [OF answered(1)] asks_conclude [OF answered(4)]])
  next
    case no_turn
    show ?thesis using converses_one [OF asks_await no_turn(2) same [OF no_turn(1)]] by (simp add: asks_nothing)
  next
    case tools
    show ?thesis by (rule converses_one [OF asks_await tools(2) same [OF tools(1)] asks_tool_turn [OF tools(5)]])
  qed
qed

lemma converses_after: "asks (\<lambda>_. False) w w1 \<Longrightarrow> converses msgs w1 w' \<Longrightarrow> converses msgs w w'"
  using asks_no_requests by (fastforce simp: converses_def)

lemma converses_drive_step:
  assumes "drive_step D e i offered msgs st w = (out, w')"
  shows "converses msgs w w'"
  using assms
proof (cases rule: drive_step_cases)
  case lookup_failed
  then show ?thesis by (simp add: converses_quiet asks_nothing)
next
  case taken_over
  show ?thesis by (rule converses_quiet [OF asks_trans [OF asks_await asks_discard [OF taken_over(4)]]])
next
  case still_ours
  show ?thesis by (rule converses_after [OF asks_await converses_model_turn [OF still_ours(4)]])
next
  case first
  show ?thesis by (rule converses_model_turn [OF first(2)])
qed

text \<open>A round that goes on has asked once, and the next request has its turn and its results besides.\<close>

lemma converses_again:
  assumes "drive_step D e i offered msgs st w = (Next msgs1 st1, w1)" "converses msgs1 w1 w'"
  shows "converses msgs w w'"
  using assms(1)
proof (cases rule: drive_step_NextE)
  case (1 w0 req c w2 m rs m')
  have "asks (\<lambda>_. False) w (await e w0)"
    using 1(1) asks_trans [OF asks_await asks_await] asks_await by auto
  moreover have "asks (\<lambda>_. False) w2 w1" by (rule asks_trans [OF asks_await asks_execute_all [OF 1(8)]])
  ultimately have one: "requests (event_trace w1) = requests (event_trace w) @ [req]"
    using asks_no_requests llm_complete_event_trace [OF 1(4)] by (metis requests_append requests_one)
  obtain reqs where reqs: "requests (event_trace w') = requests (event_trace w1) @ reqs" "conversation_from msgs1 reqs"
    using assms(2) by (auto simp: converses_def)
  have req: "req_messages req = msgs" using 1(3) by (auto simp: mk_completion_request_eq)
  have grows: "strict_prefix msgs msgs1" using 1(10) by (simp add: strict_prefix_def)
  have "strict_prefix msgs (req_messages r)" if "r \<in> set reqs" for r
  proof (cases reqs)
    case (Cons r0 rest)
    then have "req_messages r0 = msgs1" "r = r0 \<or> strict_prefix (req_messages r0) (req_messages r)"
      using reqs(2) that by (auto simp: conversation_from_def)
    then show ?thesis using grows by (auto intro: prefix_order.less_trans)
  qed (use that in simp)
  then have "conversation_from msgs (req # reqs)"
    using reqs(2) req by (simp add: conversation_from_def)
  then show ?thesis using one reqs(1) by (auto simp: converses_def)
qed

lemma converses_drive_loop:
  assumes "drive_loop D e i offered msgs st w = (out, w')"
  shows "converses msgs w w'"
  using assms
proof (induction rule: drive_loop_induct)
  case (exhausted msgs st w)
  show ?case by (rule converses_quiet [OF asks_finish [OF exhausted(2)]])
next
  case (stopped msgs st w)
  from stopped(2) show ?case by (rule converses_drive_step)
next
  case (again msgs st w msgs1 st1 w1)
  from again(2,4) show ?case by (rule converses_again)
qed

lemma converses_drive: "drive D e i msgs st w = (out, w') \<Longrightarrow> converses msgs w w'"
  by (erule drive_cases) (auto simp: asks_nothing converses_quiet intro: converses_drive_loop)

text \<open>A run opens with the goal of the task it started, whatever the task held before.\<close>

lemma run_converses:
  assumes "run D e i w = (out, w')"
  obtains (nothing) "requests (event_trace w') = requests (event_trace w)"
  | (asked) t w1 m where
      "transition_task (runner_repo D) e i RUNNING (Some ''agent run started'') None None w = (Inr t, w1)"
      "mk_message USER (opening_text (goal t)) [] [] = Inr m" "converses [m] w w'"
  using assms
proof (cases rule: run_cases)
  case refused
  show thesis by (rule nothing) (simp add: transition_task_outside(2) [OF refused(2)])
next
  case (started t w1 m)
  note quiet = asks_nothing [OF transition_task_outside(2) [OF started(1)]]
  show thesis
    using asked [OF started(1)] started(2) converses_after [OF quiet converses_drive [OF started(4)]] started(3) by simp
qed

text \<open>A resumption opens with the held conversation and the results of the calls it held.\<close>

lemma resume_converses:
  fixes w w' :: "('x, 'r) world"
  assumes "resume D e i who note w = (out, w')"
  obtains (nothing) "requests (event_trace w') = requests (event_trace w)"
  | (continued) paused cp w1 t w2 rs w3 m where
      "require_paused D e i w = (Inr paused, w1)" "checkpoint paused = Some cp"
      "transition_task (runner_repo D) e i RUNNING (Some (with_note (''approved by '' @ who) note)) None
         (Some (version paused)) w1 = (Inr t, w2)"
      "execute_all (runner_tools D) (finish_priority e (await_count w2)) (pending_calls cp) (await e w2) = (rs, w3)"
      "with_tool_results rs = Inr m"
      "converses (cp_messages cp @ [m]) w w'"
proof -
  obtain res w1 where rp: "require_paused D e i w = (res, w1)" by (metis surj_pair)
  have trace1: "event_trace w1 = event_trace w"
    using rp by (auto simp: require_paused_eq split: sum.splits if_splits)
  show thesis
  proof (cases "\<exists>paused cp t w2. res = Inr paused \<and> checkpoint paused = Some cp \<and>
      transition_task (runner_repo D) e i RUNNING (Some (with_note (''approved by '' @ who) note)) None
        (Some (version paused)) w1 = (Inr t, w2)")
    case False
    then have "requests (event_trace w') = requests (event_trace w)"
      using assms rp trace1
      by (auto simp: resume_def split: sum.splits option.splits prod.splits dest: transition_task_outside(2))
    then show thesis by (rule nothing)
  next
    case True
    then obtain paused cp t w2 where p: "res = Inr paused" "checkpoint paused = Some cp"
      and tr: "transition_task (runner_repo D) e i RUNNING (Some (with_note (''approved by '' @ who) note)) None
        (Some (version paused)) w1 = (Inr t, w2)"
      by blast
    obtain rs w3 where ex: "execute_all (runner_tools D) (finish_priority e (await_count w2)) (pending_calls cp)
        (await e w2) = (rs, w3)"
      by (metis surj_pair)
    have "event_trace w2 = event_trace w" using transition_task_outside(2) [OF tr] trace1 by simp
    from asks_trans [OF asks_nothing [OF this] asks_trans [OF asks_await asks_execute_all [OF ex]]]
    have quiet: "asks (\<lambda>_. False) w w3" .
    have rest: "case with_tool_results rs of Inl x \<Rightarrow> out = Inl x \<and> w' = w3
       | Inr m \<Rightarrow> drive D e (task_id t) (cp_messages cp @ [m])
           ((resuming cp)\<lparr>rs_tool_calls := rs_tool_calls (resuming cp) + int (length rs)\<rparr>) w3 = (out, w')"
      using assms rp p tr ex by (simp add: resume_def continue_run_def Let_def split: sum.splits)
    show thesis
    proof (cases "with_tool_results rs")
      case (Inl x)
      then show thesis using rest asks_no_requests [OF quiet] by (intro that(1)) simp
    next
      case (Inr m)
      then have "converses (cp_messages cp @ [m]) w w'"
        using rest converses_after [OF quiet converses_drive] by simp
      from continued [OF _ p(2) tr ex Inr this] show thesis using rp p(1) by simp
    qed
  qed
qed

context task_repository
begin

lemma paused_conversation_resumes:
  assumes "task_ok p" "checkpoint p = Some cp" "with_tool_results rs = Inr m"
    and "execute_all reg prio (pending_calls cp) w = (rs, w')"
  shows "dialogue_ok (cp_messages cp @ [m])"
proof -
  have cp: "checkpoint_ok cp" "conversation_ok (cp_messages cp)" "paired [] (cp_messages cp)"
    using task_ok_checkpoint [OF assms(1,2)] by (simp_all add: paused_ok_def)
  then have eq: "cp_messages cp = butlast (cp_messages cp) @ [last (cp_messages cp)]"
    by (simp add: checkpoint_ok_def)
  have "map res_call_id rs = map call_id (msg_tool_calls (last (cp_messages cp)))"
    using execute_all_ids [OF assms(4)] by (simp add: pending_calls_def)
  from dialogue_ok_answered [OF _ _ assms(3) this, of "butlast (cp_messages cp)"] cp(2,3) eq
  show ?thesis by (metis append.assoc append_Cons append_Nil)
qed

lemma resume_requests:
  assumes D: "runner_repo D = R" and fair: "fair_env lookup invar e" and ok: "state_ok w"
    and run: "resume D e i who note w = (out, w')"
  shows "asks (request_ok D) w w'" "state_ok w'"
proof -
  have inv: "invar (store w)" using ok by (simp add: state_ok_def)
  have "asks (request_ok D) w w' \<and> state_ok w'"
    using run
  proof (rule tasks_ok.G_resume)
    assume "keeps_ok D e w w'" "event_trace w' = event_trace w"
    then show ?thesis using D fair ok by (simp add: keeps_ok_def asks_nothing)
  next
    fix paused cp t w1 w2 w3 rs
    assume g: "keeps_ok D e w w2"
      and g3: "(\<And>m. with_tool_results rs = Inr m \<Longrightarrow> dialogue_ok (cp_messages cp @ [m])) \<Longrightarrow> keeps_ok D e w3 w'"
      and rp: "require_paused D e i w = (Inr paused, w1)" and cp: "checkpoint paused = Some cp"
      and tr: "transition_task (runner_repo D) e i RUNNING (Some (with_note (''approved by '' @ who) note))
        None (Some (version paused)) w1 = (Inr t, w2)"
      and ex: "execute_all (runner_tools D) (finish_priority e (await_count w2)) (pending_calls cp)
        (await e w2) = (rs, w3)"
      and rest: "case with_tool_results rs of Inl x \<Rightarrow> out = Inl x \<and> w' = w3
         | Inr m \<Rightarrow> drive D e (task_id t) (cp_messages cp @ [m])
             ((resuming cp)\<lparr>rs_tool_calls := cp_tool_calls cp + int (length rs)\<rparr>) w3 = (out, w')"
    note p = require_paused_Inr [OF D fair inv rp]
    have "task_ok paused"
      using p(1,2) await_ok [OF fair inv] ok by (auto simp: state_ok_def all_tasks_ok_def)
    then have dlg: "dialogue_ok (cp_messages cp @ [m])" if "with_tool_results rs = Inr m" for m
      using paused_conversation_resumes [OF _ cp that ex] by blast
    have "state_ok w2" using g D fair ok by (simp add: keeps_ok_def)
    then have "state_ok w3"
      using await_ok [OF fair, of w2] execute_all_store [OF ex] by (simp add: state_ok_def)
    then have "state_ok w'" using g3 [OF dlg] D fair by (simp add: keeps_ok_def)
    moreover have "asks (request_ok D) w w3"
    proof -
      have "event_trace w2 = event_trace w"
        using transition_task_outside(2) [OF tr] p(1) by simp
      from asks_trans [OF asks_nothing [OF this] asks_trans [OF asks_await asks_execute_all [OF ex]]]
      show ?thesis .
    qed
    moreover have "asks (request_ok D) w3 w'"
    proof (cases "with_tool_results rs")
      case Inl
      with rest show ?thesis by (simp add: asks_nothing)
    next
      case (Inr m)
      with rest show ?thesis by (simp add: asks_drive [OF _ dlg [OF Inr]])
    qed
    ultimately show ?thesis using asks_trans by blast
  qed
  then show "asks (request_ok D) w w'" "state_ok w'" by simp_all
qed

lemma resume_conversation:
  fixes w w' :: "('x, 'r) world"
  assumes "runner_repo D = R" "fair_env lookup invar e" "invar (store w)" "resume D e i who note w = (out, w')"
  shows "\<exists>reqs. requests (event_trace w') = requests (event_trace w) @ reqs \<and>
    (reqs = [] \<or> (\<exists>paused cp t w2 rs w3 m.
       lookup (store (await e w)) i = Some paused \<and> checkpoint paused = Some cp \<and>
       transition_task R e i RUNNING (Some (with_note (''approved by '' @ who) note)) None (Some (version paused))
         (await e w) = (Inr t, w2) \<and>
       execute_all (runner_tools D) (finish_priority e (await_count w2)) (pending_calls cp) (await e w2) = (rs, w3) \<and>
       map res_call_id rs = map call_id (pending_calls cp) \<and> with_tool_results rs = Inr m \<and>
       conversation_from (cp_messages cp @ [m]) reqs))"
  using assms(4)
proof (cases rule: resume_converses)
  case nothing
  then show ?thesis by (intro exI [of _ "[]"]) simp
next
  case (continued paused cp w1 t w2 rs w3 m)
  note p = require_paused_Inr [OF assms(1-3) continued(1)]
  obtain reqs where "requests (event_trace w') = requests (event_trace w) @ reqs"
      "conversation_from (cp_messages cp @ [m]) reqs"
    using continued(6) by (auto simp: converses_def)
  then show ?thesis
    using p(1,2) continued(1-5) execute_all_ids [OF continued(4)] assms(1)
    by (intro exI [of _ reqs]) (auto simp: require_paused_eq split: sum.splits if_splits)
qed

lemma run_conversation_alone:
  assumes D: "runner_repo D = R" and al: "alone e" and inv: "invar (store w)" and lk: "lookup (store w) i = Some t"
    and run: "run D e i w = (out, w')"
  shows "\<exists>m reqs. mk_message USER (opening_text (goal t)) [] [] = Inr m \<and>
    requests (event_trace w') = requests (event_trace w) @ reqs \<and> conversation_from [m] reqs"
  using run
proof (cases rule: run_converses)
  case nothing
  then show ?thesis
    using opening_message [of "goal t"] by (auto simp: conversation_from_def intro!: exI [of _ "[]"])
next
  case (asked t1 w1 m)
  obtain t0 where t0: "repo_get R i (store (await e w)) = Inr t0"
      "transition_to t0 RUNNING (Some ''agent run started'') None (now e (await e w)) = Inr t1"
    using asked(1) D by (auto elim: transition_task_InrE)
  have "t0 = t" using t0(1) get_Inr [OF inv] lk al by (simp add: store_await_alone)
  then have "goal t1 = goal t" using t0(2) by (simp add: transition_to_eq)
  then show ?thesis using asked(2,3) by (auto simp: converses_def)
qed

lemma run_keeps_ok:
  assumes "runner_repo D = R" "fair_env lookup invar e" "state_ok w" "run D e i w = (out, w')"
  shows "state_ok w'"
  using tasks_ok.G_run [OF assms(4)] assms(1-3) by (simp add: keeps_ok_def)

lemma reject_keeps_ok:
  assumes "runner_repo D = R" "fair_env lookup invar e" "state_ok w" "reject D e i who why w = (out, w')"
  shows "state_ok w'"
  using tasks_ok.G_reject [OF assms(4)] assms(1-3) by (simp add: keeps_ok_def)

lemma resume_guarantee:
  assumes "runner_repo D = R" "fair_env lookup invar e" "invar (store w)" "resume D e i who note w = (out, w')"
  shows "invar (store w')" "repo_evolves lookup (store w) (store w')"
proof -
  have "repo_evolves lookup (store w) (store w') \<and> invar (store w')"
    using assms(4)
  proof (rule guarantee.G_resume)
    assume "guaranteed D e w w'"
    then show ?thesis using assms(1-3) by (simp add: guaranteed_def)
  next
    fix cp w2 w3 rs
    assume g: "guaranteed D e w w2" and g3: "(\<And>m. with_tool_results rs = Inr m \<Longrightarrow> True) \<Longrightarrow> guaranteed D e w3 w'"
      and ex: "execute_all (runner_tools D) (finish_priority e (await_count w2)) (pending_calls cp)
        (await e w2) = (rs, w3)"
    note a = guaranteedD [OF g assms(1-3)]
    note b = await_ok [OF assms(2) a(1)]
    have s3: "store w3 = store (await e w2)" using execute_all_store [OF ex] by simp
    have "invar (store w3)" using b(1) s3 by simp
    from guaranteedD [OF g3 [OF TrueI] assms(1,2) this] show ?thesis
      using a(2) b(2) s3 repo_evolves_trans by metis
  qed
  then show "invar (store w')" "repo_evolves lookup (store w) (store w')" by simp_all
qed

end

end
