(* ===== verification/Auth.thy ===== *)
theory Auth
  imports Task_Models
begin

section \<open>Identity and authority (\<open>auth/\<close>)\<close>

text \<open>
  \<open>auth/models.py\<close>, \<open>auth/tokens.py\<close> and the scope checks of \<open>auth/dependencies.py\<close>. SHA-256 is
  not code of this program: the digest is a parameter \<open>digest\<close>, and a theorem that needs more than
  a function says which collisions it excludes. A secret's wrapper \<open>SecretStr\<close> is its string; what
  is written to logs is left out.
\<close>

datatype scope = TASKS_READ | TASKS_WRITE | TASKS_APPROVE

fun scope_value :: "scope \<Rightarrow> string" where
  "scope_value TASKS_READ = ''tasks:read''"
| "scope_value TASKS_WRITE = ''tasks:write''"
| "scope_value TASKS_APPROVE = ''tasks:approve''"

definition is_subject_char :: "char \<Rightarrow> bool" where
  "is_subject_char c \<longleftrightarrow> is_alnum_ascii c \<or> c \<in> set ''._@:-''"

text \<open>\<open>SUBJECT_PATTERN\<close>.\<close>

definition valid_subject :: "string \<Rightarrow> bool" where
  "valid_subject s \<longleftrightarrow> matches_class is_subject_char 1 128 s"

definition MIN_TOKEN_LENGTH :: nat where
  "MIN_TOKEN_LENGTH = 32"

record principal =
  subject :: string
  scopes :: "scope list" \<comment> \<open>a \<open>frozenset\<close>: only membership is used\<close>

definition mk_principal :: "string \<Rightarrow> scope list \<Rightarrow> exn + principal" where
  "mk_principal s sc =
     (if \<not> valid_subject s then Inl (ValidationError ''subject: pattern'')
      else if sc = [] then Inl (ValidationError ''scopes: min_length'')
      else Inr \<lparr>subject = s, scopes = sc\<rparr>)"

definition holds_any :: "principal \<Rightarrow> scope list \<Rightarrow> bool" where
  "holds_any p accepted \<longleftrightarrow> list_ex (\<lambda>s. s \<in> set accepted) (scopes p)"

record api_client =
  client_subject :: string
  client_token :: string
  client_scopes :: "scope list"

definition mk_api_client :: "string \<Rightarrow> string \<Rightarrow> scope list \<Rightarrow> exn + api_client" where
  "mk_api_client s token sc =
     (if \<not> valid_subject s then Inl (ValidationError ''subject: pattern'')
      else if length token < MIN_TOKEN_LENGTH
      then Inl (ValidationError
             (''API tokens must be at least '' @ nat_str MIN_TOKEN_LENGTH @ '' characters''))
      else if sc = [] then Inl (ValidationError ''scopes: min_length'')
      else Inr \<lparr>client_subject = s, client_token = token, client_scopes = sc\<rparr>)"

definition api_client_ok :: "api_client \<Rightarrow> bool" where
  "api_client_ok c \<longleftrightarrow>
     valid_subject (client_subject c) \<and> 32 \<le> length (client_token c) \<and> client_scopes c \<noteq> []"

definition client_principal :: "api_client \<Rightarrow> principal" where
  "client_principal c = \<lparr>subject = client_subject c, scopes = client_scopes c\<rparr>"

record approval_policy =
  requires_second_person :: bool

definition may_approve :: "approval_policy \<Rightarrow> principal \<Rightarrow> string \<Rightarrow> bool" where
  "may_approve policy p requested \<longleftrightarrow> \<not> (requires_second_person policy \<and> subject p = requested)"


subsection \<open>Bearer tokens (\<open>auth/tokens.py\<close>)\<close>

type_synonym authenticator = "(string, principal) dict" \<comment> \<open>\<open>_by_digest\<close>\<close>

fun index_clients ::
  "(string \<Rightarrow> string) \<Rightarrow> api_client list \<Rightarrow> authenticator \<Rightarrow> exn + authenticator" where
  "index_clients digest [] index = Inr index"
| "index_clients digest (c # cs) index =
     (let d = digest (client_token c) in
      case dict_get index d of
        Some p \<Rightarrow>
          Inl (ValueError (''API clients '' @ quoted (subject p) @ '' and '' @
                 quoted (client_subject c) @ '' share a token''))
      | None \<Rightarrow> index_clients digest cs (dict_set d (client_principal c) index))"

definition mk_authenticator :: "(string \<Rightarrow> string) \<Rightarrow> api_client list \<Rightarrow> exn + authenticator" where
  "mk_authenticator digest clients = index_clients digest clients []"

definition is_configured :: "authenticator \<Rightarrow> bool" where
  "is_configured a \<longleftrightarrow> a \<noteq> []"

definition issued_subjects :: "authenticator \<Rightarrow> string list" where
  "issued_subjects a = remdups (map (\<lambda>(d, p). subject p) a)"

definition authenticate :: "(string \<Rightarrow> string) \<Rightarrow> authenticator \<Rightarrow> string \<Rightarrow> principal option" where
  "authenticate digest a presented = dict_get a (digest presented)"


subsection \<open>HTTP failures and the two dependencies (\<open>auth/dependencies.py\<close>)\<close>

text \<open>
  What a route answers when it does not answer normally: an \<open>HTTPException\<close> with its status and
  detail (and whether it challenges the client), or an exception nothing maps, which the server
  turns into a 500.
\<close>

datatype http_error =
    HTTPError int string bool \<comment> \<open>status, detail, \<open>WWW-Authenticate\<close> sent\<close>
  | Unhandled exn

abbreviation http_error :: "int \<Rightarrow> string \<Rightarrow> http_error" where
  "http_error code detail \<equiv> HTTPError code detail False"

definition current_principal ::
  "(string \<Rightarrow> string) \<Rightarrow> authenticator \<Rightarrow> string option \<Rightarrow> http_error + principal" where
  "current_principal digest a credentials =
     (case credentials of
        None \<Rightarrow> Inl (HTTPError 401 ''Bearer token required.'' True)
      | Some token \<Rightarrow>
          (case authenticate digest a token of
             None \<Rightarrow> Inl (HTTPError 401 ''Bearer token required.'' True)
           | Some p \<Rightarrow> Inr p))"

definition sorted_scopes :: "scope list \<Rightarrow> string list" where
  "sorted_scopes accepted =
     map scope_value (filter (\<lambda>s. s \<in> set accepted) [TASKS_APPROVE, TASKS_READ, TASKS_WRITE])"

definition requires :: "scope list \<Rightarrow> principal \<Rightarrow> http_error + principal" where
  "requires accepted p =
     (if \<not> holds_any p accepted
      then Inl (http_error 403 (''This token holds none of: '' @ py_join '', '' (sorted_scopes accepted) @ ''.''))
      else Inr p)"

text \<open>The chain every route sits behind: a credential, then a scope.\<close>

definition authorised ::
  "(string \<Rightarrow> string) \<Rightarrow> authenticator \<Rightarrow> scope list \<Rightarrow> string option \<Rightarrow> http_error + principal" where
  "authorised digest a accepted credentials =
     (case current_principal digest a credentials of
        Inl x \<Rightarrow> Inl x
      | Inr p \<Rightarrow> requires accepted p)"


subsection \<open>Lemmas\<close>

lemma holds_any_iff: "holds_any p accepted \<longleftrightarrow> set (scopes p) \<inter> set accepted \<noteq> {}"
  by (auto simp: holds_any_def list_ex_iff)

lemma mk_api_client_ok: "mk_api_client s t sc = Inr c \<Longrightarrow> api_client_ok c"
  by (auto simp: mk_api_client_def api_client_ok_def MIN_TOKEN_LENGTH_def split: if_splits)

text \<open>An issued client's identity is a valid principal: \<open>client.principal\<close> cannot raise.\<close>

lemma client_principal_valid:
  "api_client_ok c \<Longrightarrow> mk_principal (client_subject c) (client_scopes c) = Inr (client_principal c)"
  by (simp add: api_client_ok_def mk_principal_def client_principal_def)

lemma index_clients_get:
  "index_clients digest cs a = Inr a' \<Longrightarrow>
   dict_get a' d = (case find (\<lambda>c. digest (client_token c) = d) cs of
      Some c \<Rightarrow> Some (client_principal c) | None \<Rightarrow> dict_get a d) \<and>
   distinct (map (digest \<circ> client_token) cs) \<and>
   (\<forall>c \<in> set cs. dict_get a (digest (client_token c)) = None)"
proof (induction cs arbitrary: a)
  case Nil
  then show ?case by simp
next
  case (Cons c cs)
  let ?d = "digest (client_token c)"
  have none: "dict_get a ?d = None" and rest: "index_clients digest cs (dict_set ?d (client_principal c) a) = Inr a'"
    using Cons.prems by (auto simp: Let_def split: option.splits)
  note IH = Cons.IH [OF rest]
  have new: "\<forall>x \<in> set cs. digest (client_token x) \<noteq> ?d"
    using IH by (auto simp: dict_get_set split: if_splits)
  then have "find (\<lambda>x. digest (client_token x) = ?d) cs = None"
    by (auto simp: find_None_iff)
  then show ?case
    using IH none new
    by (cases "find (\<lambda>c. digest (client_token c) = d) cs") (auto simp: dict_get_set comp_def split: if_splits)
qed

text \<open>
  What authentication means: a presented token authenticates exactly as the issued client whose
  token has its digest.
\<close>

lemma authenticate_iff:
  assumes "mk_authenticator digest cs = Inr a"
  shows "authenticate digest a presented = Some p \<longleftrightarrow>
    (\<exists>c \<in> set cs. digest (client_token c) = digest presented \<and> p = client_principal c)"
proof -
  note g = index_clients_get [OF assms [unfolded mk_authenticator_def], of "digest presented"]
  show ?thesis
  proof (cases "find (\<lambda>c. digest (client_token c) = digest presented) cs")
    case None
    with g have "dict_get a (digest presented) = None" by simp
    with None show ?thesis by (auto simp: authenticate_def find_None_iff)
  next
    case (Some c)
    then have c: "c \<in> set cs" "digest (client_token c) = digest presented"
      by (auto simp: find_Some_iff)
    have "inj_on (\<lambda>x. digest (client_token x)) (set cs)"
      using g by (simp add: distinct_map comp_def)
    then have same: "x = c" if "x \<in> set cs" "digest (client_token x) = digest presented" for x
      using c that unfolding inj_on_def by metis
    have "authenticate digest a presented = Some (client_principal c)"
      using g Some by (simp add: authenticate_def)
    then show ?thesis using c same by (metis option.inject)
  qed
qed

lemma authorised_Inr:
  "authorised digest a accepted cred = Inr p \<longleftrightarrow>
     (\<exists>token. cred = Some token \<and> authenticate digest a token = Some p) \<and> holds_any p accepted"
  by (auto simp: authorised_def current_principal_def requires_def split: option.splits)

lemma authorised_Inl:
  "authorised digest a accepted cred = Inl x \<Longrightarrow>
     x = HTTPError 401 ''Bearer token required.'' True \<or>
     (\<exists>d. x = http_error 403 d \<and> (\<exists>token p. cred = Some token \<and> authenticate digest a token = Some p \<and>
        \<not> holds_any p accepted))"
  by (auto simp: authorised_def current_principal_def requires_def split: option.splits if_splits)

end
