(* ===== verification/Task_Router.thy ===== *)
theory Task_Router
  imports Runner_Requests Auth
begin

section \<open>The HTTP routes (\<open>tasks/router.py\<close>)\<close>

text \<open>
  Each route is a function of the application's collaborators, the validated request and the world.
  A \<open>Depends(requires(...))\<close> is \<open>guarded\<close>: the handler runs with the authenticated principal or
  not at all. Bodies are checked by their \<open>mk_...\<close> constructor; \<open>extra="forbid"\<close> has no counterpart
  because the record has no further field. \<open>new_id\<close> stands for \<open>uuid4()\<close>.
\<close>

record ('x, 'r) app =
  app_repository :: "'r task_repo"
  app_runner :: "('x, 'r) agent_runner"
  app_policy :: approval_policy
  app_authenticator :: authenticator
  app_digest :: "string \<Rightarrow> string"

text \<open>What a caller presents: the bearer token of the request, if any.\<close>

definition guarded ::
  "('x, 'r) app \<Rightarrow> scope list \<Rightarrow> string option
   \<Rightarrow> (principal \<Rightarrow> ('x, 'r) world \<Rightarrow> (http_error + 'a) \<times> ('x, 'r) world)
   \<Rightarrow> ('x, 'r) world \<Rightarrow> (http_error + 'a) \<times> ('x, 'r) world" where
  "guarded A accepted credentials handler w =
     (case authorised (app_digest A) (app_authenticator A) accepted credentials of
        Inl x \<Rightarrow> (Inl x, w)
      | Inr p \<Rightarrow> handler p w)"


subsection \<open>Bodies and responses\<close>

definition mk_create_task_request :: "string \<Rightarrow> exn + string" where
  "mk_create_task_request g =
     (let s = trim g in
      if s = [] \<or> 4000 < length s then Inl (ValidationError ''goal: length'') else Inr s)"

definition optional_text :: "string option \<Rightarrow> exn + string option" where
  "optional_text t =
     (case t of None \<Rightarrow> Inr None
      | Some s \<Rightarrow> if 1000 < length s then Inl (ValidationError ''max_length'') else Inr (Some s))"

definition mk_cancel_task_request :: "string option \<Rightarrow> exn + string option" where
  "mk_cancel_task_request = optional_text"

definition mk_approve_task_request :: "string option \<Rightarrow> exn + string option" where
  "mk_approve_task_request note = optional_text (map_option trim note)"

definition mk_reject_task_request :: "string option \<Rightarrow> exn + string option" where
  "mk_reject_task_request why = optional_text (map_option trim why)"

record pending_response =
  pr_id :: string
  pr_name :: string
  pr_arguments :: json_object
  pr_risk :: "risk_level option"
  pr_needs_approval :: bool

definition pending_from_domain :: "pending_tool_call \<Rightarrow> pending_response" where
  "pending_from_domain c =
     \<lparr>pr_id = ptc_id c, pr_name = ptc_name c, pr_arguments = ptc_arguments c,
      pr_risk = ptc_risk c, pr_needs_approval = ptc_needs_approval c\<rparr>"

record approval_response =
  ap_task_id :: uuid
  ap_goal :: string
  ap_status :: task_status
  ap_paused_at :: timestamp
  ap_detail :: "string option"
  ap_pending :: "pending_response list"

definition approval_from_domain :: "agent_task \<Rightarrow> pending_tool_call list \<Rightarrow> approval_response" where
  "approval_from_domain t calls =
     \<lparr>ap_task_id = task_id t, ap_goal = goal t, ap_status = status t, ap_paused_at = updated_at t,
      ap_detail = (if history t \<noteq> [] then reason (last (history t)) else None),
      ap_pending = map pending_from_domain calls\<rparr>"

record task_response =
  tr_id :: uuid
  tr_goal :: string
  tr_requested_by :: string
  tr_status :: task_status
  tr_is_terminal :: bool
  tr_version :: int
  tr_created_at :: timestamp
  tr_updated_at :: timestamp
  tr_history :: "status_transition list"

definition task_from_domain :: "agent_task \<Rightarrow> task_response" where
  "task_from_domain t =
     \<lparr>tr_id = task_id t, tr_goal = goal t, tr_requested_by = requested_by t, tr_status = status t,
      tr_is_terminal = is_terminal t, tr_version = version t, tr_created_at = created_at t,
      tr_updated_at = updated_at t, tr_history = history t\<rparr>"

record run_response =
  rn_task :: task_response
  rn_output :: string
  rn_detail :: string
  rn_steps :: int
  rn_tool_calls :: int
  rn_input_tokens :: int
  rn_output_tokens :: int
  rn_pending :: "string list"

definition run_from_domain :: "run_result \<Rightarrow> run_response" where
  "run_from_domain r =
     \<lparr>rn_task = task_from_domain (rr_task r), rn_output = rr_output r, rn_detail = rr_detail r,
      rn_steps = rr_steps r, rn_tool_calls = rr_tool_calls r,
      rn_input_tokens = input_tokens (rr_usage r), rn_output_tokens = output_tokens (rr_usage r),
      rn_pending = map call_name (rr_pending_calls r)\<rparr>"


subsection \<open>The \<open>except\<close> clauses\<close>

definition not_found :: "exn \<Rightarrow> http_error" where
  "not_found x = (case x of TaskNotFoundError _ \<Rightarrow> http_error 404 (exn_str x) | _ \<Rightarrow> Unhandled x)"

definition lifecycle_failure :: "exn \<Rightarrow> http_error" where
  "lifecycle_failure x =
     (case x of
        InvalidTransitionError _ _ \<Rightarrow> http_error 409 (exn_str x)
      | ConcurrentUpdateError _ _ _ \<Rightarrow> http_error 409 (exn_str x)
      | _ \<Rightarrow> not_found x)"

definition resume_failure :: "exn \<Rightarrow> http_error" where
  "resume_failure x =
     (case x of
        NotResumableError _ \<Rightarrow> http_error 409 (exn_str x)
      | _ \<Rightarrow> lifecycle_failure x)"


subsection \<open>The routes\<close>

definition create_task ::
  "('x, 'r) app \<Rightarrow> 'r env \<Rightarrow> uuid \<Rightarrow> string \<Rightarrow> principal \<Rightarrow> ('x, 'r) world
   \<Rightarrow> (http_error + task_response) \<times> ('x, 'r) world" where
  "create_task A e new_id body_goal p w =
     (case create new_id body_goal (subject p) (now e w) of
        Inl x \<Rightarrow> (Inl (Unhandled x), w)
      | Inr t \<Rightarrow>
          (case await_add (app_repository A) e t w of
             (Inl x, w1) \<Rightarrow> (Inl (Unhandled x), w1)
           | (Inr _, w1) \<Rightarrow> (Inr (task_from_domain t), w1)))"

definition list_tasks ::
  "('x, 'r) app \<Rightarrow> 'r env \<Rightarrow> task_status option \<Rightarrow> int \<Rightarrow> principal \<Rightarrow> ('x, 'r) world
   \<Rightarrow> (http_error + task_response list) \<times> ('x, 'r) world" where
  "list_tasks A e st limit p w =
     (if limit < 1 \<or> 200 < limit then (Inl (http_error 422 ''limit''), w)
      else let w1 = await e w in
      (case repo_list_tasks (app_repository A) st limit (store w1) of
         Inl x \<Rightarrow> (Inl (Unhandled x), w1)
       | Inr ts \<Rightarrow> (Inr (map task_from_domain ts), w1)))"

definition get_task ::
  "('x, 'r) app \<Rightarrow> 'r env \<Rightarrow> uuid \<Rightarrow> principal \<Rightarrow> ('x, 'r) world
   \<Rightarrow> (http_error + task_response) \<times> ('x, 'r) world" where
  "get_task A e i p w =
     (case await_get (app_repository A) e i w of
        (Inl x, w1) \<Rightarrow> (Inl (not_found x), w1)
      | (Inr t, w1) \<Rightarrow> (Inr (task_from_domain t), w1))"

definition run_task ::
  "('x, 'r) app \<Rightarrow> 'r env \<Rightarrow> uuid \<Rightarrow> principal \<Rightarrow> ('x, 'r) world
   \<Rightarrow> (http_error + run_response) \<times> ('x, 'r) world" where
  "run_task A e i p w =
     (case run (app_runner A) e i w of
        (Inl x, w1) \<Rightarrow> (Inl (lifecycle_failure x), w1)
      | (Inr r, w1) \<Rightarrow> (Inr (run_from_domain r), w1))"

definition get_approval ::
  "('x, 'r) app \<Rightarrow> 'r env \<Rightarrow> uuid \<Rightarrow> principal \<Rightarrow> ('x, 'r) world
   \<Rightarrow> (http_error + approval_response) \<times> ('x, 'r) world" where
  "get_approval A e i p w =
     (case await_get (app_repository A) e i w of
        (Inl x, w1) \<Rightarrow> (Inl (not_found x), w1)
      | (Inr t, w1) \<Rightarrow>
          if status t \<noteq> AWAITING_APPROVAL
          then (Inl (http_error 409 (''task '' @ quoted (uuid_str i) @ '' is '' @
                  quoted (status_value (status t)) @ '', not awaiting approval'')), w1)
          else (Inr (approval_from_domain t (pending_approval (app_runner A) t)), w1))"

definition approve_task ::
  "('x, 'r) app \<Rightarrow> 'r env \<Rightarrow> uuid \<Rightarrow> string option \<Rightarrow> principal \<Rightarrow> ('x, 'r) world
   \<Rightarrow> (http_error + run_response) \<times> ('x, 'r) world" where
  "approve_task A e i note p w =
     (case await_get (app_repository A) e i w of
        (Inl x, w1) \<Rightarrow> (Inl (not_found x), w1)
      | (Inr t, w1) \<Rightarrow>
          if \<not> may_approve (app_policy A) p (requested_by t)
          then (Inl (http_error 403
                  ''A task must be approved by someone other than the subject that requested it.''), w1)
          else
            (case resume (app_runner A) e i (subject p) note w1 of
               (Inl x, w2) \<Rightarrow> (Inl (resume_failure x), w2)
             | (Inr r, w2) \<Rightarrow> (Inr (run_from_domain r), w2)))"

definition reject_task ::
  "('x, 'r) app \<Rightarrow> 'r env \<Rightarrow> uuid \<Rightarrow> string option \<Rightarrow> principal \<Rightarrow> ('x, 'r) world
   \<Rightarrow> (http_error + task_response) \<times> ('x, 'r) world" where
  "reject_task A e i why p w =
     (case reject (app_runner A) e i (subject p) why w of
        (Inl x, w1) \<Rightarrow> (Inl (lifecycle_failure x), w1)
      | (Inr t, w1) \<Rightarrow> (Inr (task_from_domain t), w1))"

definition cancel_task ::
  "('x, 'r) app \<Rightarrow> 'r env \<Rightarrow> uuid \<Rightarrow> string option \<Rightarrow> principal \<Rightarrow> ('x, 'r) world
   \<Rightarrow> (http_error + task_response) \<times> ('x, 'r) world" where
  "cancel_task A e i why p w =
     (case transition_task (app_repository A) e i CANCELLED
             (Some (with_note (''cancelled by '' @ subject p) why)) None None w of
        (Inl x, w1) \<Rightarrow> (Inl (lifecycle_failure x), w1)
      | (Inr t, w1) \<Rightarrow> (Inr (task_from_domain t), w1))"


subsection \<open>Requests: method, path and body, with their scopes\<close>

datatype request =
    CreateTask uuid string
  | ListTasks "task_status option" int
  | GetTask uuid
  | RunTask uuid
  | GetApproval uuid
  | ApproveTask uuid "string option"
  | RejectTask uuid "string option"
  | CancelTask uuid "string option"

datatype response =
    TaskBody int task_response \<comment> \<open>status code and body\<close>
  | TaskListBody "task_response list"
  | RunBody run_response
  | ApprovalBody approval_response

fun required_scopes :: "request \<Rightarrow> scope list" where
  "required_scopes (CreateTask _ _) = [TASKS_WRITE]"
| "required_scopes (ListTasks _ _) = [TASKS_READ]"
| "required_scopes (GetTask _) = [TASKS_READ]"
| "required_scopes (RunTask _) = [TASKS_WRITE]"
| "required_scopes (GetApproval _) = [TASKS_READ, TASKS_APPROVE]"
| "required_scopes (ApproveTask _ _) = [TASKS_APPROVE]"
| "required_scopes (RejectTask _ _) = [TASKS_APPROVE]"
| "required_scopes (CancelTask _ _) = [TASKS_WRITE]"

definition unprocessable :: "exn \<Rightarrow> http_error" where
  "unprocessable x = http_error 422 (exn_str x)"

text \<open>The handler of a request, its body validated first.\<close>

fun handle ::
  "('x, 'r) app \<Rightarrow> 'r env \<Rightarrow> request \<Rightarrow> principal \<Rightarrow> ('x, 'r) world
   \<Rightarrow> (http_error + response) \<times> ('x, 'r) world" where
  "handle A e (CreateTask new_id g) p w =
     (case mk_create_task_request g of Inl x \<Rightarrow> (Inl (unprocessable x), w)
      | Inr b \<Rightarrow> map_prod (map_sum id (TaskBody 201)) id (create_task A e new_id b p w))"
| "handle A e (ListTasks st n) p w = map_prod (map_sum id TaskListBody) id (list_tasks A e st n p w)"
| "handle A e (GetTask i) p w = map_prod (map_sum id (TaskBody 200)) id (get_task A e i p w)"
| "handle A e (RunTask i) p w = map_prod (map_sum id RunBody) id (run_task A e i p w)"
| "handle A e (GetApproval i) p w = map_prod (map_sum id ApprovalBody) id (get_approval A e i p w)"
| "handle A e (ApproveTask i b) p w =
     (case mk_approve_task_request b of Inl x \<Rightarrow> (Inl (unprocessable x), w)
      | Inr n \<Rightarrow> map_prod (map_sum id RunBody) id (approve_task A e i n p w))"
| "handle A e (RejectTask i b) p w =
     (case mk_reject_task_request b of Inl x \<Rightarrow> (Inl (unprocessable x), w)
      | Inr n \<Rightarrow> map_prod (map_sum id (TaskBody 200)) id (reject_task A e i n p w))"
| "handle A e (CancelTask i b) p w =
     (case mk_cancel_task_request b of Inl x \<Rightarrow> (Inl (unprocessable x), w)
      | Inr n \<Rightarrow> map_prod (map_sum id (TaskBody 200)) id (cancel_task A e i n p w))"

definition serve ::
  "('x, 'r) app \<Rightarrow> 'r env \<Rightarrow> string option \<Rightarrow> request \<Rightarrow> ('x, 'r) world
   \<Rightarrow> (http_error + response) \<times> ('x, 'r) world" where
  "serve A e credentials req w = guarded A (required_scopes req) credentials (handle A e req) w"

end
