(* ===== verification/Router_Correct.thy ===== *)
theory Router_Correct
  imports Task_Router
begin

section \<open>What the HTTP surface guarantees\<close>

text \<open>
  Nothing happens without a credential of the right scope; whatever is asked, the store changes
  only by legal transitions and new tasks; every failure has its status code; a release of held
  calls is the decision of a second person; who did what is recorded from the credential.
\<close>

lemma serve_cases:
  assumes "serve A e cred req w = (out, w')"
  obtains
    (denied) x where "authorised (app_digest A) (app_authenticator A) (required_scopes req) cred = Inl x"
      "out = Inl x" "w' = w"
  | (admitted) p where "authorised (app_digest A) (app_authenticator A) (required_scopes req) cred = Inr p"
      "handle A e req p w = (out, w')"
  using assms by (auto simp: serve_def guarded_def split: sum.splits)

lemma map_prod_sum_eq:
  "map_prod (map_sum id f) id res = (out, w') \<longleftrightarrow> (\<exists>r. res = (r, w') \<and> map_sum id f r = out)"
  by (cases res) auto

lemma map_sum_eq_Inl: "map_sum f g r = Inl x \<longleftrightarrow> (\<exists>y. r = Inl y \<and> x = f y)"
  by (cases r) auto

lemma map_sum_eq_Inr: "map_sum f g r = Inr x \<longleftrightarrow> (\<exists>y. r = Inr y \<and> x = g y)"
  by (cases r) auto

text \<open>\<open>mapped x\<close>: the failure is one the routes answer on purpose.\<close>

fun mapped :: "http_error \<Rightarrow> bool" where
  "mapped (HTTPError code d b) \<longleftrightarrow> code \<in> {401, 403, 404, 409, 422}"
| "mapped (Unhandled x) \<longleftrightarrow> False"

lemma approve_cases:
  assumes "approve_task A e i note p w = (out, w')"
  obtains
    (missing) x where "repo_get (app_repository A) i (store (await e w)) = Inl x"
      "out = Inl (not_found x)" "w' = await e w"
  | (forbidden) t where "repo_get (app_repository A) i (store (await e w)) = Inr t"
      "\<not> may_approve (app_policy A) p (requested_by t)" "w' = await e w"
      "out = Inl (http_error 403
         ''A task must be approved by someone other than the subject that requested it.'')"
  | (resumed) t r where "repo_get (app_repository A) i (store (await e w)) = Inr t"
      "may_approve (app_policy A) p (requested_by t)"
      "resume (app_runner A) e i (subject p) note (await e w) = (r, w')"
      "out = map_sum resume_failure run_from_domain r"
proof (cases "repo_get (app_repository A) i (store (await e w))")
  case (Inl x)
  show thesis
    by (rule missing [OF Inl]) (use assms Inl in \<open>auto simp: approve_task_def await_get_def Let_def\<close>)
next
  case (Inr t)
  show thesis
  proof (cases "may_approve (app_policy A) p (requested_by t)")
    case False
    show thesis
      by (rule forbidden [OF Inr False]) (use assms Inr False in \<open>auto simp: approve_task_def await_get_def Let_def\<close>)
  next
    case True
    obtain r w1 where run: "resume (app_runner A) e i (subject p) note (await e w) = (r, w1)"
      by (metis surj_pair)
    then have "w' = w1 \<and> out = map_sum resume_failure run_from_domain r"
      using assms Inr True by (cases r) (auto simp: approve_task_def await_get_def Let_def)
    with resumed Inr True run show thesis by blast
  qed
qed

lemma run_task_eq:
  "run_task A e i p w = (case run (app_runner A) e i w of (r, w1) \<Rightarrow> (map_sum lifecycle_failure run_from_domain r, w1))"
  by (simp add: run_task_def split: prod.split sum.split)

lemma reject_task_eq:
  "reject_task A e i why p w =
     (case reject (app_runner A) e i (subject p) why w of (r, w1) \<Rightarrow> (map_sum lifecycle_failure task_from_domain r, w1))"
  by (simp add: reject_task_def split: prod.split sum.split)

lemma cancel_task_eq:
  "cancel_task A e i why p w =
     (case transition_task (app_repository A) e i CANCELLED
        (Some (with_note (''cancelled by '' @ subject p) why)) None None w of
      (r, w1) \<Rightarrow> (map_sum lifecycle_failure task_from_domain r, w1))"
  by (simp add: cancel_task_def split: prod.split sum.split)

lemma get_task_eq:
  "get_task A e i p w =
     (map_sum not_found task_from_domain (repo_get (app_repository A) i (store (await e w))), await e w)"
  by (simp add: get_task_def await_get_def Let_def split: sum.split)

context task_repository
begin

definition app_ok :: "('x, 'r) app \<Rightarrow> bool" where
  "app_ok A \<longleftrightarrow> app_repository A = R \<and> runner_repo (app_runner A) = R"

subsection \<open>Every request is a fair writer\<close>

definition fair_write :: "('x, 'r) world \<Rightarrow> ('x, 'r) world \<Rightarrow> bool" where
  "fair_write w w' \<longleftrightarrow>
     (invar (store w) \<longrightarrow> invar (store w') \<and> repo_evolves lookup (store w) (store w')) \<and>
     (state_ok w \<longrightarrow> state_ok w')"

lemma fair_write_refl: "fair_write w w"
  by (simp add: fair_write_def)

lemma fair_write_trans: "fair_write w1 w2 \<Longrightarrow> fair_write w2 w3 \<Longrightarrow> fair_write w1 w3"
  by (auto simp: fair_write_def elim: repo_evolves_trans)

lemma fair_write_await: "fair_env lookup invar e \<Longrightarrow> fair_write w (await e w)"
  by (simp add: fair_write_def state_ok_def await_ok)

lemma fair_write_transition:
  assumes "fair_env lookup invar e" "transition_task R e i target why None expected w = (out, w')"
  shows "fair_write w w'"
  using transition_task_guarantee [OF assms(1) _ assms(2)] transition_task_keeps_ok [OF assms(1) _ _ assms(2)]
  by (auto simp: fair_write_def)

lemma fair_write_run:
  assumes "runner_repo D = R" "fair_env lookup invar e" "run D e i w = (out, w')"
  shows "fair_write w w'"
  using guaranteedD [OF guarantee.G_run [OF assms(3)] assms(1,2)] run_keeps_ok [OF assms(1,2) _ assms(3)]
  by (simp add: fair_write_def)

lemma fair_write_resume:
  assumes "runner_repo D = R" "fair_env lookup invar e" "resume D e i who note w = (out, w')"
  shows "fair_write w w'"
  using resume_guarantee [OF assms(1,2) _ assms(3)] resume_requests(2) [OF assms(1,2) _ assms(3)]
  by (simp add: fair_write_def)

lemma fair_write_reject:
  assumes "runner_repo D = R" "fair_env lookup invar e" "reject D e i who why w = (out, w')"
  shows "fair_write w w'"
  using guaranteedD [OF guarantee.G_reject [OF assms(3)] assms(1,2)] reject_keeps_ok [OF assms(1,2) _ assms(3)]
  by (simp add: fair_write_def)

lemma add_outcome:
  assumes "invar r"
  shows "(\<exists>x. repo_add R t r = Inl x) \<or>
    (\<exists>r'. repo_add R t r = Inr r' \<and> invar r' \<and> lookup r (task_id t) = None \<and>
      lookup r' = (lookup r)(task_id t \<mapsto> stored t))"
proof (cases "storable t")
  case False
  then show ?thesis using add_refused [OF assms] by blast
next
  case True
  show ?thesis
  proof (cases "lookup r (task_id t)")
    case None
    then show ?thesis using add_new [OF assms True] by blast
  next
    case (Some c)
    then show ?thesis using add_existing [OF assms True Some] by blast
  qed
qed

lemma fair_write_create:
  assumes fair: "fair_env lookup invar e" and A: "app_ok A"
    and run: "create_task A e new_id g p w = (out, w')"
  shows "fair_write w w'"
proof (cases "create new_id g (subject p) (now e w)")
  case (Inl x)
  then show ?thesis using run by (simp add: create_task_def fair_write_refl)
next
  case (Inr t)
  have ok: "task_ok (stored t)" using create_ok [OF Inr] stored_ok by blast
  have "fair_write (await e w) w'"
  proof (cases "invar (store (await e w))")
    case False
    then show ?thesis by (simp add: fair_write_def state_ok_def)
  next
    case True
    from add_outcome [OF this, of t] show ?thesis
    proof (elim disjE exE conjE)
      fix x assume "repo_add R t (store (await e w)) = Inl x"
      then show ?thesis
        using run Inr A by (simp add: create_task_def await_add_def app_ok_def Let_def fair_write_refl)
    next
      fix r assume r: "repo_add R t (store (await e w)) = Inr r" "invar r"
        "lookup (store (await e w)) (task_id t) = None"
        "lookup r = (lookup (store (await e w)))(task_id t \<mapsto> stored t)"
      then have "store w' = r"
        using run Inr A by (auto simp: create_task_def await_add_def app_ok_def Let_def)
      with r ok show ?thesis
        by (auto simp: fair_write_def state_ok_def repo_evolves_def all_tasks_ok_def)
    qed
  qed
  with fair_write_await [OF fair] show ?thesis by (rule fair_write_trans)
qed

lemma fair_write_handle:
  assumes fair: "fair_env lookup invar e" and A: "app_ok A" and run: "handle A e req p w = (out, w')"
  shows "fair_write w w'"
proof -
  have repos: "app_repository A = R" "runner_repo (app_runner A) = R"
    using A by (simp_all add: app_ok_def)
  note step = fair_write_refl fair_write_await [OF fair] fair_write_create [OF fair A]
  show ?thesis
  proof (cases req)
    case (CreateTask new_id g)
    then show ?thesis
      using run step by (auto simp: map_prod_sum_eq split: sum.splits)
  next
    case (ListTasks st n)
    then show ?thesis
      using run step
      by (auto simp: map_prod_sum_eq list_tasks_def Let_def split: sum.splits if_splits)
  next
    case (GetTask i)
    then show ?thesis
      using run step by (auto simp: map_prod_sum_eq get_task_eq)
  next
    case (RunTask i)
    then show ?thesis
      using run fair_write_run [OF repos(2) fair] by (auto simp: map_prod_sum_eq run_task_eq split: prod.splits)
  next
    case (GetApproval i)
    then show ?thesis
      using run step
      by (auto simp: map_prod_sum_eq get_approval_def await_get_def Let_def split: sum.splits if_splits)
  next
    case (ApproveTask i b)
    have "fair_write w v" if "approve_task A e i n p w = (o', v)" for n o' v
      using that
    proof (cases rule: approve_cases)
      case resumed
      show ?thesis
        by (rule fair_write_trans [OF fair_write_await [OF fair] fair_write_resume [OF repos(2) fair resumed(3)]])
    qed (use step in simp_all)
    with ApproveTask run step(1) show ?thesis
      by (auto simp: map_prod_sum_eq split: sum.splits)
  next
    case (RejectTask i b)
    then show ?thesis
      using run step(1) fair_write_reject [OF repos(2) fair]
      by (auto simp: map_prod_sum_eq reject_task_eq split: prod.splits sum.splits)
  next
    case (CancelTask i b)
    then show ?thesis
      using run step(1) fair_write_transition [OF fair] repos(1)
      by (auto simp: map_prod_sum_eq cancel_task_eq split: prod.splits sum.splits)
  qed
qed

lemma fair_write_serve:
  assumes "fair_env lookup invar e" "app_ok A" "serve A e cred req w = (out, w')"
  shows "fair_write w w'"
  using assms(3) by (cases rule: serve_cases)
     (use fair_write_refl fair_write_handle [OF assms(1,2)] in auto)


subsection \<open>Failures\<close>

lemma run_task_mapped:
  assumes A: "app_ok A" "runner_ok (app_runner A)" and fair: "fair_env lookup invar e"
    and inv: "invar (store w)" and storable: "\<And>t. storable t"
    and run: "run_task A e i p w = (Inl x, w')"
  shows "mapped x"
proof -
  obtain y where y: "run (app_runner A) e i w = (Inl y, w')" "x = lifecycle_failure y"
    using run by (auto simp: run_task_eq map_sum_eq_Inl split: prod.splits)
  have D: "runner_repo (app_runner A) = R" using A(1) by (simp add: app_ok_def)
  from run_errors [OF D A(2) fair inv storable y(1)] y(2) show ?thesis
    by (auto simp: lifecycle_failure_def not_found_def)
qed

lemma approve_task_mapped:
  assumes A: "app_ok A" "runner_ok (app_runner A)" and fair: "fair_env lookup invar e"
    and ok: "state_ok w" and storable: "\<And>t. storable t"
    and run: "approve_task A e i note p w = (Inl x, w')"
  shows "mapped x"
  using run
proof (cases rule: approve_cases)
  case (missing y)
  have "invar (store w)" using ok by (simp add: state_ok_def)
  with missing A(1) get_Inl [OF await_ok(1) [OF fair this], of i y] show ?thesis
    by (simp add: app_ok_def not_found_def)
next
  case forbidden
  then show ?thesis by (simp add: mapped.simps)
next
  case (resumed t r)
  then obtain y where y: "r = Inl y" "x = resume_failure y" by (cases r) auto
  have D: "runner_repo (app_runner A) = R" using A(1) by (simp add: app_ok_def)
  have "invar (store (await e w))" "all_tasks_ok lookup (store (await e w))"
    using ok await_ok [OF fair, of w] by (simp_all add: state_ok_def)
  from resume_errors [OF D A(2) fair this storable resumed(3) [unfolded y(1)]] y(2) show ?thesis
    by (auto simp: resume_failure_def lifecycle_failure_def not_found_def)
qed

lemma trim_subject: "valid_subject s \<Longrightarrow> trim s = s \<and> s \<noteq> [] \<and> length s \<le> 256"
proof -
  assume s: "valid_subject s"
  have "\<not> is_white c" if "is_subject_char c" for c
    using that by (auto simp: is_subject_char_def char_simps is_white_def Let_def)
  then have "list_all (\<lambda>c. \<not> is_white c) s"
    using s by (auto simp: valid_subject_def matches_class_def list_all_iff)
  with s show ?thesis by (auto simp: trim_no_white valid_subject_def matches_class_def)
qed

text \<open>A validated goal and a valid subject always make a task.\<close>

lemma create_task_created:
  assumes body: "mk_create_task_request g = Inr b" and p: "valid_subject (subject p)"
  shows "create new_id b (subject p) at = Inr \<lparr>task_id = new_id, goal = b, requested_by = subject p,
     status = PENDING, version = 1, created_at = at, updated_at = at, history = [], checkpoint = None\<rparr>"
  using body trim_subject [OF p]
  by (auto simp: create_eq mk_create_task_request_def Let_def split: if_splits)

lemma create_task_adds:
  assumes A: "app_ok A" and fair: "fair_env lookup invar e" and inv: "invar (store w)"
    and body: "mk_create_task_request g = Inr b" and p: "valid_subject (subject p)"
    and storable: "\<And>t. storable t" and fresh: "lookup (store (await e w)) new_id = None"
  shows "\<exists>t w'. create_task A e new_id b p w = (Inr (task_from_domain t), w') \<and> task_id t = new_id \<and>
    goal t = b \<and> requested_by t = subject p \<and> status t = PENDING \<and> version t = 1 \<and> history t = [] \<and>
    lookup (store w') = (lookup (store (await e w)))(new_id \<mapsto> stored t) \<and> event_trace w' = event_trace w"
proof -
  let ?t = "\<lparr>task_id = new_id, goal = b, requested_by = subject p, status = PENDING, version = 1,
    created_at = now e w, updated_at = now e w, history = [], checkpoint = None\<rparr>"
  have t: "create new_id b (subject p) (now e w) = Inr ?t"
    by (rule create_task_created [OF body p])
  obtain r where r: "repo_add R ?t (store (await e w)) = Inr r" "lookup r = (lookup (store (await e w)))(new_id \<mapsto> stored ?t)"
    using add_new [OF await_ok(1) [OF fair inv] storable, of ?t] fresh by auto
  have "create_task A e new_id b p w = (Inr (task_from_domain ?t), (await e w)\<lparr>store := r\<rparr>)"
    using t r(1) A by (simp add: create_task_def await_add_def app_ok_def Let_def)
  with r(2) show ?thesis
    by (intro exI [of _ ?t] exI [of _ "(await e w)\<lparr>store := r\<rparr>"]) simp
qed

lemma reject_task_mapped:
  assumes A: "app_ok A" and fair: "fair_env lookup invar e"
    and inv: "invar (store w)" and storable: "\<And>t. storable t"
    and run: "reject_task A e i why p w = (Inl x, w')"
  shows "mapped x"
proof -
  have D: "runner_repo (app_runner A) = R" using A(1) by (simp add: app_ok_def)
  obtain y where y: "reject (app_runner A) e i (subject p) why w = (Inl y, w')" "x = lifecycle_failure y"
    using run by (auto simp: reject_task_eq map_sum_eq_Inl split: prod.splits)
  obtain res w1 where rp: "require_paused (app_runner A) e i w = (res, w1)" by (metis surj_pair)
  show ?thesis
  proof (cases res)
    case (Inl z)
    then have "z = y" using y(1) rp by (simp add: reject_def)
    with require_paused_Inl [OF D fair inv rp [unfolded Inl]] y(2) show ?thesis
      by (auto simp: lifecycle_failure_def not_found_def)
  next
    case (Inr t)
    note t = require_paused_Inr [OF D fair inv rp [unfolded Inr]]
    have inv1: "invar (store w1)" using await_ok(1) [OF fair inv] t(1) by simp
    have "transition_task R e i CANCELLED (Some (with_note (''rejected by '' @ subject p) why)) None
        (Some (version t)) w1 = (Inl y, w')"
      using y(1) rp Inr D by (simp add: reject_def)
    from transition_task_errors [OF fair inv1 this _ storable] y(2) show ?thesis
      by (auto simp: lifecycle_failure_def not_found_def)
  qed
qed

lemma cancel_task_mapped:
  assumes A: "app_ok A" and fair: "fair_env lookup invar e"
    and inv: "invar (store w)" and storable: "\<And>t. storable t"
    and run: "cancel_task A e i why p w = (Inl x, w')"
  shows "mapped x"
proof -
  obtain y where y: "transition_task R e i CANCELLED (Some (with_note (''cancelled by '' @ subject p) why))
      None None w = (Inl y, w')" "x = lifecycle_failure y"
    using run A by (auto simp: cancel_task_eq map_sum_eq_Inl app_ok_def split: prod.splits)
  from transition_task_errors [OF fair inv y(1) _ storable] y(2) show ?thesis
    by (auto simp: lifecycle_failure_def not_found_def)
qed

text \<open>No request to a working application is answered with an unhandled exception.\<close>

lemma handle_mapped:
  assumes A: "app_ok A" "runner_ok (app_runner A)" and fair: "fair_env lookup invar e"
    and ok: "state_ok w" and storable: "\<And>t. storable t" and p: "valid_subject (subject p)"
    and fresh: "\<And>new_id g. req = CreateTask new_id g \<Longrightarrow> lookup (store (await e w)) new_id = None"
    and run: "handle A e req p w = (Inl x, w')"
  shows "mapped x"
proof -
  have inv: "invar (store w)" using ok by (simp add: state_ok_def)
  note inv1 = await_ok(1) [OF fair inv]
  have R: "app_repository A = R" using A(1) by (simp add: app_ok_def)
  have 422: "mapped (unprocessable y)" for y by (simp add: unprocessable_def)
  have 404: "mapped (not_found y)" if "repo_get R i (store (await e w)) = Inl y" for i y
    using that get_Inl [OF inv1, of i y] by (simp add: not_found_def)
  show ?thesis
  proof (cases req)
    case (CreateTask new_id g)
    show ?thesis
    proof (cases "mk_create_task_request g")
      case Inl
      with CreateTask run 422 show ?thesis by auto
    next
      case (Inr b)
      from create_task_adds [OF A(1) fair inv Inr p storable fresh [OF CreateTask]] run CreateTask Inr
      show ?thesis by (auto simp: map_prod_sum_eq)
    qed
  next
    case (ListTasks st n)
    have "\<exists>ts. repo_list_tasks R st n (store (await e w)) = Inr ts" if "1 \<le> n" "n \<le> 200"
      using list_law [OF inv1, of n st] that by auto
    with ListTasks run R show ?thesis
      by (auto simp: map_prod_sum_eq map_sum_eq_Inl list_tasks_def Let_def split: if_splits sum.splits)
  next
    case (GetTask i)
    with run R 404 show ?thesis by (auto simp: map_prod_sum_eq map_sum_eq_Inl get_task_eq)
  next
    case (RunTask i)
    with run run_task_mapped [OF A fair inv storable] show ?thesis
      by (auto simp: map_prod_sum_eq map_sum_eq_Inl)
  next
    case (GetApproval i)
    with run R 404 show ?thesis
      by (auto simp: map_prod_sum_eq map_sum_eq_Inl get_approval_def await_get_def Let_def
               split: sum.splits if_splits)
  next
    case (ApproveTask i b)
    with run 422 approve_task_mapped [OF A fair ok storable] show ?thesis
      by (auto simp: map_prod_sum_eq map_sum_eq_Inl split: sum.splits)
  next
    case (RejectTask i b)
    with run 422 reject_task_mapped [OF A(1) fair inv storable] show ?thesis
      by (auto simp: map_prod_sum_eq map_sum_eq_Inl split: sum.splits)
  next
    case (CancelTask i b)
    with run 422 cancel_task_mapped [OF A(1) fair inv storable] show ?thesis
      by (auto simp: map_prod_sum_eq map_sum_eq_Inl split: sum.splits)
  qed
qed


subsection \<open>Who released what\<close>

text \<open>
  A handler of a gated tool ran while a request was served: the request was an approval, its
  principal holds the scope, is somebody else than the requester where the policy asks for it, and
  the call is one of those the stored task was holding.
\<close>

lemma approve_released:
  assumes A: "app_ok A" and fair: "fair_env lookup invar e" and inv: "invar (store w)"
    and run: "approve_task A e i note p w = (out, w')"
    and ran: "HandlerRun c \<in> set (drop (length (event_trace w)) (event_trace w'))"
    and gated: "needs_approval (app_runner A) c"
  shows "\<exists>paused cp r. repo_evolves lookup (store w) r \<and> lookup r i = Some paused \<and>
     status paused = AWAITING_APPROVAL \<and> checkpoint paused = Some cp \<and> c \<in> set (pending_calls cp) \<and>
     may_approve (app_policy A) p (requested_by paused)"
  using run
proof (cases rule: approve_cases)
  case (resumed t r)
  have repos: "app_repository A = R" "runner_repo (app_runner A) = R"
    using A by (simp_all add: app_ok_def)
  note a = await_ok [OF fair inv]
  note a2 = await_ok [OF fair a(1)]
  have t: "lookup (store (await e w)) i = Some t"
    using resumed(1) get_Inr [OF a(1)] repos(1) by simp
  from repos(2) fair a(1) resumed(3) show ?thesis
  proof (rule resume_release)
    assume "event_trace w' = event_trace (await e w)"
    then show ?thesis using ran by simp
  next
    fix paused cp js evs
    assume p: "lookup (store (await e (await e w))) i = Some paused" "status paused = AWAITING_APPROVAL"
        "checkpoint paused = Some cp"
      and tr: "event_trace w' = event_trace (await e w) @ map (\<lambda>j. HandlerRun (pending_calls cp ! j)) js @ evs"
      and js: "set js \<subseteq> {0..<length (pending_calls cp)}" and un: "unattended_events (app_runner A) evs"
    have "HandlerRun c \<in> set (map (\<lambda>j. HandlerRun (pending_calls cp ! j)) js)"
      using ran tr un gated by (auto simp: unattended_events_def)
    then have c: "c \<in> set (pending_calls cp)" using js by auto
    obtain q where "lookup (store (await e (await e w))) i = Some q" "evolves t q"
      using repo_evolvesD [OF a2(2) t] by blast
    then have "requested_by paused = requested_by t"
      using p(1) evolves_identity by (auto simp: same_identity_def)
    moreover have "repo_evolves lookup (store w) (store (await e (await e w)))"
      using a(2) a2(2) by (rule repo_evolves_trans)
    ultimately show ?thesis
      using p c resumed(2) by (intro exI [of _ paused] exI [of _ cp] exI conjI) auto
  qed
qed (use ran in simp_all)

lemma serve_released:
  assumes A: "app_ok A" and fair: "fair_env lookup invar e" and inv: "invar (store w)"
    and run: "serve A e cred req w = (out, w')"
    and ran: "HandlerRun c \<in> set (drop (length (event_trace w)) (event_trace w'))"
    and gated: "needs_approval (app_runner A) c"
  shows "\<exists>i body token p paused cp r. req = ApproveTask i body \<and>
     cred = Some token \<and> authenticate (app_digest A) (app_authenticator A) token = Some p \<and>
     TASKS_APPROVE \<in> set (scopes p) \<and> may_approve (app_policy A) p (requested_by paused) \<and>
     repo_evolves lookup (store w) r \<and> lookup r i = Some paused \<and>
     status paused = AWAITING_APPROVAL \<and> checkpoint paused = Some cp \<and> c \<in> set (pending_calls cp)"
  using run
proof (cases rule: serve_cases)
  case denied
  then show ?thesis using ran by simp
next
  case (admitted p)
  have quiet: "event_trace w' \<noteq> event_trace w" using ran by auto
  have repos: "app_repository A = R" "runner_repo (app_runner A) = R"
    using A by (simp_all add: app_ok_def)
  have approve: "\<exists>i body n out1. req = ApproveTask i body \<and> approve_task A e i n p w = (out1, w')"
  proof (cases req)
    case (RunTask i)
    then obtain res where res: "run (app_runner A) e i w = (res, w')"
      using admitted(2) by (auto simp: map_prod_sum_eq run_task_eq split: prod.splits)
    obtain evs where "event_trace w' = event_trace w @ evs" "unattended_events (app_runner A) evs"
      using trace.G_run [OF res] by (auto simp: extends_unattended_def)
    with ran gated show ?thesis by (auto simp: unattended_events_def)
  next
    case (CreateTask new_id g)
    with admitted(2) quiet show ?thesis
      by (auto simp: map_prod_sum_eq create_task_def await_add_def Let_def split: sum.splits)
  next
    case (ListTasks st n)
    with admitted(2) quiet show ?thesis
      by (auto simp: map_prod_sum_eq list_tasks_def Let_def split: sum.splits if_splits)
  next
    case (GetTask i)
    with admitted(2) quiet show ?thesis by (auto simp: map_prod_sum_eq get_task_eq)
  next
    case (GetApproval i)
    with admitted(2) quiet show ?thesis
      by (auto simp: map_prod_sum_eq get_approval_def await_get_def Let_def split: sum.splits if_splits)
  next
    case (RejectTask i b)
    obtain n res where "reject (app_runner A) e i (subject p) n w = (res, w') \<or> w' = w"
      using RejectTask admitted(2) by (auto simp: map_prod_sum_eq reject_task_eq split: prod.splits sum.splits)
    then obtain evs where "event_trace w' = event_trace w @ evs" "unattended_events (app_runner A) evs"
      using trace.G_reject trace.G_refl by (fastforce simp: extends_unattended_def)
    with ran gated show ?thesis by (auto simp: unattended_events_def)
  next
    case (CancelTask i b)
    with admitted(2) quiet show ?thesis
      by (auto simp: map_prod_sum_eq cancel_task_eq dest!: transition_task_outside(2) split: prod.splits sum.splits)
  next
    case (ApproveTask i b)
    with admitted(2) quiet show ?thesis
      by (auto simp: map_prod_sum_eq split: sum.splits)
  qed
  then obtain i body n out1 where req: "req = ApproveTask i body" "approve_task A e i n p w = (out1, w')"
    by blast
  from authorised_Inr [THEN iffD1, OF admitted(1)] req(1) obtain token where
    "cred = Some token" "authenticate (app_digest A) (app_authenticator A) token = Some p"
    "TASKS_APPROVE \<in> set (scopes p)"
    by (auto simp: holds_any_def list_ex_iff)
  with approve_released [OF A fair inv req(2) ran gated] req(1) show ?thesis by blast
qed

end

end
