(* ===== verification/Interleaving.thy ===== *)
theory Interleaving
  imports Task_Service
begin

section \<open>Interleaved requests\<close>

text \<open>
  Any number of requests at once, each doing what \<open>transition_task\<close> does: load the task, compute
  its next version, later write it against the version it loaded, in any order the event loop
  chooses; and requests that add tasks. The log is what happened to the store. The refinement
  statement: the log, read as a sequence of atomic transitions, explains the store, so the
  optimistic version check makes the interleaving equivalent to one request at a time.
\<close>

datatype log_entry =
    Added agent_task
  | Committed nat agent_task agent_task \<comment> \<open>client, loaded task, task written\<close>

record 'r system =
  sys_store :: 'r
  sys_pending :: "nat \<Rightarrow> (agent_task \<times> agent_task) option"
  sys_log :: "log_entry list"

definition sys_init :: "'r \<Rightarrow> 'r system" where
  "sys_init r = \<lparr>sys_store = r, sys_pending = (\<lambda>_. None), sys_log = []\<rparr>"

text \<open>The steps: the two suspension points of \<open>transition_task\<close>, and \<open>add\<close>.\<close>

inductive sys_step :: "'r task_repo \<Rightarrow> 'r system \<Rightarrow> 'r system \<Rightarrow> bool" for R where
  load: "sys_pending s c = None \<Longrightarrow> repo_get R i (sys_store s) = Inr t \<Longrightarrow>
    transition_to t target why cp at = Inr t' \<Longrightarrow>
    sys_step R s (s\<lparr>sys_pending := (sys_pending s)(c := Some (t, t'))\<rparr>)"
| commit: "sys_pending s c = Some (t, t') \<Longrightarrow>
    repo_update R t' (version t) (sys_store s) = Inr r \<Longrightarrow>
    sys_step R s (s\<lparr>sys_store := r, sys_pending := (sys_pending s)(c := None),
                   sys_log := sys_log s @ [Committed c t t']\<rparr>)"
| conflict: "sys_pending s c = Some (t, t') \<Longrightarrow>
    repo_update R t' (version t) (sys_store s) = Inl x \<Longrightarrow>
    sys_step R s (s\<lparr>sys_pending := (sys_pending s)(c := None)\<rparr>)"
| add: "create i g by_whom at = Inr t \<Longrightarrow> repo_add R t (sys_store s) = Inr r \<Longrightarrow>
    sys_step R s (s\<lparr>sys_store := r, sys_log := sys_log s @ [Added t]\<rparr>)"

inductive_cases sys_stepE [consumes 1, case_names load commit conflict add]: "sys_step R s s'"

abbreviation sys_reaches :: "'r task_repo \<Rightarrow> 'r system \<Rightarrow> 'r system \<Rightarrow> bool" where
  "sys_reaches R \<equiv> (sys_step R)\<^sup>*\<^sup>*"

text \<open>The specification: one atomic change at a time.\<close>

fun atomic ::
  "(agent_task \<Rightarrow> agent_task) \<Rightarrow> log_entry \<Rightarrow> (uuid \<Rightarrow> agent_task option)
   \<Rightarrow> (uuid \<Rightarrow> agent_task option) option" where
  "atomic norm (Added t) m =
     (if m (task_id t) = None then Some (m(task_id t \<mapsto> norm t)) else None)"
| "atomic norm (Committed c t t') m =
     (if m (task_id t) = Some t \<and> legal_step t t' then Some (m(task_id t \<mapsto> norm t')) else None)"

fun replay ::
  "(agent_task \<Rightarrow> agent_task) \<Rightarrow> log_entry list \<Rightarrow> (uuid \<Rightarrow> agent_task option)
   \<Rightarrow> (uuid \<Rightarrow> agent_task option) option" where
  "replay norm [] m = Some m"
| "replay norm (x # xs) m =
     (case atomic norm x m of None \<Rightarrow> None | Some m' \<Rightarrow> replay norm xs m')"

lemma replay_append:
  "replay norm (xs @ ys) m = (case replay norm xs m of None \<Rightarrow> None | Some m' \<Rightarrow> replay norm ys m')"
  by (induction xs arbitrary: m) (auto split: option.splits)

text \<open>The version a write replaced, with its task: the key of the release.\<close>

fun released_version :: "log_entry \<Rightarrow> (uuid \<times> int) option" where
  "released_version (Added t) = None"
| "released_version (Committed c t t') = Some (task_id t, version t)"

definition releases :: "log_entry list \<Rightarrow> (uuid \<times> int) list" where
  "releases xs = List.map_filter released_version xs"

lemma releases_append: "releases (xs @ ys) = releases xs @ releases ys"
  by (simp add: releases_def map_filter_def)

lemma releases_single [simp]:
  "releases [Added t] = []" "releases [Committed c t t'] = [(task_id t, version t)]"
  "releases [] = []"
  by (simp_all add: releases_def map_filter_def)

context task_repository
begin

definition sys_inv :: "(uuid \<Rightarrow> agent_task option) \<Rightarrow> 'r system \<Rightarrow> bool" where
  "sys_inv m0 s \<longleftrightarrow>
     invar (sys_store s) \<and>
     replay stored (sys_log s) m0 = Some (lookup (sys_store s)) \<and>
     (\<forall>c t t'. sys_pending s c = Some (t, t') \<longrightarrow>
        legal_step t t' \<and> (\<exists>u. lookup (sys_store s) (task_id t) = Some u \<and> evolves t u)) \<and>
     distinct (releases (sys_log s)) \<and>
     (\<forall>i v. (i, v) \<in> set (releases (sys_log s)) \<longrightarrow>
        (\<exists>u. lookup (sys_store s) i = Some u \<and> v < version u))"

lemma sys_inv_init: "invar r \<Longrightarrow> sys_inv (lookup r) (sys_init r)"
  by (simp add: sys_inv_def sys_init_def)

lemma commit_facts:
  assumes "sys_inv m0 s" "sys_pending s c = Some (t, t')" "repo_update R t' (version t) (sys_store s) = Inr r"
  shows "legal_step t t' \<and> lookup (sys_store s) (task_id t) = Some t \<and> invar r \<and>
    lookup r = (lookup (sys_store s))(task_id t \<mapsto> stored t')"
proof -
  obtain u where u: "legal_step t t'" "lookup (sys_store s) (task_id t) = Some u" "evolves t u"
    using assms(1,2) unfolding sys_inv_def by blast
  have id: "task_id t' = task_id t" "same_identity t t'" using u(1) by (simp_all add: legal_step_def same_identity_def)
  have same: "x = t" if "lookup (sys_store s) (task_id t') = Some x" "version x = version t" for x
    using that u(2,3) id evolves_same_version by auto
  have inv: "invar (sys_store s)" using assms(1) by (simp add: sys_inv_def)
  have "same_identity x t'" if "lookup (sys_store s) (task_id t') = Some x" "version x = version t" for x
    using same [OF that] id(2) by simp
  from update_Inr [OF inv assms(3) _ this] same u(1) id(1) show ?thesis by (auto simp: legal_step_def)
qed

lemma sys_inv_grow:
  assumes inv: "sys_inv m0 s" and r: "invar r" "repo_evolves lookup (sys_store s) r"
    and log: "replay stored [x] (lookup (sys_store s)) = Some (lookup r)"
    and new: "\<forall>k \<in> set (releases [x]). (\<forall>j \<in> set (releases (sys_log s)). k \<noteq> j) \<and>
       (\<exists>u. lookup r (fst k) = Some u \<and> snd k < version u)" "distinct (releases [x])"
    and pend: "\<And>c. P c = sys_pending s c \<or> P c = None"
  shows "sys_inv m0 (s\<lparr>sys_store := r, sys_pending := P, sys_log := sys_log s @ [x]\<rparr>)"
proof -
  have old: "\<exists>u. lookup r i = Some u \<and> v < version u" if k: "(i, v) \<in> set (releases (sys_log s))" for i v
  proof -
    obtain u where u: "lookup (sys_store s) i = Some u" "v < version u"
      using inv k unfolding sys_inv_def by blast
    obtain u' where "lookup r i = Some u'" "evolves u u'"
      using repo_evolvesD [OF r(2) u(1)] by blast
    with u(2) evolves_version show ?thesis by fastforce
  qed
  have pending: "legal_step t t' \<and> (\<exists>u. lookup r (task_id t) = Some u \<and> evolves t u)"
    if k: "P c = Some (t, t')" for c t t'
  proof -
    have "sys_pending s c = Some (t, t')" using k pend [of c] by auto
    then obtain u where u: "legal_step t t'" "lookup (sys_store s) (task_id t) = Some u" "evolves t u"
      using inv unfolding sys_inv_def by blast
    obtain u' where "lookup r (task_id t) = Some u'" "evolves u u'"
      using repo_evolvesD [OF r(2) u(2)] by blast
    with u show ?thesis by (meson rtranclp_trans)
  qed
  have "replay stored (sys_log s @ [x]) m0 = Some (lookup r)"
    using inv log by (simp add: sys_inv_def replay_append)
  moreover have "distinct (releases (sys_log s @ [x]))"
    using inv new by (auto simp: sys_inv_def releases_append)
  moreover have "\<exists>u. lookup r i = Some u \<and> v < version u"
    if "(i, v) \<in> set (releases (sys_log s @ [x]))" for i v
    using that old new(1) by (fastforce simp: releases_append)
  ultimately show ?thesis
    using r(1) pending by (simp add: sys_inv_def)
qed

lemma sys_inv_step:
  assumes step: "sys_step R s s'" and inv: "sys_inv m0 s"
  shows "sys_inv m0 s' \<and> repo_evolves lookup (sys_store s) (sys_store s')"
  using step
proof (cases rule: sys_stepE)
  case (load c i t target why cp at t')
  have ok: "invar (sys_store s)" using inv by (simp add: sys_inv_def)
  have lk: "lookup (sys_store s) i = Some t" using load(3) get_Inr [OF ok] by blast
  then have "lookup (sys_store s) (task_id t) = Some t" using lookup_id [OF ok lk] by simp
  with inv transition_to_legal [OF load(4)] load(1) show ?thesis
    by (auto simp: sys_inv_def split: if_splits)
next
  case (commit c t t' r)
  note f = commit_facts [OF inv commit(2,3)]
  have ev: "repo_evolves lookup (sys_store s) r"
    using f legal_step_stored by (auto simp: repo_evolves_def)
  have ver: "version (stored t') = version t + 1" using f by (simp add: legal_step_def)
  have "(task_id t, version t) \<notin> set (releases (sys_log s))"
    using inv f unfolding sys_inv_def by force
  then have "sys_inv m0 (s\<lparr>sys_store := r, sys_pending := (sys_pending s)(c := None),
      sys_log := sys_log s @ [Committed c t t']\<rparr>)"
    using f ver by (intro sys_inv_grow [OF inv _ ev]) auto
  with commit(1) ev show ?thesis by simp
next
  case (conflict c t t' x)
  with inv show ?thesis by (auto simp: sys_inv_def split: if_splits)
next
  case (add i g by_whom at t r)
  have ok: "invar (sys_store s)" using inv by (simp add: sys_inv_def)
  have "storable t" using add(3) add_refused [OF ok] by fastforce
  moreover have "lookup (sys_store s) (task_id t) = None"
  proof (cases "lookup (sys_store s) (task_id t)")
    case (Some c)
    with add(3) add_existing [OF ok \<open>storable t\<close>] show ?thesis by simp
  qed
  ultimately have f: "invar r" "lookup r = (lookup (sys_store s))(task_id t \<mapsto> stored t)"
      "lookup (sys_store s) (task_id t) = None"
    using add_new [OF ok, of t] add(3) by auto
  then have ev: "repo_evolves lookup (sys_store s) r" by (auto simp: repo_evolves_def)
  have "sys_inv m0 (s\<lparr>sys_store := r, sys_pending := sys_pending s, sys_log := sys_log s @ [Added t]\<rparr>)"
    using f by (intro sys_inv_grow [OF inv _ ev]) auto
  with add(1) ev show ?thesis by simp
qed

lemma sys_inv_reaches:
  assumes "sys_reaches R (sys_init r) s" "invar r"
  shows "sys_inv (lookup r) s \<and> repo_evolves lookup r (sys_store s)"
  using assms(1)
proof (induction rule: rtranclp_induct)
  case base
  then show ?case using sys_inv_init [OF assms(2)] by (simp add: sys_init_def)
next
  case (step s1 s2)
  from sys_inv_step [OF step(2) conjunct1 [OF step(3)]] conjunct2 [OF step(3)]
  show ?case by (auto elim: repo_evolves_trans)
qed

text \<open>The three consequences: atomicity, no double release, fairness of the environment.\<close>

lemma interleaving_atomic:
  "sys_reaches R (sys_init r) s \<Longrightarrow> invar r \<Longrightarrow>
   replay stored (sys_log s) (lookup r) = Some (lookup (sys_store s))"
  using sys_inv_reaches by (simp add: sys_inv_def)

lemma interleaving_single_release:
  "sys_reaches R (sys_init r) s \<Longrightarrow> invar r \<Longrightarrow> distinct (releases (sys_log s))"
  using sys_inv_reaches by (simp add: sys_inv_def)

lemma interleaving_fair:
  "sys_reaches R (sys_init r) s \<Longrightarrow> invar r \<Longrightarrow>
   invar (sys_store s) \<and> repo_evolves lookup r (sys_store s)"
  using sys_inv_reaches by (auto simp: sys_inv_def)

end

end
