(* ===== verification/Scenario.thy ===== *)
theory Scenario
  imports Router_Correct Interleaving
begin

section \<open>A concrete deployment\<close>

text \<open>
  A small application on the in-memory repository and the scripted provider, with one tool of each
  of two risk levels, on which the properties are exercised: a run that looks an invoice up, asks
  to pay it and is held; its approval, after which it completes; a second task that is pending.
\<close>

definition lookup_tool :: "fake_state tool" where
  "lookup_tool =
     \<lparr>tool_name = ''get_invoice'', tool_description = ''Read one invoice.'',
      tool_validate = (\<lambda>a. Inr a), tool_schema = [], tool_risk = READ,
      tool_handler = (\<lambda>a x. (Inr ''invoice 7: 120 EUR'', x)), tool_input_schema = None\<rparr>"

definition pay_tool :: "fake_state tool" where
  "pay_tool =
     \<lparr>tool_name = ''pay_invoice'', tool_description = ''Pay one invoice.'',
      tool_validate = (\<lambda>a. if a = [] then Inl ''invoice_id: Field required'' else Inr a),
      tool_schema = [], tool_risk = WRITE,
      tool_handler = (\<lambda>a x. (Inr ''paid'', x)), tool_input_schema = None\<rparr>"

definition demo_registry :: "fake_state registry" where
  "demo_registry =
     \<lparr>registered_tools = [(''get_invoice'', lookup_tool), (''pay_invoice'', pay_tool)],
      registry_timeout_ms = 30000, max_result_chars = 20000\<rparr>"

definition lookup_call :: tool_call where
  "lookup_call = \<lparr>call_id = ''c1'', call_name = ''get_invoice'', call_arguments = []\<rparr>"

definition pay_call :: tool_call where
  "pay_call = \<lparr>call_id = ''c2'', call_name = ''pay_invoice'', call_arguments = [(''invoice_id'', JInt 7)]\<rparr>"

definition asking :: "string \<Rightarrow> tool_call list \<Rightarrow> completion" where
  "asking txt calls =
     \<lparr>comp_text = txt, comp_model = ''fake-1'', comp_stop_reason = TOOL_USE,
      comp_usage = \<lparr>input_tokens = 10, output_tokens = 5\<rparr>, comp_tool_calls = calls\<rparr>"

definition demo_script :: "script_item list" where
  "demo_script =
     [ScriptCompletion (asking ''Looking it up.'' [lookup_call]),
      ScriptCompletion (asking ''I want to pay.'' [pay_call]),
      ScriptText ''Paid invoice 7.'']"

definition demo_runner :: "(fake_state, mem_repo) agent_runner" where
  "demo_runner =
     \<lparr>runner_llm = \<lparr>client_provider = fake_provider ''fake-1'', client_timeout_ms = 60000\<rparr>,
      runner_tools = demo_registry, runner_repo = mem_port, max_steps = 8, max_tokens = 4096,
      auto_approve_up_to = READ, system_prompt = DEFAULT_SYSTEM_PROMPT\<rparr>"

definition demo_env :: "mem_repo env" where
  "demo_env = \<lparr>others = (\<lambda>n r. r), clock = (\<lambda>n. 1000 + int n), finish_priority = (\<lambda>n i. i)\<rparr>"

definition demo_task :: agent_task where
  "demo_task =
     \<lparr>task_id = 7, goal = ''Pay invoice 7'', requested_by = ''ana'', status = PENDING, version = 1,
      created_at = 900, updated_at = 900, history = [], checkpoint = None\<rparr>"

definition demo_world :: "(fake_state, mem_repo) world" where
  "demo_world =
     \<lparr>ext_state = \<lparr>fake_script = demo_script, fake_requests = []\<rparr>, event_trace = [],
      store = [(7, demo_task)], await_count = 0\<rparr>"

text \<open>The world once the run is held, and once it has been approved.\<close>

definition held_world :: "(fake_state, mem_repo) world" where
  "held_world = snd (run demo_runner demo_env 7 demo_world)"

definition approved_world :: "(fake_state, mem_repo) world" where
  "approved_world = snd (resume demo_runner demo_env 7 ''bo'' None held_world)"

definition demo_app :: "(fake_state, mem_repo) app" where
  "demo_app =
     \<lparr>app_repository = mem_port, app_runner = demo_runner,
      app_policy = \<lparr>requires_second_person = True\<rparr>,
      app_authenticator =
        [(''digest-a'', \<lparr>subject = ''ana'', scopes = [TASKS_READ, TASKS_WRITE]\<rparr>),
         (''digest-b'', \<lparr>subject = ''bo'', scopes = [TASKS_APPROVE]\<rparr>)],
      app_digest = (\<lambda>s. ''digest-'' @ s)\<rparr>"

lemma demo_alone: "alone demo_env"
  by (simp add: alone_def demo_env_def)

lemma demo_fair: "fair_env dict_get mem_invar demo_env"
  using demo_alone by (rule alone_fair)

lemma demo_world_ok: "mem_invar (store demo_world)" "all_tasks_ok dict_get (store demo_world)"
  by (simp_all add: demo_world_def mem_invar_def dict_wf_def all_tasks_ok_def task_ok_def demo_task_def)

lemma demo_repo [simp]: "runner_repo demo_runner = mem_port"
  by (simp add: demo_runner_def)

lemma demo_run_held:
  "map_sum (\<lambda>_. ()) (\<lambda>r. (status (rr_task r), rr_steps r, rr_tool_calls r, map call_name (rr_pending_calls r)))
     (fst (run demo_runner demo_env 7 demo_world)) = Inr (AWAITING_APPROVAL, 2, 1, [''pay_invoice''])"
  by code_simp

lemma demo_resume_completes:
  "map_sum (\<lambda>_. ()) (\<lambda>r. (status (rr_task r), rr_steps r, rr_tool_calls r, rr_output r))
     (fst (resume demo_runner demo_env 7 ''bo'' None held_world)) =
   Inr (COMPLETED, 3, 2, ''Paid invoice 7.'')"
  by code_simp

definition held_result :: run_result where
  "held_result = projr (fst (run demo_runner demo_env 7 demo_world))"

definition approved_result :: run_result where
  "approved_result = projr (fst (resume demo_runner demo_env 7 ''bo'' None held_world))"

lemma map_sum_Inr_projr: "map_sum f g r = Inr x \<Longrightarrow> r = Inr (projr r)"
  by (cases r) simp_all

lemma demo_run_eq: "run demo_runner demo_env 7 demo_world = (Inr held_result, held_world)"
  using map_sum_Inr_projr [OF demo_run_held]
  by (simp add: held_result_def held_world_def prod_eq_iff)

lemma demo_resume_eq:
  "resume demo_runner demo_env 7 ''bo'' None held_world = (Inr approved_result, approved_world)"
  using map_sum_Inr_projr [OF demo_resume_completes]
  by (simp add: approved_result_def approved_world_def prod_eq_iff)

lemma held_world_ok: "mem_invar (store held_world)" "all_tasks_ok dict_get (store held_world)"
  using mem.run_keeps_ok [OF demo_repo demo_fair _ demo_run_eq] demo_world_ok
  by (simp_all add: mem.state_ok_def)

lemma held_task:
  "map_option (\<lambda>t. (status t, version t, map call_name (task_pending_calls t)))
     (dict_get (store held_world) 7) = Some (AWAITING_APPROVAL, 3, [''pay_invoice''])"
  by code_simp

lemma demo_ran_pay:
  "drop (length (event_trace held_world)) (event_trace approved_world) \<noteq> [] \<and>
   hd (drop (length (event_trace held_world)) (event_trace approved_world)) = HandlerRun pay_call"
  by code_simp


subsection \<open>A deployment whose provider keeps its contract\<close>

definition steady_runner :: "(fake_state, mem_repo) agent_runner" where
  "steady_runner = demo_runner\<lparr>runner_llm :=
     \<lparr>client_provider = \<lparr>provider_name = ''steady'',
        provider_complete = (\<lambda>req x. (Inr \<lparr>comp_text = ''Done.'', comp_model = ''steady-1'',
          comp_stop_reason = END_TURN, comp_usage = \<lparr>input_tokens = 3, output_tokens = 1\<rparr>,
          comp_tool_calls = []\<rparr>, x))\<rparr>,
      client_timeout_ms = 60000\<rparr>\<rparr>"

definition broken_runner :: "(fake_state, mem_repo) agent_runner" where
  "broken_runner = demo_runner\<lparr>runner_llm :=
     \<lparr>client_provider = \<lparr>provider_name = ''broken'',
        provider_complete = (\<lambda>req x. (Inl (RuntimeError ''bug''), x))\<rparr>,
      client_timeout_ms = 60000\<rparr>\<rparr>"

definition demo_clients :: "api_client list" where
  "demo_clients =
     [\<lparr>client_subject = ''ana'', client_token = ''ana-0123456789-0123456789-0123456789'',
       client_scopes = [TASKS_READ, TASKS_WRITE]\<rparr>,
      \<lparr>client_subject = ''bo'', client_token = ''bo-0123456789-0123456789-0123456789'',
       client_scopes = [TASKS_APPROVE]\<rparr>]"

definition steady_app :: "(fake_state, mem_repo) app" where
  "steady_app = demo_app\<lparr>app_runner := steady_runner, app_digest := id,
     app_authenticator := projr (mk_authenticator id demo_clients)\<rparr>"

lemma demo_registry_ok: "registry_ok demo_registry"
proof -
  have "valid_tool_name ''get_invoice''" "valid_tool_name ''pay_invoice''"
    by code_simp+
  moreover have "py_strip ''Read one invoice.'' \<noteq> []" "py_strip ''Pay one invoice.'' \<noteq> []"
    by code_simp+
  ultimately show ?thesis
    by (simp add: registry_ok_def demo_registry_def dict_wf_def tool_ok_def lookup_tool_def pay_tool_def)
qed

lemma steady_runner_sel [simp]:
  "runner_repo steady_runner = mem_port" "runner_tools steady_runner = demo_registry"
  "max_steps steady_runner = 8" "max_tokens steady_runner = 4096"
  by (simp_all add: steady_runner_def demo_runner_def)

lemma broken_runner_sel [simp]:
  "runner_repo broken_runner = mem_port" "runner_tools broken_runner = demo_registry"
  "max_steps broken_runner = 8" "max_tokens broken_runner = 4096"
  by (simp_all add: broken_runner_def demo_runner_def)

lemma steady_runner_ok: "runner_ok steady_runner"
  using demo_registry_ok
  by (simp add: runner_ok_def)
     (simp add: steady_runner_def provider_ok_def raises_only_llm_errors_def completion_ok_def usage_ok_def)

lemma steady_authenticator:
  "mk_authenticator (app_digest steady_app) demo_clients = Inr (app_authenticator steady_app)"
proof -
  have "\<exists>a. mk_authenticator id demo_clients = Inr a"
    by (simp add: mk_authenticator_def demo_clients_def Let_def)
  then show ?thesis by (auto simp: steady_app_def)
qed

lemma demo_clients_ok: "list_all api_client_ok demo_clients"
proof -
  have "valid_subject ''ana''" "valid_subject ''bo''" by code_simp+
  then show ?thesis by (simp add: demo_clients_def api_client_ok_def)
qed

lemma demo_task_pending: "dict_get (store demo_world) 7 = Some demo_task" "status demo_task = PENDING"
  by (simp_all add: demo_world_def demo_task_def)


subsection \<open>Two requests racing for one task\<close>

definition started_task :: agent_task where
  "started_task = projr (transition_to demo_task RUNNING (Some ''agent run started'') None 1000)"

definition race_end :: "mem_repo system" where
  "race_end = \<lparr>sys_store = [(7, started_task)], sys_pending = (\<lambda>_. None),
     sys_log = [Committed 0 demo_task started_task]\<rparr>"

lemma started_task_eq:
  "transition_to demo_task RUNNING (Some ''agent run started'') None 1000 = Inr started_task"
  "task_id started_task = 7"
  by (simp_all add: started_task_def transition_to_no_checkpoint demo_task_def)

text \<open>Both load the task; the first write lands, the second is refused.\<close>

lemma race_reached: "sys_reaches mem_port (sys_init (store demo_world)) race_end"
proof -
  let ?p = "(demo_task, started_task)"
  let ?s0 = "sys_init (store demo_world)"
  let ?s1 = "?s0\<lparr>sys_pending := (sys_pending ?s0)(0 := Some ?p)\<rparr>"
  let ?s2 = "?s1\<lparr>sys_pending := (sys_pending ?s1)(1 := Some ?p)\<rparr>"
  let ?s3 = "?s2\<lparr>sys_store := [(7, started_task)], sys_pending := (sys_pending ?s2)(0 := None),
    sys_log := sys_log ?s2 @ [Committed 0 demo_task started_task]\<rparr>"
  have get: "repo_get mem_port 7 (store demo_world) = Inr demo_task"
    by (simp add: mem_get_def demo_world_def)
  have s1: "sys_step mem_port ?s0 ?s1"
    by (rule sys_step.load [OF _ _ started_task_eq(1)]) (use get in \<open>simp_all add: sys_init_def\<close>)
  have s2: "sys_step mem_port ?s1 ?s2"
    by (rule sys_step.load [OF _ _ started_task_eq(1)]) (use get in \<open>simp_all add: sys_init_def\<close>)
  have s3: "sys_step mem_port ?s2 ?s3"
    by (rule sys_step.commit)
       (simp_all add: sys_init_def mem_update_def demo_world_def started_task_eq(2))
  have v: "version started_task \<noteq> version demo_task"
    using transition_to_legal [OF started_task_eq(1)] by (simp add: legal_step_def)
  have "sys_step mem_port ?s3 (?s3\<lparr>sys_pending := (sys_pending ?s3)(1 := None)\<rparr>)"
    by (rule sys_step.conflict
        [where c = 1 and t = demo_task and t' = started_task and x = "ConcurrentUpdateError 7 (version demo_task) (version started_task)"])
       (use v in \<open>simp_all add: sys_init_def mem_update_def started_task_eq(2)\<close>)
  moreover have "?s3\<lparr>sys_pending := (sys_pending ?s3)(1 := None)\<rparr> = race_end"
    by (auto simp: race_end_def sys_init_def)
  ultimately have "sys_step mem_port ?s3 race_end" by simp
  with s1 s2 s3 show ?thesis
    by (meson converse_rtranclp_into_rtranclp rtranclp.rtrancl_refl)
qed

end
