(* ===== verification/Consequences.thy ===== *)
theory Consequences
  imports Scenario
begin

section \<open>Further consequences\<close>

text \<open>
  What follows from the contracts for single operations, each with an instance on the concrete
  deployment: a stale write, a registry's declarations, structured output, stricter policies,
  checkpoints, the approval view, creation and cancellation.
\<close>


text \<open>
  The in-memory repository implements the storage contract: reads return what was last written, add
  refuses an existing id, update is refused for a missing task and for a stale version and otherwise
  replaces exactly that task, and listings are the matching tasks newest first, cut at the limit.
\<close>

theorem memory_keeps_the_contract:
  "task_repository mem_port dict_get mem_invar (\<lambda>_. True) id"
  by (rule mem.task_repository_axioms)


text \<open>
  A listing is the prefix, of the requested length, of the one strictly descending list (by creation
  time, then id) of exactly the stored tasks with the requested status; that list is determined by
  the store.
\<close>

theorem listing_is_newest_first:
  assumes "mem_invar r" "0 \<le> n"
  shows "\<exists>ts. mem_list_tasks st n r = Inr (take (nat n) ts) \<and>
    sorted_wrt (\<lambda>a b. listing_key b < listing_key a) ts \<and>
    set ts = {t \<in> ran (dict_get r). listing_matches st t} \<and>
    (\<forall>us. is_listing (dict_get r) st us \<longrightarrow> us = ts)"
proof -
  obtain ts where "is_listing (dict_get r) st ts" "mem_list_tasks st n r = Inr (take (nat n) ts)"
    using mem_is_listing [OF assms(1), of st] assms(2) by (auto simp: mem_list_tasks_def)
  then show ?thesis using is_listing_unique by (auto simp: is_listing_def)
qed

theorem listing_is_newest_first_witness:
  "\<exists>ts. mem_list_tasks (Some PENDING) 1 (store demo_world) = Inr (take (nat 1) ts) \<and>
    sorted_wrt (\<lambda>a b. listing_key b < listing_key a) ts \<and>
    set ts = {t \<in> ran (dict_get (store demo_world)). listing_matches (Some PENDING) t} \<and>
    (\<forall>us. is_listing (dict_get (store demo_world)) (Some PENDING) us \<longrightarrow> us = ts)"
  by (rule listing_is_newest_first [OF demo_world_ok(1)]) simp


text \<open>
  Once a write against a version has landed, a second write against the same version is refused with
  the version the first one produced, and the store keeps the first.
\<close>

theorem stale_write_is_refused:
  assumes "mem_invar r" "mem_update t v r = Inr r'" "task_id u = task_id t" "version t = v + 1"
    and "\<And>c. dict_get r (task_id t) = Some c \<Longrightarrow> version c = v \<Longrightarrow> same_identity c t"
  shows "mem_update u v r' = Inl (ConcurrentUpdateError (task_id u) v (v + 1)) \<and>
    dict_get r' (task_id t) = Some t"
proof -
  have "repo_update mem_port t v r = Inr r'" using assms(2) by simp
  from mem.update_Inr [OF assms(1) this assms(4,5)] assms(3,4)
  show ?thesis by (auto simp: mem_update_def)
qed

theorem stale_write_is_refused_witness:
  "mem_update (started_task\<lparr>status := CANCELLED\<rparr>) 1 [(7, started_task)] =
     Inl (ConcurrentUpdateError (task_id (started_task\<lparr>status := CANCELLED\<rparr>)) 1 (1 + 1)) \<and>
   dict_get [(7, started_task)] (task_id started_task) = Some started_task"
proof (rule stale_write_is_refused [OF demo_world_ok(1)])
  have ls: "legal_step demo_task started_task" by (rule transition_to_legal [OF started_task_eq(1)])
  show "mem_update started_task 1 (store demo_world) = Inr [(7, started_task)]"
    by (simp add: mem_update_def demo_world_def started_task_eq(2)) (simp add: demo_task_def)
  show "version started_task = 1 + 1" using ls by (simp add: legal_step_def demo_task_def)
  show "same_identity c started_task" if "dict_get (store demo_world) (task_id started_task) = Some c" for c
    using that ls by (simp add: demo_world_def started_task_eq(2) legal_step_def)
qed simp


text \<open>
  A registry built from constructed tools registers every one of them under its own name, refuses a
  duplicate name, and offers the model one declaration per tool, all names distinct, so no request
  is refused for its tools.
\<close>

theorem registry_offers_distinct_tools:
  assumes "mk_registry tools timeout_ms max_chars = Inr reg" "list_all tool_ok tools"
  shows "registry_ok reg \<and> names reg = map tool_name tools \<and> distinct (map tool_name tools) \<and>
    (\<exists>ss. specs reg = Inr ss \<and> map spec_name ss = map tool_name tools)"
proof -
  have ok: "registry_ok reg" by (rule mk_registry_ok [OF assms])
  have "register_each tools \<lparr>registered_tools = [], registry_timeout_ms = timeout_ms,
      max_result_chars = max_chars\<rparr> = Inr reg"
    using assms(1) by (simp add: mk_registry_def split: if_splits)
  from register_each_names [OF this] have "names reg = map tool_name tools" by (simp add: names_def)
  moreover have "distinct (names reg)" using ok by (simp add: registry_ok_def dict_wf_def names_def)
  ultimately show ?thesis using ok specs_ok [OF ok] by auto
qed

theorem registry_offers_distinct_tools_witness:
  "registry_ok demo_registry \<and> names demo_registry = map tool_name [lookup_tool, pay_tool] \<and>
    distinct (map tool_name [lookup_tool, pay_tool]) \<and>
    (\<exists>ss. specs demo_registry = Inr ss \<and> map spec_name ss = map tool_name [lookup_tool, pay_tool])"
proof (rule registry_offers_distinct_tools)
  show "mk_registry [lookup_tool, pay_tool] 30000 20000 = Inr demo_registry"
    by (simp add: mk_registry_def register_def demo_registry_def lookup_tool_def pay_tool_def)
  show "list_all tool_ok [lookup_tool, pay_tool]"
    using demo_registry_ok by (simp add: registry_ok_def demo_registry_def)
qed


text \<open>
  A structured completion that returns a value sent the request with the schema attached and no
  tools, and the value is what the schema's validation accepts of the text of an answer that was
  neither truncated nor refused.
\<close>

theorem structured_output_is_validated:
  assumes "complete_structured C req S operation w = (Inr v, w')"
  shows "req_tools req = [] \<and>
    event_trace w' = event_trace w @ [ModelCall (req\<lparr>req_output_schema := Some (schema_json S)\<rparr>)] \<and>
    (\<exists>c. fst (llm_complete C (req\<lparr>req_output_schema := Some (schema_json S)\<rparr>) w) = Inr c \<and>
         schema_validate S (comp_text c) = Inr v \<and> comp_stop_reason c \<notin> {REFUSAL, MAX_TOKENS})"
proof -
  obtain c where c: "req_tools req = []"
      "llm_complete C (req\<lparr>req_output_schema := Some (schema_json S)\<rparr>) w = (Inr c, w')"
      "schema_validate S (comp_text c) = Inr v" "comp_stop_reason c \<notin> {REFUSAL, MAX_TOKENS}"
    using complete_structured_ok [OF assms] by blast
  from llm_complete_event_trace [OF c(2)] c show ?thesis by auto
qed

theorem structured_output_is_validated_witness:
  "\<exists>w' :: (fake_state, mem_repo) world. req_tools \<lparr>req_messages = [], req_system = None, req_max_tokens = 10, req_output_schema = None,
      req_tools = []\<rparr> = [] \<and>
    event_trace w' = event_trace demo_world @ [ModelCall \<lparr>req_messages = [], req_system = None,
      req_max_tokens = 10, req_output_schema = Some [(''type'', JStr ''string'')], req_tools = []\<rparr>]"
proof -
  let ?S = "\<lparr>schema_json = [(''type'', JStr ''string'')], schema_name = ''Answer'',
    schema_validate = (\<lambda>s. Inr s)\<rparr> :: string response_schema"
  let ?req = "\<lparr>req_messages = [], req_system = None, req_max_tokens = 10, req_output_schema = None,
    req_tools = []\<rparr>"
  have "fst (complete_structured (runner_llm steady_runner) ?req ?S ''answer'' demo_world) = Inr ''Done.''"
    by code_simp
  then obtain w' where "complete_structured (runner_llm steady_runner) ?req ?S ''answer'' demo_world =
      (Inr ''Done.'', w')"
    by (metis prod.collapse)
  from structured_output_is_validated [OF this] show ?thesis by (intro exI [of _ w']) simp
qed


text \<open>
  Lowering the auto-approval threshold never lifts a requirement: a call gated under a laxer policy
  is gated under a stricter one, and at the highest threshold no call is gated.
\<close>

theorem stricter_policy_gates_more:
  assumes "a \<le> b" "needs_approval (D\<lparr>auto_approve_up_to := b\<rparr>) c"
  shows "needs_approval (D\<lparr>auto_approve_up_to := a\<rparr>) c \<and> b \<noteq> CRITICAL"
  using assms requires_approval_antimono by (auto simp: needs_approval_def split: option.splits)

theorem stricter_policy_gates_more_witness:
  "needs_approval (demo_runner\<lparr>auto_approve_up_to := READ\<rparr>) pay_call \<and> READ \<noteq> CRITICAL"
proof (rule stricter_policy_gates_more)
  show "READ \<le> READ" by simp
  show "needs_approval (demo_runner\<lparr>auto_approve_up_to := READ\<rparr>) pay_call" by code_simp
qed


text \<open>
  The checkpoint a pause writes carries the whole run state: resuming from it restores the counters
  of steps, tool calls and tokens, and its conversation is the paused one.
\<close>

theorem pause_and_resume_round_trip:
  assumes "mk_run_checkpoint msgs (rs_steps st) (rs_tool_calls st) (run_usage st) = Inr cp"
  shows "resuming cp = st \<and> cp_messages cp = msgs \<and> pending_calls cp = msg_tool_calls (last msgs) \<and>
    pending_calls cp \<noteq> []"
  using resuming_checkpoint [OF assms] mk_run_checkpoint_eq [THEN iffD1, OF assms]
  by (auto simp: pending_calls_def checkpoint_ok_def)

theorem pause_and_resume_round_trip_witness:
  "\<exists>cp. resuming cp = new_run_state\<lparr>rs_steps := 2\<rparr> \<and>
    cp_messages cp = [\<lparr>msg_role = ASSISTANT, msg_content = [], msg_tool_calls = [pay_call], msg_tool_results = []\<rparr>] \<and>
    pending_calls cp = msg_tool_calls (last [\<lparr>msg_role = ASSISTANT, msg_content = [], msg_tool_calls = [pay_call],
      msg_tool_results = []\<rparr>]) \<and> pending_calls cp \<noteq> []"
proof -
  let ?m = "\<lparr>msg_role = ASSISTANT, msg_content = [], msg_tool_calls = [pay_call], msg_tool_results = []\<rparr>"
  let ?st = "new_run_state\<lparr>rs_steps := 2\<rparr>"
  obtain cp where "mk_run_checkpoint [?m] (rs_steps ?st) (rs_tool_calls ?st) (run_usage ?st) = Inr cp"
    by (simp add: mk_run_checkpoint_def new_run_state_def Let_def)
  from pause_and_resume_round_trip [OF this] show ?thesis by blast
qed


text \<open>
  The approval view of a task lists exactly the calls a resumption would execute, in their order
  with their arguments, and marks a call as needing approval exactly when the runner's own policy
  gates it; a task that is not awaiting approval is answered 409.
\<close>

theorem approval_view_shows_what_will_run:
  assumes "app_repository A = mem_port" "mem_invar (store (await e w))"
    and "dict_get (store (await e w)) i = Some t"
  shows "if status t = AWAITING_APPROVAL
    then \<exists>b. get_approval A e i p w = (Inr b, await e w) \<and> ap_task_id b = i \<and>
      map (\<lambda>c. (pr_id c, pr_name c, pr_arguments c)) (ap_pending b) =
        map (\<lambda>c. (call_id c, call_name c, call_arguments c)) (task_pending_calls t) \<and>
      map pr_needs_approval (ap_pending b) = map (needs_approval (app_runner A)) (task_pending_calls t)
    else \<exists>d. get_approval A e i p w = (Inl (HTTPError 409 d False), await e w)"
proof -
  have "task_id t = i" using mem_lookup_id [OF assms(2,3)] .
  then show ?thesis
    using assms(1,3)
    by (simp add: get_approval_def await_get_def mem_get_def Let_def approval_from_domain_def
        pending_approval_def pending_from_domain_def comp_def)
qed

theorem approval_view_shows_what_will_run_witness:
  "if status demo_task = AWAITING_APPROVAL
    then \<exists>b. get_approval demo_app demo_env 7 \<lparr>subject = ''bo'', scopes = [TASKS_APPROVE]\<rparr> demo_world =
        (Inr b, await demo_env demo_world) \<and> ap_task_id b = 7 \<and>
      map (\<lambda>c. (pr_id c, pr_name c, pr_arguments c)) (ap_pending b) =
        map (\<lambda>c. (call_id c, call_name c, call_arguments c)) (task_pending_calls demo_task) \<and>
      map pr_needs_approval (ap_pending b) =
        map (needs_approval (app_runner demo_app)) (task_pending_calls demo_task)
    else \<exists>d. get_approval demo_app demo_env 7 \<lparr>subject = ''bo'', scopes = [TASKS_APPROVE]\<rparr> demo_world =
      (Inl (HTTPError 409 d False), await demo_env demo_world)"
  by (rule approval_view_shows_what_will_run)
     (use demo_world_ok(1) demo_task_pending(1) in
       \<open>simp_all add: demo_app_def store_await_alone [OF demo_alone]\<close>)


text \<open>
  Creating a task with a valid goal stores exactly one new task: pending, version 1, no history, its
  goal the trimmed goal of the body and its requester the authenticated subject; nothing else
  changes.
\<close>

theorem created_task_belongs_to_caller:
  assumes "app_repository A = mem_port" "runner_repo (app_runner A) = mem_port"
    and "fair_env dict_get mem_invar e" "mem_invar (store w)" "valid_subject (subject p)"
    and "trim g \<noteq> []" "length (trim g) \<le> 4000" "dict_get (store (await e w)) new_id = None"
  shows "\<exists>t w'. handle A e (CreateTask new_id g) p w = (Inr (TaskBody 201 (task_from_domain t)), w') \<and>
    task_id t = new_id \<and> goal t = trim g \<and> requested_by t = subject p \<and> status t = PENDING \<and>
    version t = 1 \<and> history t = [] \<and>
    dict_get (store w') = (dict_get (store (await e w)))(new_id \<mapsto> t) \<and> event_trace w' = event_trace w"
proof -
  have A: "mem.app_ok A" using assms(1,2) by (simp add: mem.app_ok_def)
  have b: "mk_create_task_request g = Inr (trim g)"
    using assms(6,7) by (simp add: mk_create_task_request_def Let_def)
  from mem.create_task_adds [OF A assms(3,4) b assms(5) TrueI assms(8)] b show ?thesis by fastforce
qed

theorem created_task_belongs_to_caller_witness:
  "\<exists>t w'. handle demo_app demo_env (CreateTask 8 ''Ship order 3'') \<lparr>subject = ''ana'', scopes = [TASKS_WRITE]\<rparr>
      demo_world = (Inr (TaskBody 201 (task_from_domain t)), w') \<and>
    task_id t = 8 \<and> goal t = trim ''Ship order 3'' \<and>
    requested_by t = subject \<lparr>subject = ''ana'', scopes = [TASKS_WRITE]\<rparr> \<and> status t = PENDING \<and>
    version t = 1 \<and> history t = [] \<and>
    dict_get (store w') = (dict_get (store (await demo_env demo_world)))(8 \<mapsto> t) \<and>
    event_trace w' = event_trace demo_world"
proof (rule created_task_belongs_to_caller [OF _ _ demo_fair demo_world_ok(1)])
  have "valid_subject ''ana''" by code_simp
  then show "valid_subject (subject \<lparr>subject = ''ana'', scopes = [TASKS_WRITE]\<rparr>)" by simp
  have "trim ''Ship order 3'' = ''Ship order 3''" by code_simp
  then show "trim ''Ship order 3'' \<noteq> []" "length (trim ''Ship order 3'') \<le> 4000" by simp_all
  show "dict_get (store (await demo_env demo_world)) 8 = None"
    by (simp add: store_await_alone [OF demo_alone] demo_world_def)
qed (simp_all add: demo_app_def)


text \<open>
  Cancelling a task that is not over succeeds when nobody else writes, whoever holds the write
  scope: the stored task is cancelled, carries no checkpoint, and its last history entry names the
  caller; model and tools are not asked anything.
\<close>

theorem cancellation_names_its_actor:
  assumes "app_repository A = mem_port" "alone e" "mem_invar (store w)"
    and "dict_get (store w) i = Some t" "\<not> is_terminal t"
  shows "\<exists>t' w'. cancel_task A e i why p w = (Inr (task_from_domain t'), w') \<and>
    dict_get (store w') = (dict_get (store w))(i \<mapsto> t') \<and> status t' = CANCELLED \<and> checkpoint t' = None \<and>
    reason (last (history t')) = Some (with_note (''cancelled by '' @ subject p) why) \<and>
    same_identity t t' \<and> event_trace w' = event_trace w"
proof -
  let ?why = "Some (with_note (''cancelled by '' @ subject p) why)"
  have "CANCELLED \<in> set (ALLOWED_TRANSITIONS (status t))"
    using assms(5) by (cases "status t") (simp_all add: is_terminal_def)
  then obtain t' where t': "transition_to t CANCELLED ?why None (now e (await e w)) = Inr t'"
    by (auto simp: transition_to_eq)
  have nm: "\<not> version_moved None t" by (simp add: version_moved_def)
  obtain r where r: "transition_task mem_port e i CANCELLED ?why None None w =
      (Inr t', (await e (await e w))\<lparr>store := r\<rparr>)" "dict_get r = (dict_get (store w))(i \<mapsto> id t')"
    using mem.transition_task_alone [OF assms(2,3,4) nm t' TrueI] by blast
  have "status t' = CANCELLED" "checkpoint t' = None" "reason (last (history t')) = ?why" "same_identity t t'"
    using t' by (simp_all add: transition_to_eq same_identity_def)
  with r assms(1) show ?thesis
    by (intro exI [of _ t'] exI [of _ "(await e (await e w))\<lparr>store := r\<rparr>"]) (simp add: cancel_task_eq fun_upd_def)
qed

theorem cancellation_names_its_actor_witness:
  "\<exists>t' w'. cancel_task demo_app demo_env 7 None \<lparr>subject = ''ana'', scopes = [TASKS_WRITE]\<rparr> demo_world =
      (Inr (task_from_domain t'), w') \<and>
    dict_get (store w') = (dict_get (store demo_world))(7 \<mapsto> t') \<and> status t' = CANCELLED \<and>
    checkpoint t' = None \<and>
    reason (last (history t')) =
      Some (with_note (''cancelled by '' @ subject \<lparr>subject = ''ana'', scopes = [TASKS_WRITE]\<rparr>) None) \<and>
    same_identity demo_task t' \<and> event_trace w' = event_trace demo_world"
  by (rule cancellation_names_its_actor [OF _ demo_alone demo_world_ok(1) demo_task_pending(1)])
     (simp_all add: demo_app_def is_terminal_def demo_task_pending(2))


text \<open>
  A call of an unknown tool, or with arguments its tool's model rejects, runs no handler and leaves
  the outside as it is; the model gets an error result for that call id that names the available
  tools or the offending tool.
\<close>

theorem bad_call_runs_nothing:
  assumes "get_tool reg (call_name call) = None \<or>
    (\<exists>t errors. get_tool reg (call_name call) = Some t \<and> tool_validate t (call_arguments call) = Inl errors)"
  shows "\<exists>r. execute reg call w = (r, w) \<and> res_is_error r \<and> res_call_id r = call_id call"
  using assms by (auto simp: execute_def)

theorem bad_call_runs_nothing_witness:
  "\<exists>r. execute demo_registry (pay_call\<lparr>call_arguments := []\<rparr>) demo_world = (r, demo_world) \<and>
    res_is_error r \<and> res_call_id r = call_id (pay_call\<lparr>call_arguments := []\<rparr>)"
  by (rule bad_call_runs_nothing) (simp add: get_tool_def demo_registry_def pay_call_def pay_tool_def)


text \<open>
  With an authenticator built from the issued clients, a presented token authenticates as a
  principal exactly when some issued client's token has its digest, and that principal is the
  client's; with a digest that separates the tokens at hand, exactly the issued tokens are accepted.
\<close>

theorem token_authenticates_its_client:
  assumes "mk_authenticator digest clients = Inr a"
    and "\<And>c. c \<in> set clients \<Longrightarrow> digest (client_token c) = digest presented \<Longrightarrow> client_token c = presented"
  shows "authenticate digest a presented = Some p \<longleftrightarrow>
    (\<exists>c \<in> set clients. client_token c = presented \<and> p = client_principal c)"
  using authenticate_iff [OF assms(1)] assms(2) by metis

theorem token_authenticates_its_client_witness:
  "authenticate (app_digest steady_app) (app_authenticator steady_app) (client_token (demo_clients ! 1)) =
      Some (client_principal (demo_clients ! 1)) \<longleftrightarrow>
    (\<exists>c \<in> set demo_clients. client_token c = client_token (demo_clients ! 1) \<and>
       client_principal (demo_clients ! 1) = client_principal c)"
  by (rule token_authenticates_its_client [OF steady_authenticator]) (simp add: steady_app_def)


text \<open>
  What a tool returns to the model is at most max_result_chars characters, or 87 for the fixed
  message of a handler that failed to run, whichever is larger, for every call of a turn, errors
  included.
\<close>

theorem tool_output_is_bounded:
  assumes "registry_ok reg" "execute_all reg prio calls w = (rs, w')" "j < length calls"
  shows "int (length (res_content (rs ! j))) \<le> max (max_result_chars reg) 87"
  using execute_all_each [OF assms(2,3)] execute_length [OF _ assms(1)] by blast

theorem tool_output_is_bounded_witness:
  "int (length (res_content (fst (execute_all demo_registry (\<lambda>i. i) [lookup_call] demo_world) ! 0)))
    \<le> max (max_result_chars demo_registry) 87"
  by (rule tool_output_is_bounded [OF demo_registry_ok prod.collapse [symmetric]]) simp


text \<open>
  A task that is over when a round begins (somebody cancelled it) ends the run there: no further
  model call, no tool call, the store keeps the final task, and the run reports that task instead of
  an outcome of its own.
\<close>

theorem taken_over_task_stops_the_run:
  assumes "task_repository R lookup invar storable stored"
    and "runner_repo D = R" "fair_env lookup invar e" "invar (store w)"
    and "lookup (store w) i = Some t" "is_terminal t" "rs_steps st \<noteq> 0"
    and "drive_loop D e i offered msgs st w = (out, w')"
  shows "\<exists>r. out = Inr r \<and> rr_task r = t \<and> rr_output r = [] \<and> rr_steps r = rs_steps st \<and>
    event_trace w' = event_trace w \<and> lookup (store w') i = Some t"
  using task_repository.terminal_stops_loop [OF assms] by (intro exI [of _ "discarded st t"]) simp

theorem taken_over_task_stops_the_run_witness:
  "\<exists>r. fst (drive_loop demo_runner demo_env 7 [] [] (new_run_state\<lparr>rs_steps := 1\<rparr>) approved_world) = Inr r \<and>
    rr_task r = the (dict_get (store approved_world) 7) \<and> rr_output r = [] \<and>
    rr_steps r = rs_steps (new_run_state\<lparr>rs_steps := 1\<rparr>) \<and>
    event_trace (snd (drive_loop demo_runner demo_env 7 [] [] (new_run_state\<lparr>rs_steps := 1\<rparr>) approved_world)) =
      event_trace approved_world \<and>
    dict_get (store (snd (drive_loop demo_runner demo_env 7 [] [] (new_run_state\<lparr>rs_steps := 1\<rparr>) approved_world))) 7 =
      Some (the (dict_get (store approved_world) 7))"
proof (rule taken_over_task_stops_the_run [OF mem.task_repository_axioms demo_repo demo_fair _ _ _ _ prod.collapse [symmetric]])
  have "mem.state_ok approved_world"
    using mem.resume_requests(2) [OF demo_repo demo_fair _ demo_resume_eq] held_world_ok
    by (simp add: mem.state_ok_def)
  then show "mem_invar (store approved_world)" by (simp add: mem.state_ok_def)
  have "map_option is_terminal (dict_get (store approved_world) 7) = Some True" by code_simp
  then show "dict_get (store approved_world) 7 = Some (the (dict_get (store approved_world) 7))"
    "is_terminal (the (dict_get (store approved_world) 7))"
    by auto
qed simp

end
