(* ===== verification/Wire_Format.thy ===== *)
theory Wire_Format
  imports Task_Repository
begin

section \<open>Models as JSON: what \<open>model_dump\<close> writes and \<open>model_validate\<close> reads\<close>

text \<open>
  The fields of the models of \<open>llm/models.py\<close> and \<open>tasks/models.py\<close> as the JSON documents that
  \<open>model_dump(mode="json")\<close> makes of them, and the constructors that \<open>model_validate\<close> runs on such
  documents: required and defaulted fields, unknown keys ignored, nested models built through
  their validators. Which other values Pydantic's lax mode accepts for a scalar field, how it
  prints a time and which field names its base class reserves is its own: the parameter \<open>pydantic\<close>, of which \<open>pydantic_ok\<close> states that it keeps a
  value that has the field's type already and reads the times it prints.
\<close>

record pydantic =
  lax_int :: "json \<Rightarrow> int option"
  lax_bool :: "json \<Rightarrow> bool option"
  lax_float :: "json \<Rightarrow> string option"
  lax_datetime :: "json \<Rightarrow> timestamp option"
  json_datetime :: "timestamp \<Rightarrow> string"
  refuses_field :: "string \<Rightarrow> bool"

text \<open>A float that prints with \<open>.0\<close>, such as \<open>3.0\<close>, is an integer to JSON Schema and to lax mode.\<close>

definition integral_float :: "string \<Rightarrow> bool" where
  "integral_float s \<longleftrightarrow> take 2 (rev s) = ''0.''"

definition pydantic_ok :: "pydantic \<Rightarrow> bool" where
  "pydantic_ok P \<longleftrightarrow>
     (\<forall>i. lax_int P (JInt i) = Some i) \<and> (\<forall>b. lax_bool P (JBool b) = Some b) \<and>
     (\<forall>s. integral_float s \<longrightarrow> lax_int P (JFloat s) \<noteq> None) \<and>
     (\<forall>s. lax_float P (JFloat s) = Some s) \<and> (\<forall>i. lax_float P (JInt i) \<noteq> None) \<and>
     (\<forall>t. lax_datetime P (JStr (json_datetime P t)) = Some t)"

lemma pydantic_keeps:
  "pydantic_ok P \<Longrightarrow> lax_int P (JInt i) = Some i"
  "pydantic_ok P \<Longrightarrow> lax_bool P (JBool b) = Some b"
  "pydantic_ok P \<Longrightarrow> integral_float s \<Longrightarrow> \<exists>j. lax_int P (JFloat s) = Some j"
  "pydantic_ok P \<Longrightarrow> lax_float P (JFloat s) = Some s"
  "pydantic_ok P \<Longrightarrow> \<exists>s. lax_float P (JInt i) = Some s"
  "pydantic_ok P \<Longrightarrow> lax_datetime P (JStr (json_datetime P t)) = Some t"
  by (simp_all add: pydantic_ok_def)


subsection \<open>Raising computations\<close>

fun and_then :: "'e + 'a \<Rightarrow> ('a \<Rightarrow> 'e + 'b) \<Rightarrow> 'e + 'b" where
  "and_then (Inl e) f = Inl e"
| "and_then (Inr a) f = f a"

lemma and_then_case [code_unfold]: "and_then r f = (case r of Inl e \<Rightarrow> Inl e | Inr a \<Rightarrow> f a)"
  by (cases r) simp_all

lemma and_then_Inr: "and_then r f = Inr b \<longleftrightarrow> (\<exists>a. r = Inr a \<and> f a = Inr b)"
  by (cases r) simp_all

lemma and_then_Inl: "and_then r f = Inl e \<longleftrightarrow> r = Inl e \<or> (\<exists>a. r = Inr a \<and> f a = Inl e)"
  by (cases r) simp_all

fun traverse :: "('a \<Rightarrow> 'e + 'b) \<Rightarrow> 'a list \<Rightarrow> 'e + 'b list" where
  "traverse f [] = Inr []"
| "traverse f (x # xs) = and_then (f x) (\<lambda>y. and_then (traverse f xs) (\<lambda>ys. Inr (y # ys)))"

lemma traverse_Inr: "traverse f xs = Inr ys \<longleftrightarrow> list_all2 (\<lambda>x y. f x = Inr y) xs ys"
  by (induction xs arbitrary: ys) (auto simp: and_then_Inr list_all2_Cons1)

lemma traverse_map: "traverse f (map g xs) = traverse (\<lambda>x. f (g x)) xs"
  by (induction xs) simp_all

lemma traverse_same: "(\<And>x. x \<in> set xs \<Longrightarrow> f x = Inr (g x)) \<Longrightarrow> traverse f xs = Inr (map g xs)"
  by (induction xs) simp_all

text \<open>A list read element by element from documents each related to the value it came from.\<close>

lemma traverse_related:
  assumes "list_all2 (\<lambda>x v. A x v) xs vs"
    and "\<And>x v. x \<in> set xs \<Longrightarrow> A x v \<Longrightarrow> \<exists>y. f v = Inr y \<and> B x y"
  shows "\<exists>ys. traverse f vs = Inr ys \<and> list_all2 B xs ys"
  using assms by (induction rule: list_all2_induct) fastforce+

lemma traverse_related_result:
  assumes "list_all2 (\<lambda>x v. A x v) xs vs" and "traverse f vs = Inr ys"
    and "\<And>x v y. A x v \<Longrightarrow> f v = Inr y \<Longrightarrow> B x y"
  shows "list_all2 B xs ys"
  using assms by (induction arbitrary: ys rule: list_all2_induct) (auto simp: and_then_Inr)


subsection \<open>Fields of a document\<close>

definition as_object :: "json \<Rightarrow> exn + json_object" where
  "as_object v = (case v of JObj d \<Rightarrow> Inr d | _ \<Rightarrow> Inl (ValidationError ''model_type''))"

definition as_list :: "json \<Rightarrow> exn + json list" where
  "as_list v = (case v of JList vs \<Rightarrow> Inr vs | _ \<Rightarrow> Inl (ValidationError ''list_type''))"

definition as_str :: "json \<Rightarrow> exn + string" where
  "as_str v = (case v of JStr s \<Rightarrow> Inr s | _ \<Rightarrow> Inl (ValidationError ''string_type''))"

definition as_opt_str :: "json \<Rightarrow> exn + string option" where
  "as_opt_str v = (case v of JNull \<Rightarrow> Inr None | _ \<Rightarrow> and_then (as_str v) (\<lambda>s. Inr (Some s)))"

definition lax :: "(json \<Rightarrow> 'a option) \<Rightarrow> json \<Rightarrow> exn + 'a" where
  "lax f v = (case f v of None \<Rightarrow> Inl (ValidationError ''type'') | Some x \<Rightarrow> Inr x)"

definition required_field :: "(json \<Rightarrow> exn + 'a) \<Rightarrow> string \<Rightarrow> json_object \<Rightarrow> exn + 'a" where
  "required_field rd k d =
     (case dict_get d k of None \<Rightarrow> Inl (ValidationError (k @ '': missing'')) | Some v \<Rightarrow> rd v)"

definition field_or :: "(json \<Rightarrow> exn + 'a) \<Rightarrow> string \<Rightarrow> 'a \<Rightarrow> json_object \<Rightarrow> exn + 'a" where
  "field_or rd k dflt d = (case dict_get d k of None \<Rightarrow> Inr dflt | Some v \<Rightarrow> rd v)"

lemmas field_defs = as_object_def as_list_def as_str_def as_opt_str_def lax_def
  required_field_def field_or_def


subsection \<open>Dumping\<close>

fun role_value :: "role \<Rightarrow> string" where
  "role_value USER = ''user''"
| "role_value ASSISTANT = ''assistant''"

definition dump_call :: "tool_call \<Rightarrow> json" where
  "dump_call c = JObj [(''id'', JStr (call_id c)), (''name'', JStr (call_name c)),
     (''arguments'', JObj (call_arguments c))]"

definition dump_result :: "tool_result \<Rightarrow> json" where
  "dump_result r = JObj [(''call_id'', JStr (res_call_id r)), (''content'', JStr (res_content r)),
     (''is_error'', JBool (res_is_error r))]"

definition dump_message :: "message \<Rightarrow> json" where
  "dump_message m = JObj [(''role'', JStr (role_value (msg_role m))), (''content'', JStr (msg_content m)),
     (''tool_calls'', JList (map dump_call (msg_tool_calls m))),
     (''tool_results'', JList (map dump_result (msg_tool_results m)))]"

definition dump_usage :: "token_usage \<Rightarrow> json" where
  "dump_usage u = JObj [(''input_tokens'', JInt (input_tokens u)), (''output_tokens'', JInt (output_tokens u))]"

definition dump_checkpoint :: "run_checkpoint \<Rightarrow> json" where
  "dump_checkpoint cp = JObj [(''messages'', JList (map dump_message (cp_messages cp))),
     (''steps'', JInt (cp_steps cp)), (''tool_calls'', JInt (cp_tool_calls cp)),
     (''usage'', dump_usage (cp_usage cp))]"

definition dump_transition :: "pydantic \<Rightarrow> status_transition \<Rightarrow> json" where
  "dump_transition P h = JObj [(''from_status'', JStr (status_value (from_status h))),
     (''to_status'', JStr (status_value (to_status h))),
     (''at'', JStr (json_datetime P (at_time h))),
     (''reason'', case reason h of None \<Rightarrow> JNull | Some s \<Rightarrow> JStr s)]"


subsection \<open>Reading\<close>

definition load_role :: "json \<Rightarrow> exn + role" where
  "load_role v =
     (if v = JStr (role_value USER) then Inr USER
      else if v = JStr (role_value ASSISTANT) then Inr ASSISTANT
      else Inl (ValidationError ''enum''))"

definition load_status :: "json \<Rightarrow> exn + task_status" where
  "load_status v = and_then (as_str v) (\<lambda>s.
     case parse_status s of None \<Rightarrow> Inl (ValidationError ''enum'') | Some st \<Rightarrow> Inr st)"

definition load_call :: "json \<Rightarrow> exn + tool_call" where
  "load_call v = and_then (as_object v) (\<lambda>d.
     and_then (required_field as_str ''id'' d) (\<lambda>i.
     and_then (required_field as_str ''name'' d) (\<lambda>n.
     and_then (field_or as_object ''arguments'' [] d) (\<lambda>a. mk_tool_call i n a))))"

definition load_result :: "pydantic \<Rightarrow> json \<Rightarrow> exn + tool_result" where
  "load_result P v = and_then (as_object v) (\<lambda>d.
     and_then (required_field as_str ''call_id'' d) (\<lambda>i.
     and_then (required_field as_str ''content'' d) (\<lambda>c.
     and_then (field_or (lax (lax_bool P)) ''is_error'' False d) (\<lambda>e. mk_tool_result i c e))))"

definition load_message :: "pydantic \<Rightarrow> json \<Rightarrow> exn + message" where
  "load_message P v = and_then (as_object v) (\<lambda>d.
     and_then (required_field load_role ''role'' d) (\<lambda>r.
     and_then (field_or as_str ''content'' [] d) (\<lambda>c.
     and_then (field_or (\<lambda>x. and_then (as_list x) (traverse load_call)) ''tool_calls'' [] d) (\<lambda>cs.
     and_then (field_or (\<lambda>x. and_then (as_list x) (traverse (load_result P))) ''tool_results'' [] d)
       (\<lambda>rs. mk_message r c cs rs)))))"

definition load_usage :: "pydantic \<Rightarrow> json \<Rightarrow> exn + token_usage" where
  "load_usage P v = and_then (as_object v) (\<lambda>d.
     and_then (required_field (lax (lax_int P)) ''input_tokens'' d) (\<lambda>i.
     and_then (required_field (lax (lax_int P)) ''output_tokens'' d) (\<lambda>out. mk_token_usage i out)))"

definition load_checkpoint :: "pydantic \<Rightarrow> json \<Rightarrow> exn + run_checkpoint" where
  "load_checkpoint P v = and_then (as_object v) (\<lambda>d.
     and_then (required_field (\<lambda>x. and_then (as_list x) (traverse (load_message P))) ''messages'' d) (\<lambda>ms.
     and_then (required_field (lax (lax_int P)) ''steps'' d) (\<lambda>n.
     and_then (required_field (lax (lax_int P)) ''tool_calls'' d) (\<lambda>k.
     and_then (required_field (load_usage P) ''usage'' d) (\<lambda>u. mk_run_checkpoint ms n k u)))))"

definition load_transition :: "pydantic \<Rightarrow> json \<Rightarrow> exn + status_transition" where
  "load_transition P v = and_then (as_object v) (\<lambda>d.
     and_then (required_field load_status ''from_status'' d) (\<lambda>f.
     and_then (required_field load_status ''to_status'' d) (\<lambda>t.
     and_then (required_field (lax (lax_datetime P)) ''at'' d) (\<lambda>a.
     and_then (field_or as_opt_str ''reason'' None d) (\<lambda>w.
       Inr \<lparr>from_status = f, to_status = t, at_time = a, reason = w\<rparr>)))))"


subsection \<open>Documents that differ in spelling only\<close>

text \<open>
  What a database that stores JSON values rather than their text may change: the order of an
  object's members and the spelling of a number that is not an integer.
\<close>

inductive json_equiv :: "json \<Rightarrow> json \<Rightarrow> bool" where
  Null: "json_equiv JNull JNull"
| Bool: "json_equiv (JBool b) (JBool b)"
| Int: "json_equiv (JInt i) (JInt i)"
| Float: "json_equiv (JFloat s) (JFloat s')"
| FloatInt: "json_equiv (JFloat s) (JInt i)"
| Str: "json_equiv (JStr s) (JStr s)"
| List: "list_all2 json_equiv xs ys \<Longrightarrow> json_equiv (JList xs) (JList ys)"
| Obj: "(\<And>k. rel_option json_equiv (map_of d k) (map_of d' k)) \<Longrightarrow> json_equiv (JObj d) (JObj d')"

inductive_simps json_equiv_simps [simp]:
  "json_equiv JNull v" "json_equiv (JBool b) v" "json_equiv (JInt i) v" "json_equiv (JStr s) v"
  "json_equiv (JList xs) v" "json_equiv (JObj d) v"

lemma json_equiv_refl: "json_equiv v v"
proof (induction v)
  case (JList xs)
  then show ?case by (auto intro!: json_equiv.List simp: list_all2_same)
next
  case (JObj d)
  have "rel_option json_equiv (map_of d k) (map_of d k)" for k
    using JObj by (cases "map_of d k") (auto dest!: map_of_SomeD)
  then show ?case by (rule json_equiv.Obj)
qed (auto intro: json_equiv.intros)

lemma equiv_member:
  assumes "\<And>k. rel_option json_equiv (map_of d k) (map_of d' k)" and "map_of d k = Some v"
  shows "\<exists>v'. map_of d' k = Some v' \<and> json_equiv v v'"
  using assms(1) [of k] assms(2) by (auto simp: option_rel_Some1)


subsection \<open>Round trips\<close>

text \<open>Calls, messages and checkpoints equal but for the spelling of the calls' arguments.\<close>

definition call_equiv :: "tool_call \<Rightarrow> tool_call \<Rightarrow> bool" where
  "call_equiv c c' \<longleftrightarrow> call_id c' = call_id c \<and> call_name c' = call_name c \<and>
     json_equiv (JObj (call_arguments c)) (JObj (call_arguments c'))"

definition message_equiv :: "message \<Rightarrow> message \<Rightarrow> bool" where
  "message_equiv m m' \<longleftrightarrow> msg_role m' = msg_role m \<and> msg_content m' = msg_content m \<and>
     list_all2 call_equiv (msg_tool_calls m) (msg_tool_calls m') \<and>
     msg_tool_results m' = msg_tool_results m"

definition checkpoint_equiv :: "run_checkpoint \<Rightarrow> run_checkpoint \<Rightarrow> bool" where
  "checkpoint_equiv cp cp' \<longleftrightarrow>
     list_all2 message_equiv (cp_messages cp) (cp_messages cp') \<and>
     cp_steps cp' = cp_steps cp \<and> cp_tool_calls cp' = cp_tool_calls cp \<and> cp_usage cp' = cp_usage cp"

text \<open>
  The values of the record types that are objects of the classes: those their validators accept.
\<close>

definition result_ok :: "tool_result \<Rightarrow> bool" where
  "result_ok r \<longleftrightarrow> res_call_id r \<noteq> []"

definition message_object :: "message \<Rightarrow> bool" where
  "message_object m \<longleftrightarrow> message_ok m \<and> list_all tool_call_ok (msg_tool_calls m) \<and>
     list_all result_ok (msg_tool_results m)"

definition checkpoint_object :: "run_checkpoint \<Rightarrow> bool" where
  "checkpoint_object cp \<longleftrightarrow> checkpoint_ok cp \<and> list_all message_object (cp_messages cp) \<and>
     usage_ok (cp_usage cp)"

lemma load_status_value [simp]: "load_status (JStr (status_value st)) = Inr st"
  by (simp add: load_status_def as_str_def)

lemma load_status_Inr: "load_status (JStr s) = Inr st \<Longrightarrow> status_value st = s"
  by (auto simp: load_status_def as_str_def parse_status_def find_Some_iff split: option.splits)

lemma load_role_value [simp]: "load_role (JStr (role_value r)) = Inr r"
  by (cases r) (simp_all add: load_role_def)

lemma load_call_equiv:
  assumes "json_equiv (dump_call c) v"
  shows "\<exists>a. json_equiv (JObj (call_arguments c)) (JObj a) \<and>
    load_call v = mk_tool_call (call_id c) (call_name c) a"
proof -
  obtain d where v: "v = JObj d"
      and d: "\<And>k. rel_option json_equiv (map_of [(''id'', JStr (call_id c)),
         (''name'', JStr (call_name c)), (''arguments'', JObj (call_arguments c))] k) (map_of d k)"
    using assms by (auto simp: dump_call_def)
  have "map_of d ''id'' = Some (JStr (call_id c))" "map_of d ''name'' = Some (JStr (call_name c))"
    using d [of "''id''"] d [of "''name''"] by (simp_all add: option_rel_Some1)
  moreover obtain a where "map_of d ''arguments'' = Some (JObj a)"
      "json_equiv (JObj (call_arguments c)) (JObj a)"
    using d [of "''arguments''"] by (auto simp: option_rel_Some1)
  ultimately show ?thesis
    by (intro exI [of _ a]) (simp add: v load_call_def field_defs)
qed

lemma load_result_equiv:
  assumes "pydantic_ok P" and "json_equiv (dump_result r) v"
  shows "load_result P v = mk_tool_result (res_call_id r) (res_content r) (res_is_error r)"
proof -
  obtain d where v: "v = JObj d"
      and d: "\<And>k. rel_option json_equiv (map_of [(''call_id'', JStr (res_call_id r)),
         (''content'', JStr (res_content r)), (''is_error'', JBool (res_is_error r))] k) (map_of d k)"
    using assms by (auto simp: dump_result_def)
  have "map_of d ''call_id'' = Some (JStr (res_call_id r))"
      "map_of d ''content'' = Some (JStr (res_content r))"
      "map_of d ''is_error'' = Some (JBool (res_is_error r))"
    using d [of "''call_id''"] d [of "''content''"] d [of "''is_error''"]
    by (simp_all add: option_rel_Some1)
  then show ?thesis
    by (simp add: v load_result_def field_defs pydantic_keeps(1,2,6) [OF assms(1)])
qed

lemma load_calls_equiv:
  assumes "list_all2 json_equiv (map dump_call cs) vs"
  shows "traverse load_call vs = Inr cs' \<Longrightarrow> list_all2 call_equiv cs cs'"
    and "list_all tool_call_ok cs \<Longrightarrow> \<exists>cs'. traverse load_call vs = Inr cs'"
proof -
  have rel: "list_all2 (\<lambda>c v. json_equiv (dump_call c) v) cs vs"
    using assms by (simp add: list_all2_map1)
  show "list_all2 call_equiv cs cs'" if "traverse load_call vs = Inr cs'"
    using rel that
  proof (rule traverse_related_result)
    show "call_equiv c y" if "json_equiv (dump_call c) v" "load_call v = Inr y" for c v y
      using load_call_equiv [OF that(1)] that(2)
      by (auto simp: call_equiv_def mk_tool_call_def split: if_splits)
  qed
  assume ok: "list_all tool_call_ok cs"
  have "\<exists>cs'. traverse load_call vs = Inr cs' \<and> list_all2 (\<lambda>_ _. True) cs cs'"
    using rel
  proof (rule traverse_related)
    show "\<exists>y. load_call v = Inr y \<and> True" if "c \<in> set cs" "json_equiv (dump_call c) v" for c v
      using load_call_equiv [OF that(2)] ok that(1)
      by (auto simp: list_all_iff tool_call_ok_def mk_tool_call_def)
  qed
  then show "\<exists>cs'. traverse load_call vs = Inr cs'" by blast
qed

lemma load_results_equiv:
  assumes "pydantic_ok P" and "list_all2 json_equiv (map dump_result rs) vs"
  shows "traverse (load_result P) vs = Inr rs' \<Longrightarrow> rs' = rs"
    and "list_all result_ok rs \<Longrightarrow> traverse (load_result P) vs = Inr rs"
proof -
  have rel: "list_all2 (\<lambda>r v. json_equiv (dump_result r) v) rs vs"
    using assms(2) by (simp add: list_all2_map1)
  have eq: "list_all2 (=) rs rs'" if "traverse (load_result P) vs = Inr rs'" for rs'
    using rel that
  proof (rule traverse_related_result)
    show "r = y" if "json_equiv (dump_result r) v" "load_result P v = Inr y" for r v y
      using that(2) load_result_equiv [OF assms(1) that(1)]
      by (auto simp: mk_tool_result_def split: if_splits)
  qed
  then show "rs' = rs" if "traverse (load_result P) vs = Inr rs'"
    using that by (simp add: list.rel_eq)
  assume ok: "list_all result_ok rs"
  have "\<exists>rs'. traverse (load_result P) vs = Inr rs' \<and> list_all2 (=) rs rs'"
    using rel
  proof (rule traverse_related)
    show "\<exists>y. load_result P v = Inr y \<and> r = y" if "r \<in> set rs" "json_equiv (dump_result r) v" for r v
      using load_result_equiv [OF assms(1) that(2)] ok that(1)
      by (auto simp: list_all_iff result_ok_def mk_tool_result_def)
  qed
  then show "traverse (load_result P) vs = Inr rs" by (simp add: list.rel_eq)
qed

lemma load_message_equiv:
  assumes P: "pydantic_ok P" and "json_equiv (dump_message m) v"
  shows "load_message P v = Inr m' \<Longrightarrow> message_equiv m m'"
    and "message_object m \<Longrightarrow> \<exists>m'. load_message P v = Inr m'"
proof -
  obtain d where v: "v = JObj d"
      and d: "\<And>k. rel_option json_equiv (map_of [(''role'', JStr (role_value (msg_role m))),
         (''content'', JStr (msg_content m)),
         (''tool_calls'', JList (map dump_call (msg_tool_calls m))),
         (''tool_results'', JList (map dump_result (msg_tool_results m)))] k) (map_of d k)"
    using assms by (auto simp: dump_message_def)
  have r: "map_of d ''role'' = Some (JStr (role_value (msg_role m)))"
      and c: "map_of d ''content'' = Some (JStr (msg_content m))"
    using d [of "''role''"] d [of "''content''"] by (simp_all add: option_rel_Some1)
  obtain cv where cv: "map_of d ''tool_calls'' = Some (JList cv)"
      "list_all2 json_equiv (map dump_call (msg_tool_calls m)) cv"
    using d [of "''tool_calls''"] by (auto simp: option_rel_Some1)
  obtain rv where rv: "map_of d ''tool_results'' = Some (JList rv)"
      "list_all2 json_equiv (map dump_result (msg_tool_results m)) rv"
    using d [of "''tool_results''"] by (auto simp: option_rel_Some1)
  have eq: "load_message P v = and_then (traverse load_call cv) (\<lambda>cs.
      and_then (traverse (load_result P) rv) (\<lambda>rs. mk_message (msg_role m) (msg_content m) cs rs))"
    by (simp add: v load_message_def field_defs r c cv rv)
  show "message_equiv m m'" if load: "load_message P v = Inr m'"
  proof -
    obtain cs rs where "traverse load_call cv = Inr cs" "traverse (load_result P) rv = Inr rs"
        "mk_message (msg_role m) (msg_content m) cs rs = Inr m'"
      using load [unfolded eq and_then_Inr] by blast
    then show ?thesis
      using load_calls_equiv(1) [OF cv(2)] load_results_equiv(1) [OF P rv(2)]
      by (auto simp: message_equiv_def mk_message_eq)
  qed
  assume ok: "message_object m"
  obtain cs where cs: "traverse load_call cv = Inr cs"
    using load_calls_equiv(2) [OF cv(2)] ok by (auto simp: message_object_def)
  have "cs = [] \<longleftrightarrow> msg_tool_calls m = []"
    using load_calls_equiv(1) [OF cv(2) cs] by auto
  moreover have "traverse (load_result P) rv = Inr (msg_tool_results m)"
    using load_results_equiv(2) [OF P rv(2)] ok by (simp add: message_object_def)
  ultimately show "\<exists>m'. load_message P v = Inr m'"
    using cs ok by (simp add: eq mk_message_eq message_object_def message_ok_def)
qed

lemma load_usage_equiv:
  assumes "pydantic_ok P" and "json_equiv (dump_usage u) v"
  shows "load_usage P v = mk_token_usage (input_tokens u) (output_tokens u)"
proof -
  obtain d where v: "v = JObj d"
      and d: "\<And>k. rel_option json_equiv (map_of [(''input_tokens'', JInt (input_tokens u)),
         (''output_tokens'', JInt (output_tokens u))] k) (map_of d k)"
    using assms by (auto simp: dump_usage_def)
  have "map_of d ''input_tokens'' = Some (JInt (input_tokens u))"
      "map_of d ''output_tokens'' = Some (JInt (output_tokens u))"
    using d [of "''input_tokens''"] d [of "''output_tokens''"] by (simp_all add: option_rel_Some1)
  then show ?thesis
    by (simp add: v load_usage_def field_defs pydantic_keeps(1,2,6) [OF assms(1)])
qed

lemma message_equiv_shape:
  assumes "list_all2 message_equiv ms ms'"
  shows "ms' = [] \<longleftrightarrow> ms = []"
    and "ms \<noteq> [] \<Longrightarrow> message_equiv (hd ms) (hd ms') \<and> message_equiv (last ms) (last ms')"
proof -
  show "ms' = [] \<longleftrightarrow> ms = []" using assms by auto
  assume ne: "ms \<noteq> []"
  with assms have "ms' \<noteq> []" by auto
  then show "message_equiv (hd ms) (hd ms') \<and> message_equiv (last ms) (last ms')"
    using assms ne by (auto simp: hd_conv_nth last_conv_nth list_all2_conv_all_nth)
qed

lemma checkpoint_equiv_ok: "checkpoint_equiv cp cp' \<Longrightarrow> checkpoint_ok cp \<Longrightarrow> checkpoint_ok cp'"
  using message_equiv_shape [of "cp_messages cp" "cp_messages cp'"]
  by (auto simp: checkpoint_equiv_def checkpoint_ok_def pending_calls_def message_equiv_def)

text \<open>
  A checkpoint read back from any spelling of its document is the checkpoint, up to the spelling
  of the arguments; every checkpoint object can be read back.
\<close>

lemma load_checkpoint_equiv:
  assumes P: "pydantic_ok P" and "json_equiv (dump_checkpoint cp) v"
  shows "load_checkpoint P v = Inr cp' \<Longrightarrow> checkpoint_equiv cp cp'"
    and "checkpoint_object cp \<Longrightarrow> \<exists>cp'. load_checkpoint P v = Inr cp'"
proof -
  obtain d where v: "v = JObj d"
      and d: "\<And>k. rel_option json_equiv (map_of [
         (''messages'', JList (map dump_message (cp_messages cp))),
         (''steps'', JInt (cp_steps cp)), (''tool_calls'', JInt (cp_tool_calls cp)),
         (''usage'', dump_usage (cp_usage cp))] k) (map_of d k)"
    using assms by (auto simp: dump_checkpoint_def)
  have n: "map_of d ''steps'' = Some (JInt (cp_steps cp))"
      "map_of d ''tool_calls'' = Some (JInt (cp_tool_calls cp))"
    using d [of "''steps''"] d [of "''tool_calls''"] by (simp_all add: option_rel_Some1)
  obtain mv where mv: "map_of d ''messages'' = Some (JList mv)"
      "list_all2 json_equiv (map dump_message (cp_messages cp)) mv"
    using d [of "''messages''"] by (auto simp: option_rel_Some1)
  obtain uv where uv: "map_of d ''usage'' = Some uv" "json_equiv (dump_usage (cp_usage cp)) uv"
    using d [of "''usage''"] by (auto simp: option_rel_Some1)
  have rel: "list_all2 (\<lambda>m x. json_equiv (dump_message m) x) (cp_messages cp) mv"
    using mv(2) by (simp add: list_all2_map1)
  have eq: "load_checkpoint P v = and_then (traverse (load_message P) mv) (\<lambda>ms.
      and_then (mk_token_usage (input_tokens (cp_usage cp)) (output_tokens (cp_usage cp))) (\<lambda>u.
        mk_run_checkpoint ms (cp_steps cp) (cp_tool_calls cp) u))"
    by (simp add: v load_checkpoint_def field_defs n mv uv(1) load_usage_equiv [OF P uv(2)]
        pydantic_keeps(1,2,6) [OF P])
  have msgs: "list_all2 message_equiv (cp_messages cp) ms" if "traverse (load_message P) mv = Inr ms" for ms
    using rel that by (rule traverse_related_result) (rule load_message_equiv(1) [OF P])
  show "checkpoint_equiv cp cp'" if load: "load_checkpoint P v = Inr cp'"
  proof -
    obtain ms u where "traverse (load_message P) mv = Inr ms"
        "mk_token_usage (input_tokens (cp_usage cp)) (output_tokens (cp_usage cp)) = Inr u"
        "mk_run_checkpoint ms (cp_steps cp) (cp_tool_calls cp) u = Inr cp'"
      using load [unfolded eq and_then_Inr] by blast
    then show ?thesis
      using msgs
      by (auto simp: mk_run_checkpoint_eq checkpoint_equiv_def mk_token_usage_def split: if_splits)
  qed
  assume ok: "checkpoint_object cp"
  have "\<exists>ms. traverse (load_message P) mv = Inr ms \<and> list_all2 (\<lambda>_ _. True) (cp_messages cp) ms"
    using rel
  proof (rule traverse_related)
    show "\<exists>y. load_message P x = Inr y \<and> True"
      if "m \<in> set (cp_messages cp)" "json_equiv (dump_message m) x" for m x
      using load_message_equiv(2) [OF P that(2)] that(1) ok
      by (auto simp: checkpoint_object_def list_all_iff)
  qed
  then obtain ms where ms: "traverse (load_message P) mv = Inr ms" by blast
  have u: "mk_token_usage (input_tokens (cp_usage cp)) (output_tokens (cp_usage cp)) = Inr (cp_usage cp)"
    using ok by (simp add: checkpoint_object_def usage_ok_def mk_token_usage_def)
  have "checkpoint_ok \<lparr>cp_messages = ms, cp_steps = cp_steps cp, cp_tool_calls = cp_tool_calls cp,
      cp_usage = cp_usage cp\<rparr>"
    by (rule checkpoint_equiv_ok [of cp])
       (use msgs [OF ms] ok in \<open>simp_all add: checkpoint_equiv_def checkpoint_object_def\<close>)
  then show "\<exists>cp'. load_checkpoint P v = Inr cp'"
    by (simp add: eq ms u mk_run_checkpoint_eq)
qed

lemma load_transition_equiv:
  assumes P: "pydantic_ok P" and "json_equiv (dump_transition P h) v"
  shows "load_transition P v = Inr h"
proof -
  obtain d where v: "v = JObj d"
      and d: "\<And>k. rel_option json_equiv (map_of [
         (''from_status'', JStr (status_value (from_status h))),
         (''to_status'', JStr (status_value (to_status h))),
         (''at'', JStr (json_datetime P (at_time h))),
         (''reason'', case reason h of None \<Rightarrow> JNull | Some s \<Rightarrow> JStr s)] k) (map_of d k)"
    using assms by (auto simp: dump_transition_def)
  have "map_of d ''from_status'' = Some (JStr (status_value (from_status h)))"
      "map_of d ''to_status'' = Some (JStr (status_value (to_status h)))"
      "map_of d ''at'' = Some (JStr (json_datetime P (at_time h)))"
    using d [of "''from_status''"] d [of "''to_status''"] d [of "''at''"]
    by (simp_all add: option_rel_Some1)
  moreover have "map_of d ''reason'' = Some (case reason h of None \<Rightarrow> JNull | Some s \<Rightarrow> JStr s)"
    using d [of "''reason''"] by (cases "reason h") (simp_all add: option_rel_Some1)
  ultimately show ?thesis
    by (simp add: v load_transition_def load_status_def field_defs pydantic_keeps(1,2,6) [OF P]
             split: option.split)
qed

lemma load_history_equiv:
  assumes "pydantic_ok P" and "list_all2 json_equiv (map (dump_transition P) hs) vs"
  shows "traverse (load_transition P) vs = Inr hs"
proof -
  have "list_all2 (\<lambda>h v. json_equiv (dump_transition P h) v) hs vs"
    using assms(2) by (simp add: list_all2_map1)
  then have "\<exists>ys. traverse (load_transition P) vs = Inr ys \<and> list_all2 (=) hs ys"
    by (rule traverse_related) (simp add: load_transition_equiv [OF assms(1)])
  then show ?thesis by (simp add: list.rel_eq)
qed

text \<open>The conversation of a paused run keeps its shape.\<close>

lemma paired_equiv:
  assumes "list_all2 message_equiv ms ms'"
  shows "map call_id calls' = map call_id calls \<Longrightarrow> paired calls ms \<Longrightarrow> paired calls' ms'"
  using assms
proof (induction arbitrary: calls calls' rule: list_all2_induct)
  case (Cons m ms m' ms')
  have "map call_id (msg_tool_calls m') = map call_id (msg_tool_calls m)"
    using Cons.hyps(1)
    by (auto simp: message_equiv_def call_equiv_def list_all2_conv_all_nth intro: nth_equalityI)
  with Cons show ?case by (auto simp: message_equiv_def)
qed simp

lemma message_equiv_ok: "message_equiv m m' \<Longrightarrow> message_ok m \<Longrightarrow> message_ok m'"
  by (auto simp: message_equiv_def message_ok_def)

lemma paused_equiv:
  assumes "checkpoint_equiv cp cp'" and "paused_ok cp"
  shows "paused_ok cp'"
proof -
  have ms: "list_all2 message_equiv (cp_messages cp) (cp_messages cp')"
    using assms(1) by (simp add: checkpoint_equiv_def)
  have "list_all message_ok (cp_messages cp')"
    using ms assms(2)
    by (simp add: paused_ok_def conversation_ok_def list_all_length list_all2_conv_all_nth)
       (metis message_equiv_ok)
  moreover have "msg_role (hd (cp_messages cp')) = USER" "cp_messages cp' \<noteq> []"
    using message_equiv_shape [OF ms] assms(2)
    by (auto simp: paused_ok_def conversation_ok_def message_equiv_def)
  ultimately show ?thesis
    using checkpoint_equiv_ok [OF assms(1)] paired_equiv [OF ms, of "[]" "[]"] assms(2)
    by (simp add: paused_ok_def conversation_ok_def)
qed

end
