(* ===== verification/MCP_Protocol.thy ===== *)
theory MCP_Protocol
  imports Wire_Format Tool_Registry
begin

section \<open>MCP servers: configuration, risk policy and wire types (\<open>mcp/policy.py\<close>, \<open>mcp/protocol.py\<close>)\<close>

text \<open>
  A server's configuration is local; \<open>risk_for\<close> decides a tool's risk from it and the tool's name.
  What a server advertises is read into \<open>mcp_tool_declaration\<close>, which has room for a name, a
  description and an input schema only. The first part renders decoded JSON as Python prints it,
  since the client puts such values into its messages.
\<close>


subsection \<open>\<open>repr\<close>, \<open>str\<close> and truth of decoded JSON\<close>

definition hex2 :: "nat \<Rightarrow> string" where
  "hex2 n = [digit_char (n div 16 mod 16), digit_char (n mod 16)]"

definition repr_char :: "char \<Rightarrow> char \<Rightarrow> string" where
  "repr_char q c =
     (let n = of_char c in
      if c = q \<or> c = CHR 0x5C then [CHR 0x5C, c]
      else if n = 9 then [CHR 0x5C, CHR ''t'']
      else if n = 10 then [CHR 0x5C, CHR ''n'']
      else if n = 13 then [CHR 0x5C, CHR ''r'']
      else if n < 32 \<or> n \<in> {127, 129, 141, 143, 144, 157, 160, 173 :: nat}
      then [CHR 0x5C, CHR ''x''] @ hex2 n
      else [c])"

definition repr_str :: "string \<Rightarrow> string" where
  "repr_str s =
     (let q = (if CHR 0x27 \<in> set s \<and> CHR 0x22 \<notin> set s then CHR 0x22 else CHR 0x27)
      in [q] @ concat (map (repr_char q) s) @ [q])"

fun py_repr :: "json \<Rightarrow> string" where
  "py_repr JNull = ''None''"
| "py_repr (JBool b) = (if b then ''True'' else ''False'')"
| "py_repr (JInt i) = int_str i"
| "py_repr (JFloat s) = s"
| "py_repr (JStr s) = repr_str s"
| "py_repr (JList vs) = ''['' @ py_join '', '' (map py_repr vs) @ '']''"
| "py_repr (JObj d) =
     ''{'' @ py_join '', '' (map (\<lambda>(k, v). repr_str k @ '': '' @ py_repr v) d) @ ''}''"

fun py_str :: "json \<Rightarrow> string" where
  "py_str (JStr s) = s"
| "py_str v = py_repr v"

fun truthy :: "json \<Rightarrow> bool" where
  "truthy JNull = False"
| "truthy (JBool b) = b"
| "truthy (JInt i) = (i \<noteq> 0)"
| "truthy (JFloat s) = (s \<noteq> ''0.0'' \<and> s \<noteq> ''-0.0'')"
| "truthy (JStr s) = (s \<noteq> [])"
| "truthy (JList vs) = (vs \<noteq> [])"
| "truthy (JObj d) = (d \<noteq> [])"

text \<open>\<open>_as_dict\<close>, and \<open>d.get(k)\<close> with Python's \<open>None\<close> for a missing key.\<close>

fun as_dict :: "json \<Rightarrow> json_object" where
  "as_dict (JObj d) = d"
| "as_dict _ = []"

definition get_or_null :: "json_object \<Rightarrow> string \<Rightarrow> json" where
  "get_or_null d k = (case dict_get d k of None \<Rightarrow> JNull | Some v \<Rightarrow> v)"


subsection \<open>Server configuration\<close>

text \<open>Timeouts are whole milliseconds.\<close>

record mcp_server_config =
  mcp_name :: string
  mcp_command :: string
  mcp_args :: "string list"
  mcp_env :: "(string, string) dict"
  mcp_cwd :: "string option"
  default_risk :: risk_level
  tool_risk_overrides :: "(string, risk_level) dict"
  startup_timeout_ms :: int
  call_timeout_ms :: int

definition is_server_name_char :: "char \<Rightarrow> bool" where
  "is_server_name_char c \<longleftrightarrow> is_lower c \<or> is_digit c \<or> c = CHR ''_''"

text \<open>\<open>SERVER_NAME_PATTERN\<close>.\<close>

definition valid_server_name :: "string \<Rightarrow> bool" where
  "valid_server_name s \<longleftrightarrow>
     (case s of [] \<Rightarrow> False
      | c # cs \<Rightarrow> (is_lower c \<or> is_digit c) \<and> matches_class is_server_name_char 0 23 cs)"

definition mk_mcp_server_config :: "mcp_server_config \<Rightarrow> exn + mcp_server_config" where
  "mk_mcp_server_config c =
     (if \<not> valid_server_name (mcp_name c) then Inl (ValidationError ''name: pattern'')
      else if mcp_command c = [] then Inl (ValidationError ''command: min_length'')
      else if startup_timeout_ms c \<le> 0 then Inl (ValidationError ''startup_timeout_seconds: gt'')
      else if call_timeout_ms c \<le> 0 then Inl (ValidationError ''call_timeout_seconds: gt'')
      else Inr c)"

text \<open>The declared defaults of the optional fields.\<close>

definition default_mcp_server_config :: "string \<Rightarrow> string \<Rightarrow> mcp_server_config" where
  "default_mcp_server_config name command =
     \<lparr>mcp_name = name, mcp_command = command, mcp_args = [], mcp_env = [], mcp_cwd = None,
      default_risk = CRITICAL, tool_risk_overrides = [], startup_timeout_ms = 15000,
      call_timeout_ms = 30000\<rparr>"

definition risk_for :: "mcp_server_config \<Rightarrow> string \<Rightarrow> risk_level" where
  "risk_for c remote_tool_name =
     (case dict_get (tool_risk_overrides c) remote_tool_name of
        Some r \<Rightarrow> r | None \<Rightarrow> default_risk c)"

definition local_name :: "mcp_server_config \<Rightarrow> string \<Rightarrow> string" where
  "local_name c remote_tool_name = mcp_name c @ ''__'' @ remote_tool_name"

definition is_registrable :: "mcp_server_config \<Rightarrow> string \<Rightarrow> bool" where
  "is_registrable c remote_tool_name \<longleftrightarrow> valid_tool_name (local_name c remote_tool_name)"

lemma local_name_inject: "local_name c a = local_name c b \<longleftrightarrow> a = b"
  by (simp add: local_name_def)

text \<open>A registrable tool leaves the server's name and the separator their share of the 64 characters.\<close>

lemma is_registrable_length:
  "is_registrable c n \<Longrightarrow> length (mcp_name c) + 2 + length n \<le> 64"
  by (simp add: is_registrable_def local_name_def valid_tool_name_def matches_class_def)

text \<open>Whatever is not configured is gated at every threshold below \<open>CRITICAL\<close>.\<close>

lemma unconfigured_is_critical:
  "dict_get (tool_risk_overrides (default_mcp_server_config s cmd)) n = None \<Longrightarrow>
   risk_for (default_mcp_server_config s cmd) n = CRITICAL"
  by (simp add: risk_for_def default_mcp_server_config_def)

text \<open>
  Two servers with distinct names can publish tools of the same local name, because both parts may
  contain the separator.
\<close>

lemma local_names_collide:
  "valid_server_name ''a'' \<and> valid_server_name ''a__b'' \<and>
   local_name (default_mcp_server_config ''a'' cmd) ''b__c'' =
     local_name (default_mcp_server_config ''a__b'' cmd') ''c'' \<and>
   is_registrable (default_mcp_server_config ''a'' cmd) ''b__c''"
  by (simp add: valid_server_name_def matches_class_def is_server_name_char_def local_name_def
      default_mcp_server_config_def is_registrable_def valid_tool_name_def is_tool_name_char_def char_simps)


subsection \<open>Wire types\<close>

definition JSONRPC_VERSION :: string where "JSONRPC_VERSION = ''2.0''"

definition PROTOCOL_VERSION :: string where "PROTOCOL_VERSION = ''2025-06-18''"

definition SUPPORTED_PROTOCOL_VERSIONS :: "string list" where
  "SUPPORTED_PROTOCOL_VERSIONS = [PROTOCOL_VERSION, ''2025-03-26'', ''2024-11-05'']"

definition CLIENT_NAME :: string where "CLIENT_NAME = ''enterprise-agent-platform''"

record mcp_tool_declaration =
  decl_name :: string
  decl_description :: string
  decl_input_schema :: json_object

text \<open>\<open>MCPToolDeclaration.model_validate\<close>: by alias or by name, everything else dropped.\<close>

definition load_declaration :: "json_object \<Rightarrow> exn + mcp_tool_declaration" where
  "load_declaration d =
     and_then (required_field as_str ''name'' d) (\<lambda>n.
     if n = [] then Inl (ValidationError ''name: min_length'')
     else if 128 < length n then Inl (ValidationError ''name: max_length'')
     else
     and_then (field_or as_str ''description'' [] d) (\<lambda>desc.
     and_then (case dict_get d ''inputSchema'' of
                 Some v \<Rightarrow> as_object v
               | None \<Rightarrow> field_or as_object ''input_schema'' [] d) (\<lambda>schema.
       Inr \<lparr>decl_name = n, decl_description = desc, decl_input_schema = schema\<rparr>)))"

record mcp_server_info =
  info_name :: string
  info_version :: string
  info_protocol_version :: string

record mcp_call_outcome =
  outcome_content :: string
  outcome_is_error :: bool

lemma load_declaration_bounds:
  "load_declaration d = Inr t \<Longrightarrow> decl_name t \<noteq> [] \<and> length (decl_name t) \<le> 128"
  by (auto simp: load_declaration_def and_then_Inr split: if_splits)

text \<open>Metadata a server adds to a tool does not change what is read.\<close>

lemma load_declaration_ignores_extras:
  assumes "dict_get d ''name'' = dict_get d' ''name''"
    and "dict_get d ''description'' = dict_get d' ''description''"
    and "dict_get d ''inputSchema'' = dict_get d' ''inputSchema''"
    and "dict_get d ''input_schema'' = dict_get d' ''input_schema''"
  shows "load_declaration d = load_declaration d'"
  unfolding load_declaration_def required_field_def field_or_def assms by (rule refl)

end
