(* ===== verification/Config.thy ===== *)
theory Config
  imports MCP_Protocol Auth
begin

section \<open>Settings (\<open>config.py\<close>)\<close>

text \<open>
  The settings as a record and \<open>Settings(...)\<close> as its validated constructor: the constraints of the
  fields, then the model validators in the order of the class. Reading the environment and the
  \<open>.env\<close> file is Pydantic's. Durations are in milliseconds.
\<close>

datatype environment = development | staging | production | test_env

datatype log_level = DEBUG | INFO | WARNING | ERROR | LOG_CRITICAL

datatype llm_provider_name = FakeLLM | DemoLLM | AnthropicLLM | BedrockLLM

fun llm_provider_value :: "llm_provider_name \<Rightarrow> string" where
  "llm_provider_value FakeLLM = ''fake''"
| "llm_provider_value DemoLLM = ''demo''"
| "llm_provider_value AnthropicLLM = ''anthropic''"
| "llm_provider_value BedrockLLM = ''bedrock''"

datatype task_store_name = MemoryStore | PostgresStore

record settings =
  app_name :: string
  deployed_to :: environment
  log_level_of :: log_level
  debug_mode :: bool
  llm_provider_named :: llm_provider_name
  llm_model :: string
  llm_timeout_ms :: int
  anthropic_api_key :: "string option"
  aws_region :: string
  agent_max_steps :: int
  agent_max_tokens :: int
  agent_auto_approve_up_to :: risk_level
  demo_tools_enabled :: bool
  mcp_servers :: "mcp_server_config list"
  api_clients :: "api_client list"
  approval_requires_second_person :: bool
  task_store :: task_store_name
  database_url :: "string option"
  database_pool_min_size :: int
  database_pool_max_size :: int
  database_command_timeout_ms :: int

definition default_settings :: settings where
  "default_settings =
     \<lparr>app_name = ''enterprise-agent-platform'', deployed_to = development, log_level_of = INFO,
      debug_mode = False, llm_provider_named = FakeLLM, llm_model = ''claude-opus-5'',
      llm_timeout_ms = 30000, anthropic_api_key = None, aws_region = ''us-east-1'',
      agent_max_steps = 8, agent_max_tokens = 1024, agent_auto_approve_up_to = READ,
      demo_tools_enabled = False, mcp_servers = [], api_clients = [],
      approval_requires_second_person = True, task_store = MemoryStore, database_url = None,
      database_pool_min_size = 1, database_pool_max_size = 10, database_command_timeout_ms = 10000\<rparr>"

text \<open>One after the other; the first that raises ends the construction.\<close>

fun first_error :: "(bool \<times> string) list \<Rightarrow> exn option" where
  "first_error [] = None"
| "first_error ((violated, why) # rest) = (if violated then Some (ValidationError why) else first_error rest)"

definition field_constraints :: "settings \<Rightarrow> (bool \<times> string) list" where
  "field_constraints s =
     [(llm_timeout_ms s \<le> 0, ''llm_timeout_seconds: gt''),
      (agent_max_steps s < 1 \<or> 50 < agent_max_steps s, ''agent_max_steps: ge, le''),
      (agent_max_tokens s < 1, ''agent_max_tokens: ge''),
      (database_pool_min_size s < 0, ''database_pool_min_size: ge''),
      (database_pool_max_size s < 1, ''database_pool_max_size: ge''),
      (database_command_timeout_ms s \<le> 0, ''database_command_timeout_seconds: gt'')]"

definition require_a_real_provider_in_production :: "settings \<Rightarrow> bool \<times> string" where
  "require_a_real_provider_in_production s =
     (deployed_to s = production \<and> llm_provider_named s \<in> {FakeLLM, DemoLLM},
      ''EAP_LLM_PROVIDER='' @ llm_provider_value (llm_provider_named s) @ '' is not usable in production'')"

definition keep_the_demo_out_of_production :: "settings \<Rightarrow> bool \<times> string" where
  "keep_the_demo_out_of_production s =
     (deployed_to s = production \<and> demo_tools_enabled s, ''EAP_DEMO_TOOLS=true is not usable in production'')"

definition require_a_durable_store_in_production :: "settings \<Rightarrow> bool \<times> string" where
  "require_a_durable_store_in_production s =
     (deployed_to s = production \<and> task_store s = MemoryStore,
      ''EAP_TASK_STORE=memory is not usable in production'')"

definition api_client_subjects_are_unique :: "settings \<Rightarrow> bool \<times> string" where
  "api_client_subjects_are_unique s =
     (\<not> distinct (map client_subject (api_clients s)), ''EAP_API_CLIENTS entries must have unique subjects'')"

definition require_credentials_in_production :: "settings \<Rightarrow> bool \<times> string" where
  "require_credentials_in_production s =
     (deployed_to s = production \<and> api_clients s = [], ''EAP_API_CLIENTS is required in production'')"

definition mcp_server_names_are_unique :: "settings \<Rightarrow> bool \<times> string" where
  "mcp_server_names_are_unique s =
     (\<not> distinct (map mcp_name (mcp_servers s)), ''EAP_MCP_SERVERS entries must have unique names'')"

definition database_settings_are_consistent :: "settings \<Rightarrow> (bool \<times> string) list" where
  "database_settings_are_consistent s =
     [(task_store s = PostgresStore \<and> database_url s = None, ''EAP_TASK_STORE=postgres requires EAP_DATABASE_URL''),
      (database_pool_max_size s < database_pool_min_size s,
       ''EAP_DATABASE_POOL_MAX_SIZE must be greater than or equal to EAP_DATABASE_POOL_MIN_SIZE'')]"

definition mk_settings :: "settings \<Rightarrow> exn + settings" where
  "mk_settings s =
     (case first_error (field_constraints s @
             [require_a_real_provider_in_production s, keep_the_demo_out_of_production s,
              require_a_durable_store_in_production s, api_client_subjects_are_unique s,
              require_credentials_in_production s, mcp_server_names_are_unique s] @
             database_settings_are_consistent s) of
        Some x \<Rightarrow> Inl x
      | None \<Rightarrow> Inr s)"


subsection \<open>What a constructed \<open>Settings\<close> guarantees\<close>

definition settings_ok :: "settings \<Rightarrow> bool" where
  "settings_ok s \<longleftrightarrow>
     0 < llm_timeout_ms s \<and> 1 \<le> agent_max_steps s \<and> agent_max_steps s \<le> 50 \<and> 1 \<le> agent_max_tokens s \<and>
     0 \<le> database_pool_min_size s \<and> database_pool_min_size s \<le> database_pool_max_size s \<and>
     1 \<le> database_pool_max_size s \<and> 0 < database_command_timeout_ms s \<and>
     distinct (map client_subject (api_clients s)) \<and> distinct (map mcp_name (mcp_servers s)) \<and>
     (task_store s = PostgresStore \<longrightarrow> database_url s \<noteq> None)"

definition fit_for_production :: "settings \<Rightarrow> bool" where
  "fit_for_production s \<longleftrightarrow>
     llm_provider_named s \<in> {AnthropicLLM, BedrockLLM} \<and> \<not> demo_tools_enabled s \<and>
     task_store s = PostgresStore \<and> database_url s \<noteq> None \<and> api_clients s \<noteq> []"

lemma first_error_None: "first_error checks = None \<longleftrightarrow> list_all (\<lambda>(violated, _). \<not> violated) checks"
  by (induction checks) (auto split: if_splits)

lemmas model_validators =
  require_a_real_provider_in_production_def keep_the_demo_out_of_production_def
  require_a_durable_store_in_production_def api_client_subjects_are_unique_def
  require_credentials_in_production_def mcp_server_names_are_unique_def
  database_settings_are_consistent_def

lemma mk_settings_eq:
  "mk_settings s = Inr s' \<longleftrightarrow>
     s' = s \<and> settings_ok s \<and> (deployed_to s = production \<longrightarrow> fit_for_production s)"
proof -
  have "mk_settings s = Inr s' \<longleftrightarrow> s' = s \<and> first_error (field_constraints s @
             [require_a_real_provider_in_production s, keep_the_demo_out_of_production s,
              require_a_durable_store_in_production s, api_client_subjects_are_unique s,
              require_credentials_in_production s, mcp_server_names_are_unique s] @
             database_settings_are_consistent s) = None" (is "_ \<longleftrightarrow> _ \<and> ?none")
    by (auto simp: mk_settings_def split: option.splits)
  moreover have "?none \<longleftrightarrow> settings_ok s \<and> (deployed_to s = production \<longrightarrow> fit_for_production s)"
    unfolding first_error_None
    by (cases "llm_provider_named s"; cases "task_store s")
       (auto simp: field_constraints_def model_validators settings_ok_def fit_for_production_def not_less not_le)
  ultimately show ?thesis by simp
qed

lemma default_settings_ok: "mk_settings default_settings = Inr default_settings"
  by (simp add: mk_settings_eq settings_ok_def default_settings_def)

end
