(* ===== verification/Demo_Ledger.thy ===== *)
theory Demo_Ledger
  imports Tool_Registry
begin

section \<open>The demo's accounts payable (\<open>demo/data.py\<close>)\<close>

text \<open>
  Amounts are \<open>Decimal\<close>s with two places: a number of cents. Dates are calendar dates, compared
  field by field as Python does and subtracted through their ordinals. A \<open>Ledger\<close> holds the
  invoices, which do not change, the payments by invoice and the notes.
\<close>


subsection \<open>Dates and amounts\<close>

record date =
  year :: int
  month :: int
  day :: int

definition date_key :: "date \<Rightarrow> int \<times> int \<times> int" where
  "date_key d = (year d, month d, day d)"

definition is_leap :: "int \<Rightarrow> bool" where
  "is_leap y \<longleftrightarrow> 4 dvd y \<and> (\<not> 100 dvd y \<or> 400 dvd y)"

definition days_before_month :: "int \<Rightarrow> int \<Rightarrow> int" where
  "days_before_month y m =
     [0, 31, 59, 90, 120, 151, 181, 212, 243, 273, 304, 334] ! nat (m - 1) +
     (if 2 < m \<and> is_leap y then 1 else 0)"

definition days_in_month :: "int \<Rightarrow> int \<Rightarrow> int" where
  "days_in_month y m =
     (if m = 2 \<and> is_leap y then 29 else [31, 28, 31, 30, 31, 30, 31, 31, 30, 31, 30, 31] ! nat (m - 1))"

definition days_before_year :: "int \<Rightarrow> int" where
  "days_before_year y = (let p = y - 1 in p * 365 + p div 4 - p div 100 + p div 400)"

text \<open>\<open>date.toordinal\<close>.\<close>

definition ordinal :: "date \<Rightarrow> int" where
  "ordinal d = days_before_year (year d) + days_before_month (year d) (month d) + day d"

definition valid_date :: "date \<Rightarrow> bool" where
  "valid_date d \<longleftrightarrow> 1 \<le> year d \<and> year d \<le> 9999 \<and> 1 \<le> month d \<and> month d \<le> 12 \<and>
     1 \<le> day d \<and> day d \<le> days_in_month (year d) (month d)"

definition pad :: "nat \<Rightarrow> int \<Rightarrow> string" where
  "pad n i = (let s = int_str i in replicate (n - length s) (CHR ''0'') @ s)"

definition isoformat :: "date \<Rightarrow> string" where
  "isoformat d = pad 4 (year d) @ ''-'' @ pad 2 (month d) @ ''-'' @ pad 2 (day d)"

definition decimal_str :: "int \<Rightarrow> string" where
  "decimal_str cents =
     (if cents < 0 then ''-'' else []) @ int_str (abs cents div 100) @ ''.'' @ pad 2 (abs cents mod 100)"

definition AS_OF :: date where
  "AS_OF = \<lparr>year = 2026, month = 3, day = 31\<rparr>"


subsection \<open>Invoices and payments\<close>

record invoice =
  inv_id :: string
  inv_supplier :: string
  inv_amount :: int
  inv_due_on :: date
  inv_description :: string

definition is_overdue :: "date \<Rightarrow> invoice \<Rightarrow> bool" where
  "is_overdue as_of i \<longleftrightarrow> date_key (inv_due_on i) < date_key as_of"

definition days_overdue :: "date \<Rightarrow> invoice \<Rightarrow> int" where
  "days_overdue as_of i = max (ordinal as_of - ordinal (inv_due_on i)) 0"

record payment =
  pay_invoice_id :: string
  pay_amount :: int
  pay_reference :: string

definition DEMO_INVOICES :: "invoice list" where
  "DEMO_INVOICES = [
     \<lparr>inv_id = ''INV-1043'', inv_supplier = ''Northwind Logistics'', inv_amount = 128450,
      inv_due_on = \<lparr>year = 2026, month = 3, day = 10\<rparr>,
      inv_description = ''Freight consolidation, February''\<rparr>,
     \<lparr>inv_id = ''INV-1044'', inv_supplier = ''Northwind Logistics'', inv_amount = 31800,
      inv_due_on = \<lparr>year = 2026, month = 4, day = 15\<rparr>,
      inv_description = ''Palletisation surcharge, March''\<rparr>,
     \<lparr>inv_id = ''INV-1051'', inv_supplier = ''Halden Facilities'', inv_amount = 742000,
      inv_due_on = \<lparr>year = 2026, month = 2, day = 28\<rparr>,
      inv_description = ''Quarterly facilities management''\<rparr>,
     \<lparr>inv_id = ''INV-1052'', inv_supplier = ''Cartwright Print'', inv_amount = 9675,
      inv_due_on = \<lparr>year = 2026, month = 3, day = 29\<rparr>,
      inv_description = ''Compliance leaflets, 2,000 units''\<rparr>]"

record ledger =
  invoices :: "invoice list"
  payments :: "(string, payment) dict"
  ledger_notes :: "(string, string list) dict"

definition new_ledger :: ledger where
  "new_ledger = \<lparr>invoices = DEMO_INVOICES, payments = [], ledger_notes = []\<rparr>"


subsection \<open>Operations\<close>

definition ledger_get :: "string \<Rightarrow> ledger \<Rightarrow> exn + invoice" where
  "ledger_get i L =
     (case List.find (\<lambda>x. inv_id x = i) (invoices L) of
        None \<Rightarrow> Inl (LedgerError (''no invoice with id '' @ quoted i))
      | Some x \<Rightarrow> Inr x)"

text \<open>\<open>str.lower\<close> on the model's characters.\<close>

definition lower_char :: "char \<Rightarrow> char" where
  "lower_char c =
     (let n = of_char c :: nat in
      if (65 \<le> n \<and> n \<le> 90) \<or> (192 \<le> n \<and> n \<le> 222 \<and> n \<noteq> 215) then char_of (n + 32)
      else if n \<in> {138, 140, 142} then char_of (n + 16)
      else if n = 159 then char_of (255::nat) else c)"

definition py_lower :: "string \<Rightarrow> string" where
  "py_lower s = map lower_char s"

fun is_prefix :: "string \<Rightarrow> string \<Rightarrow> bool" where
  "is_prefix [] ys = True"
| "is_prefix (x # xs) [] = False"
| "is_prefix (x # xs) (y # ys) = (x = y \<and> is_prefix xs ys)"

text \<open>\<open>sub in s\<close>.\<close>

fun is_substring :: "string \<Rightarrow> string \<Rightarrow> bool" where
  "is_substring sub [] = (sub = [])"
| "is_substring sub (c # cs) = (is_prefix sub (c # cs) \<or> is_substring sub cs)"

definition ledger_overdue :: "string option \<Rightarrow> date \<Rightarrow> ledger \<Rightarrow> invoice list" where
  "ledger_overdue supplier as_of L =
     sort_key (\<lambda>i. date_key (inv_due_on i))
       (filter (\<lambda>i. is_overdue as_of i \<and> inv_id i \<notin> fst ` set (payments L) \<and>
          (case supplier of None \<Rightarrow> True
           | Some s \<Rightarrow> is_substring (py_lower s) (py_lower (inv_supplier i)))) (invoices L))"

definition remove_prefix :: "string \<Rightarrow> string \<Rightarrow> string" where
  "remove_prefix p s = (if is_prefix p s then drop (length p) s else s)"

definition ledger_pay :: "string \<Rightarrow> int \<Rightarrow> ledger \<Rightarrow> (exn + payment) \<times> ledger" where
  "ledger_pay i amount L =
     (case ledger_get i L of
        Inl e \<Rightarrow> (Inl e, L)
      | Inr bill \<Rightarrow>
          (case dict_get (payments L) i of
             Some existing \<Rightarrow>
               (Inl (LedgerError (''invoice '' @ quoted i @ '' was already paid under reference '' @
                  pay_reference existing)), L)
           | None \<Rightarrow>
               if amount \<noteq> inv_amount bill
               then (Inl (LedgerError (''amount '' @ decimal_str amount @ '' does not match invoice '' @
                       quoted i @ '' ('' @ decimal_str (inv_amount bill) @ '' EUR)'')), L)
               else
                 let p = \<lparr>pay_invoice_id = i, pay_amount = amount,
                          pay_reference = ''PAY-'' @ remove_prefix ''INV-'' i\<rparr>
                 in (Inr p, L\<lparr>payments := dict_set i p (payments L)\<rparr>)))"

definition add_note :: "string \<Rightarrow> string \<Rightarrow> ledger \<Rightarrow> (exn + string list) \<times> ledger" where
  "add_note i note L =
     (case ledger_get i L of
        Inl e \<Rightarrow> (Inl e, L)
      | Inr _ \<Rightarrow>
          let ns = (case dict_get (ledger_notes L) i of None \<Rightarrow> [] | Some xs \<Rightarrow> xs) @ [note]
          in (Inr ns, L\<lparr>ledger_notes := dict_set i ns (ledger_notes L)\<rparr>))"


subsection \<open>The books\<close>

text \<open>
  Every payment settles an invoice of the ledger, in full, and is filed under it. \<open>books_extend\<close>:
  the invoices are the same and no payment has been changed or lost.
\<close>

definition ledger_ok :: "ledger \<Rightarrow> bool" where
  "ledger_ok L \<longleftrightarrow> dict_wf (payments L) \<and>
     list_all (\<lambda>(i, p). pay_invoice_id p = i \<and>
       (case ledger_get i L of Inl _ \<Rightarrow> False | Inr bill \<Rightarrow> pay_amount p = inv_amount bill)) (payments L)"

definition books_extend :: "ledger \<Rightarrow> ledger \<Rightarrow> bool" where
  "books_extend L L' \<longleftrightarrow> invoices L' = invoices L \<and>
     (\<exists>new. payments L' = payments L @ new) \<and> (ledger_ok L \<longrightarrow> ledger_ok L')"

lemma books_extend_refl [simp]: "books_extend L L"
  by (simp add: books_extend_def)

lemma books_extend_trans: "books_extend L M \<Longrightarrow> books_extend M N \<Longrightarrow> books_extend L N"
  by (auto simp: books_extend_def)

lemma ledger_get_cong: "invoices L' = invoices L \<Longrightarrow> ledger_get i L' = ledger_get i L"
  by (simp add: ledger_get_def)

lemma ledger_get_Inr: "ledger_get i L = Inr x \<Longrightarrow> x \<in> set (invoices L) \<and> inv_id x = i"
  by (auto simp: ledger_get_def find_Some_iff split: option.splits)

lemma pay_Inr:
  "ledger_pay i amount L = (Inr p, L') \<longleftrightarrow>
     (\<exists>bill. ledger_get i L = Inr bill \<and> dict_get (payments L) i = None \<and> amount = inv_amount bill \<and>
        p = \<lparr>pay_invoice_id = i, pay_amount = amount, pay_reference = ''PAY-'' @ remove_prefix ''INV-'' i\<rparr> \<and>
        L' = L\<lparr>payments := payments L @ [(i, p)]\<rparr>)"
proof (cases "dict_get (payments L) i")
  case None
  then have "i \<notin> fst ` set (payments L)" by (simp add: map_of_eq_None_iff)
  then show ?thesis
    using None by (auto simp: ledger_pay_def Let_def dict_set_new split: sum.splits if_splits)
qed (auto simp: ledger_pay_def split: sum.splits)

lemma pay_Inl: "ledger_pay i amount L = (Inl e, L') \<Longrightarrow> L' = L \<and> (\<exists>m. e = LedgerError m)"
  by (auto simp: ledger_pay_def ledger_get_def Let_def split: option.splits if_splits)

lemma pay_books: "books_extend L (snd (ledger_pay i amount L))"
proof (cases "ledger_pay i amount L")
  case (Pair r L')
  show ?thesis
  proof (cases r)
    case (Inl e)
    then show ?thesis using Pair pay_Inl [of i amount L e L'] by simp
  next
    case (Inr p)
    then obtain bill where p: "ledger_get i L = Inr bill" "dict_get (payments L) i = None" "amount = inv_amount bill"
        "pay_invoice_id p = i" "pay_amount p = amount" "L' = L\<lparr>payments := payments L @ [(i, p)]\<rparr>"
      using Pair by (auto simp: pay_Inr)
    have "ledger_get j L' = ledger_get j L" for j
      using p(6) by (intro ledger_get_cong) simp
    then show ?thesis
      using p Pair by (auto simp: books_extend_def ledger_ok_def dict_wf_def map_of_eq_None_iff)
  qed
qed

lemma add_note_books:
  "books_extend L (snd (add_note i note L)) \<and> payments (snd (add_note i note L)) = payments L"
proof -
  have "ledger_ok L \<Longrightarrow> ledger_ok (L\<lparr>ledger_notes := ns\<rparr>)" for ns
    by (simp add: ledger_ok_def ledger_get_def)
  then show ?thesis
    by (auto simp: add_note_def books_extend_def Let_def split: sum.split)
qed

text \<open>A second payment of the same invoice is refused, whatever the amount.\<close>

lemma paid_once:
  assumes "ledger_pay i a L = (Inr p, L')" and "books_extend L' L''"
  shows "\<exists>e. ledger_pay i b L'' = (Inl (LedgerError e), L'')"
proof -
  obtain bill where p: "ledger_get i L = Inr bill" "L' = L\<lparr>payments := payments L @ [(i, p)]\<rparr>"
    using assms(1) by (auto simp: pay_Inr)
  have "ledger_get i L'' = Inr bill"
    using p assms(2) ledger_get_cong [of L'' L i] by (simp add: books_extend_def)
  moreover have "dict_get (payments L'') i \<noteq> None"
    using p assms(2) by (auto simp: books_extend_def map_add_def split: option.splits)
  ultimately show ?thesis by (auto simp: ledger_pay_def)
qed

lemma overdue_facts:
  "x \<in> set (ledger_overdue supplier as_of L) \<Longrightarrow>
   x \<in> set (invoices L) \<and> is_overdue as_of x \<and> dict_get (payments L) (inv_id x) = None"
  by (auto simp: ledger_overdue_def map_of_eq_None_iff)

lemma overdue_sorted: "sorted (map (\<lambda>i. date_key (inv_due_on i)) (ledger_overdue supplier as_of L))"
  by (simp add: ledger_overdue_def)

end
