(* ===== verification/JSON_Text.thy ===== *)
theory JSON_Text
  imports LLM_Models
begin

section \<open>JSON text: \<open>json.dumps\<close> and \<open>json.loads\<close>\<close>

text \<open>
  The standard library's encoder, with its two separator styles and \<open>sort_keys\<close>, non-ASCII
  characters escaped, and its decoder, a recursive descent whose fuel is the length of the text
  (every call consumes a character). A number with a fraction or an exponent keeps its text, and a
  text with an escaped code point outside the model's 256 characters does not decode.
\<close>


subsection \<open>Encoding\<close>

text \<open>The code point of a character of the model's code page.\<close>

definition code_points_80 :: "nat list" where
  "code_points_80 =
     [8364, 129, 8218, 402, 8222, 8230, 8224, 8225, 710, 8240, 352, 8249, 338, 141, 381, 143,
      144, 8216, 8217, 8220, 8221, 8226, 8211, 8212, 732, 8482, 353, 8250, 339, 157, 382, 376]"

definition code_point :: "char \<Rightarrow> nat" where
  "code_point c = (let n = of_char c in if 128 \<le> n \<and> n < 160 then code_points_80 ! (n - 128) else n)"

definition unicode_escape :: "nat \<Rightarrow> string" where
  "unicode_escape n = CHR 0x5C # CHR ''u'' # hex_digits 4 n"

definition escape_char :: "char \<Rightarrow> string" where
  "escape_char c =
     (let n = of_char c :: nat in
      if n = 34 \<or> n = 92 then [CHR 0x5C, c]
      else if n = 8 then [CHR 0x5C, CHR ''b''] else if n = 9 then [CHR 0x5C, CHR ''t'']
      else if n = 10 then [CHR 0x5C, CHR ''n''] else if n = 12 then [CHR 0x5C, CHR ''f'']
      else if n = 13 then [CHR 0x5C, CHR ''r'']
      else if 32 \<le> n \<and> n < 127 then [c]
      else unicode_escape (code_point c))"

definition quote_json :: "string \<Rightarrow> string" where
  "quote_json s = [CHR 0x22] @ concat (map escape_char s) @ [CHR 0x22]"

fun str_le :: "string \<Rightarrow> string \<Rightarrow> bool" where
  "str_le [] ys = True"
| "str_le (x # xs) [] = False"
| "str_le (x # xs) (y # ys) =
     (code_point x < code_point y \<or> (code_point x = code_point y \<and> str_le xs ys))"

fun insert_member :: "string \<times> 'a \<Rightarrow> (string \<times> 'a) list \<Rightarrow> (string \<times> 'a) list" where
  "insert_member kv [] = [kv]"
| "insert_member kv (kv' # rest) =
     (if str_le (fst kv) (fst kv') then kv # kv' # rest else kv' # insert_member kv rest)"

definition sort_members :: "(string \<times> 'a) list \<Rightarrow> (string \<times> 'a) list" where
  "sort_members d = foldr insert_member d []"

text \<open>The three floats without a numeral.\<close>

definition float_json :: "string \<Rightarrow> string" where
  "float_json s = (if s = ''nan'' then ''NaN'' else if s = ''inf'' then ''Infinity''
     else if s = ''-inf'' then ''-Infinity'' else s)"

text \<open>\<open>json.dumps(v, separators=(item, key), sort_keys=by_key)\<close>.\<close>

fun dumps :: "string \<Rightarrow> string \<Rightarrow> bool \<Rightarrow> json \<Rightarrow> string" where
  "dumps item key by_key JNull = ''null''"
| "dumps item key by_key (JBool b) = (if b then ''true'' else ''false'')"
| "dumps item key by_key (JInt i) = int_str i"
| "dumps item key by_key (JFloat s) = float_json s"
| "dumps item key by_key (JStr s) = quote_json s"
| "dumps item key by_key (JList vs) = ''['' @ py_join item (map (dumps item key by_key) vs) @ '']''"
| "dumps item key by_key (JObj d) =
     ''{'' @ py_join item (map (\<lambda>(k, t). quote_json k @ key @ t)
       ((if by_key then sort_members else (\<lambda>x. x)) (map (\<lambda>(k, v). (k, dumps item key by_key v)) d)))
     @ ''}''"

definition json_dumps :: "json \<Rightarrow> string" where
  "json_dumps v = dumps '', '' '': '' False v"

definition json_dumps_compact :: "json \<Rightarrow> string" where
  "json_dumps_compact v = dumps '','' '':'' True v"

text \<open>\<open>json.dumps(v, indent=2)\<close>, at the depth of \<open>k\<close> spaces.\<close>

definition line_break :: "nat \<Rightarrow> string" where
  "line_break k = CHR 0x0A # replicate k (CHR '' '')"

fun dumps_indent :: "nat \<Rightarrow> json \<Rightarrow> string" where
  "dumps_indent k (JList vs) =
     (if vs = [] then ''[]''
      else ''['' @ line_break (k + 2) @ py_join (CHR '','' # line_break (k + 2)) (map (dumps_indent (k + 2)) vs) @
        line_break k @ '']'')"
| "dumps_indent k (JObj d) =
     (if d = [] then ''{}''
      else ''{'' @ line_break (k + 2) @
        py_join (CHR '','' # line_break (k + 2)) (map (\<lambda>(i, v). quote_json i @ '': '' @ dumps_indent (k + 2) v) d) @
        line_break k @ ''}'')"
| "dumps_indent k v = json_dumps v"


subsection \<open>Decoding\<close>

fun skip_space :: "string \<Rightarrow> string" where
  "skip_space [] = []"
| "skip_space (c # cs) =
     (if c = CHR '' '' \<or> c = CHR 0x09 \<or> c = CHR 0x0A \<or> c = CHR 0x0D then skip_space cs else c # cs)"

definition hex_value :: "char \<Rightarrow> nat option" where
  "hex_value c =
     (let n = of_char c in
      if 48 \<le> n \<and> n \<le> (57::nat) then Some (n - 48)
      else if 97 \<le> n \<and> n \<le> 102 then Some (n - 87)
      else if 65 \<le> n \<and> n \<le> 70 then Some (n - 55) else None)"

text \<open>The model's character for a code point, if it has one.\<close>

definition char_of_code_point :: "nat \<Rightarrow> char option" where
  "char_of_code_point n =
     (if n < 128 \<or> (160 \<le> n \<and> n < 256) then Some (char_of n)
      else map_option char_of (map_of (zip code_points_80 [128..<160]) n))"

definition simple_escape :: "char \<Rightarrow> char option" where
  "simple_escape c = map_of [(CHR 0x22, CHR 0x22), (CHR 0x5C, CHR 0x5C), (CHR ''/'', CHR ''/''),
     (CHR ''b'', CHR 0x08), (CHR ''f'', CHR 0x0C), (CHR ''n'', CHR 0x0A), (CHR ''r'', CHR 0x0D),
     (CHR ''t'', CHR 0x09)] c"

fun read_string :: "string \<Rightarrow> (string \<times> string) option" where
  "read_string [] = None"
| "read_string (c # cs) =
     (if c = CHR 0x22 then Some ([], cs)
      else if c = CHR 0x5C then
        (case cs of
           [] \<Rightarrow> None
         | e # rest \<Rightarrow>
             if e = CHR ''u'' then
               (case rest of
                  h1 # h2 # h3 # h4 # rest' \<Rightarrow>
                    (case (hex_value h1, hex_value h2, hex_value h3, hex_value h4) of
                       (Some a, Some b, Some c', Some d) \<Rightarrow>
                         (case char_of_code_point (4096 * a + 256 * b + 16 * c' + d) of
                            None \<Rightarrow> None
                          | Some ch \<Rightarrow> map_option (\<lambda>(s, r). (ch # s, r)) (read_string rest'))
                     | _ \<Rightarrow> None)
                | _ \<Rightarrow> None)
             else (case simple_escape e of
                     None \<Rightarrow> None
                   | Some ch \<Rightarrow> map_option (\<lambda>(s, r). (ch # s, r)) (read_string rest)))
      else if of_char c < (32::nat) then None
      else map_option (\<lambda>(s, r). (c # s, r)) (read_string cs))"

fun read_word :: "string \<Rightarrow> string \<Rightarrow> string option" where
  "read_word [] cs = Some cs"
| "read_word (w # ws) [] = None"
| "read_word (w # ws) (c # cs) = (if w = c then read_word ws cs else None)"

definition exponent_part :: "string \<Rightarrow> bool" where
  "exponent_part s \<longleftrightarrow> s \<noteq> [] \<and> hd s \<in> {CHR ''e'', CHR ''E''} \<and>
     (let d = (if tl s \<noteq> [] \<and> hd (tl s) \<in> {CHR ''+'', CHR ''-''} then tl (tl s) else tl s)
      in d \<noteq> [] \<and> list_all is_digit d)"

definition fraction_part :: "string \<Rightarrow> bool" where
  "fraction_part s \<longleftrightarrow> exponent_part s \<or>
     (s \<noteq> [] \<and> hd s = CHR ''.'' \<and> takeWhile is_digit (tl s) \<noteq> [] \<and>
      (dropWhile is_digit (tl s) = [] \<or> exponent_part (dropWhile is_digit (tl s))))"

definition number_value :: "string \<Rightarrow> json option" where
  "number_value tok =
     (let digits = (if tok \<noteq> [] \<and> hd tok = CHR ''-'' then tl tok else tok);
          whole = takeWhile is_digit digits; rest = dropWhile is_digit digits in
      if whole = [] \<or> (length whole > 1 \<and> hd whole = CHR ''0'') then None
      else if rest = []
      then Some (JInt ((if digits = tok then 1 else - 1) * int (parse_digits digits)))
      else if fraction_part rest then Some (JFloat tok) else None)"

definition is_number_char :: "char \<Rightarrow> bool" where
  "is_number_char c \<longleftrightarrow> is_digit c \<or> c \<in> {CHR ''-'', CHR ''+'', CHR ''.'', CHR ''e'', CHR ''E''}"

definition read_scalar :: "string \<Rightarrow> (json \<times> string) option" where
  "read_scalar cs =
     (case read_word ''null'' cs of Some r \<Rightarrow> Some (JNull, r) | None \<Rightarrow>
     (case read_word ''true'' cs of Some r \<Rightarrow> Some (JBool True, r) | None \<Rightarrow>
     (case read_word ''false'' cs of Some r \<Rightarrow> Some (JBool False, r) | None \<Rightarrow>
     (case read_word ''NaN'' cs of Some r \<Rightarrow> Some (JFloat ''nan'', r) | None \<Rightarrow>
     (case read_word ''Infinity'' cs of Some r \<Rightarrow> Some (JFloat ''inf'', r) | None \<Rightarrow>
     (case read_word ''-Infinity'' cs of Some r \<Rightarrow> Some (JFloat ''-inf'', r) | None \<Rightarrow>
      map_option (\<lambda>v. (v, dropWhile is_number_char cs)) (number_value (takeWhile is_number_char cs))))))))"

text \<open>\<open>read_items\<close> and \<open>read_members\<close> follow an opening bracket, or a comma.\<close>

fun read_value :: "nat \<Rightarrow> string \<Rightarrow> (json \<times> string) option"
and read_items :: "nat \<Rightarrow> string \<Rightarrow> (json list \<times> string) option"
and read_members :: "nat \<Rightarrow> string \<Rightarrow> (json_object \<times> string) option" where
  "read_value 0 cs = None"
| "read_value (Suc n) cs =
     (case skip_space cs of
        [] \<Rightarrow> None
      | c # rest \<Rightarrow>
          if c = CHR 0x22 then map_option (\<lambda>(s, r). (JStr s, r)) (read_string rest)
          else if c = CHR ''['' then
            (case skip_space rest of
               [] \<Rightarrow> None
             | c1 # rest1 \<Rightarrow>
                 if c1 = CHR '']'' then Some (JList [], rest1)
                 else map_option (\<lambda>(vs, r). (JList vs, r)) (read_items n rest))
          else if c = CHR ''{'' then
            (case skip_space rest of
               [] \<Rightarrow> None
             | c1 # rest1 \<Rightarrow>
                 if c1 = CHR ''}'' then Some (JObj [], rest1)
                 else map_option (\<lambda>(d, r). (JObj d, r)) (read_members n rest))
          else read_scalar (c # rest))"
| "read_items 0 cs = None"
| "read_items (Suc n) cs =
     (case read_value n cs of
        None \<Rightarrow> None
      | Some (v, r) \<Rightarrow>
          (case skip_space r of
             [] \<Rightarrow> None
           | c # rest \<Rightarrow>
               if c = CHR '']'' then Some ([v], rest)
               else if c = CHR '','' then map_option (\<lambda>(vs, r'). (v # vs, r')) (read_items n rest)
               else None))"
| "read_members 0 cs = None"
| "read_members (Suc n) cs =
     (case skip_space cs of
        [] \<Rightarrow> None
      | q # rest0 \<Rightarrow>
          if q \<noteq> CHR 0x22 then None
          else
          (case read_string rest0 of
             None \<Rightarrow> None
           | Some (k, r0) \<Rightarrow>
               (case skip_space r0 of
                  [] \<Rightarrow> None
                | colon # r1 \<Rightarrow>
                    if colon \<noteq> CHR '':'' then None
                    else
                    (case read_value n r1 of
                       None \<Rightarrow> None
                     | Some (v, r2) \<Rightarrow>
                         (case skip_space r2 of
                            [] \<Rightarrow> None
                          | c # r3 \<Rightarrow>
                              if c = CHR ''}'' then Some ([(k, v)], r3)
                              else if c = CHR '','' then
                                map_option (\<lambda>(d, r). ((k, v) # d, r)) (read_members n r3)
                              else None)))))"

text \<open>Later duplicates of a key win and keep the first one's place.\<close>

fun merge_members :: "json \<Rightarrow> json" where
  "merge_members (JList vs) = JList (map merge_members vs)"
| "merge_members (JObj d) =
     JObj (foldl (\<lambda>acc (k, v). AList.update k v acc) [] (map (\<lambda>(k, v). (k, merge_members v)) d))"
| "merge_members v = v"

definition json_loads :: "string \<Rightarrow> json option" where
  "json_loads text =
     (case read_value (2 * length text + 2) text of
        Some (v, r) \<Rightarrow> if skip_space r = [] then Some (merge_members v) else None
      | None \<Rightarrow> None)"

end
