(* ===== verification/Demo_Tools.thy ===== *)
theory Demo_Tools
  imports Demo_Ledger JSON_Text Wire_Format Runner_Frames
begin

section \<open>The demo's tools (\<open>demo/tools.py\<close>)\<close>

text \<open>
  The four argument models as validators of the call's arguments, the handlers on the ledger they
  close over, and the tools. A validator gives the first error where Pydantic lists them all, and
  the arguments with their defaults. The JSON Schema that Pydantic derives from a model class is
  the parameter \<open>schema_of\<close>, indexed by the class name.
\<close>


subsection \<open>Argument models\<close>

definition is_invoice_id :: "string \<Rightarrow> bool" where
  "is_invoice_id s \<longleftrightarrow> take 4 s = ''INV-'' \<and> length s = 8 \<and> list_all is_digit (drop 4 s)"

definition is_amount :: "string \<Rightarrow> bool" where
  "is_amount s \<longleftrightarrow> (let whole = takeWhile is_digit s; rest = dropWhile is_digit s in
     1 \<le> length whole \<and> length whole \<le> 9 \<and> length rest = 3 \<and> hd rest = CHR ''.'' \<and>
     list_all is_digit (tl rest))"

definition str_argument :: "(string \<Rightarrow> bool) \<Rightarrow> string \<Rightarrow> json_object \<Rightarrow> string + string" where
  "str_argument ok k args =
     (case dict_get args k of
        None \<Rightarrow> Inl (k @ '': Field required'')
      | Some (JStr s) \<Rightarrow> if ok s then Inr s else Inl (k @ '': String is out of its constraints'')
      | Some _ \<Rightarrow> Inl (k @ '': Input should be a valid string''))"

definition only_arguments :: "string list \<Rightarrow> json_object \<Rightarrow> string + unit" where
  "only_arguments allowed args =
     (case filter (\<lambda>(k, _). k \<notin> set allowed) args of
        [] \<Rightarrow> Inr ()
      | (k, _) # _ \<Rightarrow> Inl (k @ '': Extra inputs are not permitted''))"

definition LookupInvoiceArgs :: "json_object \<Rightarrow> string + json_object" where
  "LookupInvoiceArgs args =
     and_then (str_argument is_invoice_id ''invoice_id'' args) (\<lambda>i.
     and_then (only_arguments [''invoice_id''] args) (\<lambda>_. Inr [(''invoice_id'', JStr i)]))"

definition supplier_argument :: "json_object \<Rightarrow> string + json" where
  "supplier_argument args =
     (case dict_get args ''supplier'' of
        None \<Rightarrow> Inr JNull
      | Some JNull \<Rightarrow> Inr JNull
      | Some (JStr s) \<Rightarrow> if length s \<le> 120 then Inr (JStr s)
          else Inl ''supplier: String should have at most 120 characters''
      | Some _ \<Rightarrow> Inl ''supplier: Input should be a valid string'')"

definition limit_argument :: "pydantic \<Rightarrow> json_object \<Rightarrow> string + int" where
  "limit_argument P args =
     (case dict_get args ''limit'' of
        None \<Rightarrow> Inr 10
      | Some v \<Rightarrow>
          (case lax_int P v of
             None \<Rightarrow> Inl ''limit: Input should be a valid integer''
           | Some n \<Rightarrow> if 1 \<le> n \<and> n \<le> 50 then Inr n else Inl ''limit: Input should be between 1 and 50''))"

definition ListOverdueInvoicesArgs :: "pydantic \<Rightarrow> json_object \<Rightarrow> string + json_object" where
  "ListOverdueInvoicesArgs P args =
     and_then (supplier_argument args) (\<lambda>s.
     and_then (limit_argument P args) (\<lambda>n.
     and_then (only_arguments [''supplier'', ''limit''] args) (\<lambda>_.
       Inr [(''supplier'', s), (''limit'', JInt n)])))"

definition AddInvoiceNoteArgs :: "json_object \<Rightarrow> string + json_object" where
  "AddInvoiceNoteArgs args =
     and_then (str_argument is_invoice_id ''invoice_id'' args) (\<lambda>i.
     and_then (str_argument (\<lambda>s. 1 \<le> length s \<and> length s \<le> 500) ''note'' args) (\<lambda>n.
     and_then (only_arguments [''invoice_id'', ''note''] args) (\<lambda>_.
       Inr [(''invoice_id'', JStr i), (''note'', JStr n)])))"

definition PayInvoiceArgs :: "json_object \<Rightarrow> string + json_object" where
  "PayInvoiceArgs args =
     and_then (str_argument is_invoice_id ''invoice_id'' args) (\<lambda>i.
     and_then (str_argument is_amount ''amount_eur'' args) (\<lambda>a.
     and_then (only_arguments [''invoice_id'', ''amount_eur''] args) (\<lambda>_.
       Inr [(''invoice_id'', JStr i), (''amount_eur'', JStr a)])))"

text \<open>A field of a validated model, and \<open>PayInvoiceArgs.amount\<close>: the string in cents.\<close>

definition arg_str :: "json_object \<Rightarrow> string \<Rightarrow> string" where
  "arg_str args k = (case dict_get args k of Some (JStr s) \<Rightarrow> s | _ \<Rightarrow> [])"

definition amount_cents :: "string \<Rightarrow> int" where
  "amount_cents s = int (parse_digits (takeWhile is_digit s)) * 100 + int (parse_digits (tl (dropWhile is_digit s)))"


subsection \<open>Handlers\<close>

text \<open>\<open>_reporting_to_the_model\<close>: a ledger error becomes one that the model may read.\<close>

definition reporting_to_the_model :: "exn \<Rightarrow> exn" where
  "reporting_to_the_model e = (case e of LedgerError m \<Rightarrow> ToolExecutionError m | _ \<Rightarrow> e)"

definition invoice_fields :: "invoice \<Rightarrow> json_object" where
  "invoice_fields i =
     [(''invoice_id'', JStr (inv_id i)), (''supplier'', JStr (inv_supplier i)),
      (''amount_eur'', JStr (decimal_str (inv_amount i))),
      (''due_on'', JStr (isoformat (inv_due_on i))),
      (''days_overdue'', JInt (days_overdue AS_OF i)),
      (''description'', JStr (inv_description i))]"

definition lookup_invoice :: "json_object \<Rightarrow> ledger \<Rightarrow> (exn + string) \<times> ledger" where
  "lookup_invoice args L =
     (let i = arg_str args ''invoice_id'' in
      case ledger_get i L of
        Inl e \<Rightarrow> (Inl (reporting_to_the_model e), L)
      | Inr bill \<Rightarrow>
          (Inr (json_dumps_compact (JObj (invoice_fields bill @
             [(''paid'', JBool (i \<in> fst ` set (payments L))),
              (''notes'', JList (map JStr
                 (case dict_get (ledger_notes L) i of None \<Rightarrow> [] | Some ns \<Rightarrow> ns)))]))), L))"

definition list_overdue_invoices :: "json_object \<Rightarrow> ledger \<Rightarrow> (exn + string) \<times> ledger" where
  "list_overdue_invoices args L =
     (let supplier = (case dict_get args ''supplier'' of Some (JStr s) \<Rightarrow> Some s | _ \<Rightarrow> None);
          limit = (case dict_get args ''limit'' of Some (JInt n) \<Rightarrow> n | _ \<Rightarrow> 10);
          found = py_take limit (ledger_overdue supplier AS_OF L)
      in (Inr (json_dumps_compact (JObj
            [(''as_of'', JStr (isoformat AS_OF)), (''count'', JInt (int (length found))),
             (''invoices'', JList (map (\<lambda>i. JObj (invoice_fields i)) found))])), L))"

definition add_invoice_note :: "json_object \<Rightarrow> ledger \<Rightarrow> (exn + string) \<times> ledger" where
  "add_invoice_note args L =
     (let i = arg_str args ''invoice_id'' in
      case add_note i (arg_str args ''note'') L of
        (Inl e, L1) \<Rightarrow> (Inl (reporting_to_the_model e), L1)
      | (Inr ns, L1) \<Rightarrow>
          (Inr (json_dumps_compact (JObj
             [(''invoice_id'', JStr i), (''notes'', JList (map JStr ns))])), L1))"

definition pay_invoice :: "json_object \<Rightarrow> ledger \<Rightarrow> (exn + string) \<times> ledger" where
  "pay_invoice args L =
     (case ledger_pay (arg_str args ''invoice_id'') (amount_cents (arg_str args ''amount_eur'')) L of
        (Inl e, L1) \<Rightarrow> (Inl (reporting_to_the_model e), L1)
      | (Inr p, L1) \<Rightarrow>
          (Inr (json_dumps_compact (JObj
             [(''invoice_id'', JStr (pay_invoice_id p)),
              (''amount_eur'', JStr (decimal_str (pay_amount p))),
              (''reference'', JStr (pay_reference p)), (''status'', JStr ''paid'')])), L1))"


subsection \<open>The tools\<close>

definition build_demo_tools :: "pydantic \<Rightarrow> (string \<Rightarrow> json_object) \<Rightarrow> ledger tool list" where
  "build_demo_tools P schema_of = [
     \<lparr>tool_name = ''lookup_invoice'',
      tool_description = ''Look up one supplier invoice by id and return its supplier, amount, due '' @
        ''date, payment status and notes.'',
      tool_validate = LookupInvoiceArgs, tool_schema = schema_of ''LookupInvoiceArgs'',
      tool_risk = READ, tool_handler = lookup_invoice, tool_input_schema = None\<rparr>,
     \<lparr>tool_name = ''list_overdue_invoices'',
      tool_description = ''List unpaid invoices whose due date has passed, most overdue first, '' @
        ''optionally filtered to one supplier.'',
      tool_validate = ListOverdueInvoicesArgs P, tool_schema = schema_of ''ListOverdueInvoicesArgs'',
      tool_risk = READ, tool_handler = list_overdue_invoices, tool_input_schema = None\<rparr>,
     \<lparr>tool_name = ''add_invoice_note'',
      tool_description = ''Append a short note to an invoice. Use it to record a finding; it does not '' @
        ''change the amount, the due date or the payment status.'',
      tool_validate = AddInvoiceNoteArgs, tool_schema = schema_of ''AddInvoiceNoteArgs'',
      tool_risk = WRITE, tool_handler = add_invoice_note, tool_input_schema = None\<rparr>,
     \<lparr>tool_name = ''pay_invoice'',
      tool_description = ''Pay a supplier invoice in full. This moves money and cannot be undone: the '' @
        ''amount must match the invoice exactly, and an invoice can only be paid once.'',
      tool_validate = PayInvoiceArgs, tool_schema = schema_of ''PayInvoiceArgs'',
      tool_risk = CRITICAL, tool_handler = pay_invoice, tool_input_schema = None\<rparr>]"


subsection \<open>What the tools do to the books\<close>

text \<open>Nothing but the payment tool, the one whose risk is critical, touches the payments.\<close>

lemma demo_tools_ok: "list_all tool_ok (build_demo_tools P S)"
  by (simp add: build_demo_tools_def tool_ok_def valid_tool_name_def matches_class_def py_strip_def
      py_lstrip_def py_rstrip_def is_space_def is_tool_name_char_def char_class_defs)

lemma demo_tool_names:
  "map tool_name (build_demo_tools P S) =
     [''lookup_invoice'', ''list_overdue_invoices'', ''add_invoice_note'', ''pay_invoice'']"
  by (simp add: build_demo_tools_def)

lemma lookup_invoice_ledger: "snd (lookup_invoice args L) = L"
  by (simp add: lookup_invoice_def Let_def split: sum.split)

lemma list_overdue_invoices_ledger: "snd (list_overdue_invoices args L) = L"
  by (simp add: list_overdue_invoices_def Let_def)

lemma add_invoice_note_ledger:
  "books_extend L (snd (add_invoice_note args L)) \<and> payments (snd (add_invoice_note args L)) = payments L"
  using add_note_books [of L "arg_str args ''invoice_id''" "arg_str args ''note''"]
  by (auto simp: add_invoice_note_def Let_def split: sum.split prod.split)

lemma pay_invoice_ledger: "books_extend L (snd (pay_invoice args L))"
  using pay_books [of L "arg_str args ''invoice_id''" "amount_cents (arg_str args ''amount_eur'')"]
  by (auto simp: pay_invoice_def split: sum.split prod.split)

lemma demo_tool_effect:
  assumes "t \<in> set (build_demo_tools P S)"
  shows "books_extend L (snd (tool_handler t args L))"
    and "tool_risk t \<noteq> CRITICAL \<Longrightarrow> payments (snd (tool_handler t args L)) = payments L"
    and "tool_risk t = READ \<Longrightarrow> snd (tool_handler t args L) = L"
  using assms lookup_invoice_ledger list_overdue_invoices_ledger add_invoice_note_ledger pay_invoice_ledger
  by (auto simp: build_demo_tools_def)

end
