(* ===== verification/Demo_Provider.thy ===== *)
theory Demo_Provider
  imports MCP_Protocol JSON_Text Demo_Ledger
begin

section \<open>The scripted model of the demo (\<open>demo/provider.py\<close>)\<close>

text \<open>
  \<open>DemoLLMProvider\<close> picks a scenario by the words of the goal and replays its steps, one per
  assistant turn so far, on what the tools returned. It is a pure function of the request.
  \<open>Decimal\<close> is the standard library's, here as the text it prints for the text it is given,
  without its limits on the exponent.
\<close>

definition GOAL_PREFIX :: string where "GOAL_PREFIX = ''Task goal:''"

definition MAX_SUMMARY_CHARS :: nat where "MAX_SUMMARY_CHARS = 240"

definition DEFAULT_INVOICE_ID :: string where "DEFAULT_INVOICE_ID = ''INV-1043''"

record tool_outcome =
  out_call :: tool_call
  out_result :: tool_result

definition outcome_failed :: "tool_outcome \<Rightarrow> bool" where
  "outcome_failed out = res_is_error (out_result out)"

definition payload :: "tool_outcome \<Rightarrow> json_object" where
  "payload out =
     (case json_loads (res_content (out_result out)) of Some (JObj d) \<Rightarrow> d | _ \<Rightarrow> [])"

type_synonym step = "string \<Rightarrow> tool_outcome list \<Rightarrow> exn + tool_call list"

record demo_scenario =
  sc_name :: string
  sc_goal :: string
  sc_keywords :: "string list"
  sc_steps :: "step list"

definition matches_goal :: "demo_scenario \<Rightarrow> string \<Rightarrow> bool" where
  "matches_goal sc goal_text =
     (let lowered = py_lower goal_text in list_all (\<lambda>k. is_substring k lowered) (sc_keywords sc))"


subsection \<open>\<open>str(Decimal(raw))\<close>\<close>

definition signed_digits :: "string \<Rightarrow> int option" where
  "signed_digits s =
     (let d = (if s \<noteq> [] \<and> hd s \<in> {CHR ''+'', CHR ''-''} then tl s else s) in
      if d = [] \<or> \<not> list_all is_digit d then None
      else Some ((if hd s = CHR ''-'' then - 1 else 1) * int (parse_digits d)))"

definition strip_zeros :: "string \<Rightarrow> string" where
  "strip_zeros ds = (let z = dropWhile (\<lambda>c. c = CHR ''0'') ds in if z = [] then ''0'' else z)"

definition print_decimal :: "string \<Rightarrow> int \<Rightarrow> string" where
  "print_decimal coeff e =
     (let n = int (length coeff); left = e + n;
          dot = (if e \<le> 0 \<and> - 6 < left then left else 1);
          body = (if dot \<le> 0 then ''0.'' @ replicate (nat (- dot)) (CHR ''0'') @ coeff
                  else if n \<le> dot then coeff @ replicate (nat (dot - n)) (CHR ''0'')
                  else take (nat dot) coeff @ ''.'' @ drop (nat dot) coeff)
      in body @ (if left = dot then []
                 else ''E'' @ (if 0 \<le> left - dot then ''+'' else []) @ int_str (left - dot)))"

definition finite_decimal :: "string \<Rightarrow> string option" where
  "finite_decimal s =
     (let whole = takeWhile is_digit s; rest = dropWhile is_digit s;
          dotted = (rest \<noteq> [] \<and> hd rest = CHR ''.'');
          fraction = (if dotted then takeWhile is_digit (tl rest) else []);
          rest' = (if dotted then dropWhile is_digit (tl rest) else rest);
          e = (if rest' = [] then Some 0
               else if hd rest' \<in> {CHR ''e'', CHR ''E''} then signed_digits (tl rest') else None)
      in if whole @ fraction = [] then None
         else map_option (\<lambda>k. print_decimal (strip_zeros (whole @ fraction)) (k - int (length fraction))) e)"

definition special_decimal :: "string \<Rightarrow> string option" where
  "special_decimal s =
     (let l = py_lower s in
      if l = ''inf'' \<or> l = ''infinity'' then Some ''Infinity''
      else if take 3 l = ''nan'' \<and> list_all is_digit (drop 3 l)
      then Some (''NaN'' @ dropWhile (\<lambda>c. c = CHR ''0'') (drop 3 l))
      else if take 4 l = ''snan'' \<and> list_all is_digit (drop 4 l)
      then Some (''sNaN'' @ dropWhile (\<lambda>c. c = CHR ''0'') (drop 4 l))
      else None)"

definition decimal_text :: "string \<Rightarrow> string option" where
  "decimal_text raw =
     (let s = filter (\<lambda>c. c \<noteq> CHR ''_'') (py_strip raw);
          signed = (s \<noteq> [] \<and> hd s \<in> {CHR ''+'', CHR ''-''});
          body = (if signed then tl s else s);
          minus = (if signed \<and> hd s = CHR ''-'' then ''-'' else [])
      in map_option (\<lambda>t. minus @ t)
           (case finite_decimal body of Some t \<Rightarrow> Some t | None \<Rightarrow> special_decimal body))"


subsection \<open>Reading the conversation\<close>

definition goal_of :: "message list \<Rightarrow> exn + string" where
  "goal_of messages =
     (case messages of
        [] \<Rightarrow> Inl (OtherError ''IndexError'' ''tuple index out of range'')
      | opening # _ \<Rightarrow> Inr (py_strip (remove_prefix GOAL_PREFIX (msg_content opening))))"

definition invoice_id_at :: "string \<Rightarrow> bool" where
  "invoice_id_at s \<longleftrightarrow> is_prefix ''INV-'' s \<and> 8 \<le> length s \<and> list_all is_digit (take 4 (drop 4 s))"

fun search_invoice_id :: "string \<Rightarrow> string option" where
  "search_invoice_id [] = None"
| "search_invoice_id (c # cs) =
     (if invoice_id_at (c # cs) then Some (take 8 (c # cs)) else search_invoice_id cs)"

definition invoice_id_of :: "string \<Rightarrow> string" where
  "invoice_id_of goal_text =
     (case search_invoice_id goal_text of Some i \<Rightarrow> i | None \<Rightarrow> DEFAULT_INVOICE_ID)"

definition amount_of :: "json \<Rightarrow> string option" where
  "amount_of raw = (case raw of JStr s \<Rightarrow> decimal_text s | _ \<Rightarrow> None)"

definition tool_outcomes :: "message list \<Rightarrow> tool_outcome list" where
  "tool_outcomes messages =
     (let calls = foldl (\<lambda>d c. dict_set (call_id c) c d) [] (concat (map msg_tool_calls messages));
          results = foldl (\<lambda>d r. dict_set (res_call_id r) r d) [] (concat (map msg_tool_results messages))
      in concat (map (\<lambda>(i, c). case dict_get results i of
             None \<Rightarrow> [] | Some r \<Rightarrow> [\<lparr>out_call = c, out_result = r\<rparr>]) calls))"

definition latest_payload :: "tool_outcome list \<Rightarrow> string \<Rightarrow> json_object" where
  "latest_payload outcomes tool_wanted =
     (case List.find (\<lambda>out. call_name (out_call out) = tool_wanted \<and> \<not> outcome_failed out) (rev outcomes) of
        None \<Rightarrow> [] | Some out \<Rightarrow> payload out)"


subsection \<open>The scenarios\<close>

definition settle_invoice_lookup :: step where
  "settle_invoice_lookup goal_text outcomes =
     and_then (mk_tool_call ''demo_1_0'' ''lookup_invoice'' [(''invoice_id'', JStr (invoice_id_of goal_text))])
       (\<lambda>c. Inr [c])"

definition settle_invoice_payment :: step where
  "settle_invoice_payment goal_text outcomes =
     (let found = latest_payload outcomes ''lookup_invoice'';
          amount = amount_of (get_or_null found ''amount_eur'') in
      case (get_or_null found ''invoice_id'', amount) of
        (JStr i, Some a) \<Rightarrow>
          and_then (mk_tool_call ''demo_2_0'' ''pay_invoice'' [(''invoice_id'', JStr i), (''amount_eur'', JStr a)])
            (\<lambda>c. Inr [c])
      | _ \<Rightarrow> Inr [])"

definition overdue_review :: step where
  "overdue_review goal_text outcomes =
     and_then (mk_tool_call ''demo_1_0'' ''list_overdue_invoices'' [(''limit'', JInt 5)]) (\<lambda>c. Inr [c])"

text \<open>\<open>invoices[0]\<close> and \<open>worst[k]\<close>, on whatever JSON the listing held.\<close>

definition first_item :: "json \<Rightarrow> exn + json" where
  "first_item v =
     (case v of
        JList (x # _) \<Rightarrow> Inr x
      | JStr (c # _) \<Rightarrow> Inr (JStr [c])
      | JObj _ \<Rightarrow> Inl (OtherError ''KeyError'' ''0'')
      | _ \<Rightarrow> Inl (OtherError ''TypeError'' ''object is not subscriptable''))"

definition item_of :: "json \<Rightarrow> string \<Rightarrow> exn + json" where
  "item_of v k =
     (case v of
        JObj d \<Rightarrow> (case dict_get d k of None \<Rightarrow> Inl (OtherError ''KeyError'' (quoted k)) | Some x \<Rightarrow> Inr x)
      | _ \<Rightarrow> Inl (OtherError ''TypeError'' ''object is not subscriptable by a string''))"

definition overdue_note :: step where
  "overdue_note goal_text outcomes =
     (let found = get_or_null (latest_payload outcomes ''list_overdue_invoices'') ''invoices'' in
      if \<not> truthy found then Inr []
      else
        and_then (first_item found) (\<lambda>worst.
        and_then (item_of worst ''invoice_id'') (\<lambda>i.
        and_then (item_of worst ''days_overdue'') (\<lambda>n.
        and_then (mk_tool_call ''demo_2_0'' ''add_invoice_note''
          [(''invoice_id'', i),
           (''note'', JStr (''Flagged for payment review: '' @ py_str n @ '' days overdue.''))])
          (\<lambda>c. Inr [c])))))"

definition SCENARIOS :: "demo_scenario list" where
  "SCENARIOS = [
     \<lparr>sc_name = ''settle_invoice'', sc_goal = ''Settle invoice '' @ DEFAULT_INVOICE_ID @ '' with the supplier'',
      sc_keywords = [''settle'', ''invoice''], sc_steps = [settle_invoice_lookup, settle_invoice_payment]\<rparr>,
     \<lparr>sc_name = ''overdue_review'', sc_goal = ''Review the overdue supplier invoices and flag the worst one'',
      sc_keywords = [''overdue''], sc_steps = [overdue_review, overdue_note]\<rparr>]"


subsection \<open>Answers\<close>

definition clip :: "string \<Rightarrow> string" where
  "clip content =
     (let collapsed = py_join '' '' (py_split content) in
      if length collapsed \<le> MAX_SUMMARY_CHARS then collapsed
      else take (MAX_SUMMARY_CHARS - 1) collapsed @ [CHR 0x85])"

definition summarise :: "tool_outcome list \<Rightarrow> string" where
  "summarise outcomes =
     (if outcomes = [] then ''No tools were called, so there is nothing to report.''
      else py_join [CHR 0x0A] (''Done. Tool calls made, in order:'' #
        map (\<lambda>out. ''- '' @ call_name (out_call out) @ '': '' @
               (if outcome_failed out then ''failed'' else ''ok'') @ [CHR '' '', CHR 0x97, CHR '' ''] @
               clip (res_content (out_result out))) outcomes))"

definition unknown_goal :: "demo_scenario list \<Rightarrow> string" where
  "unknown_goal scenarios =
     ''The demo provider has no plan for this goal. It is a scripted stand-in for a '' @
     ''model, not a model; set EAP_LLM_PROVIDER=anthropic to run arbitrary goals. '' @
     ''Goals it does handle:'' @ [CHR 0x0A] @
     py_join [CHR 0x0A] (map (\<lambda>sc. [CHR ''-'', CHR '' '', CHR 0x22] @ sc_goal sc @ [CHR 0x22]) scenarios)"

definition estimate :: "string list \<Rightarrow> int" where
  "estimate texts = int (sum_list (map length texts)) div 4"

definition estimated_usage :: "completion_request \<Rightarrow> string \<Rightarrow> exn + token_usage" where
  "estimated_usage req out =
     mk_token_usage
       (estimate ([case req_system req of None \<Rightarrow> [] | Some s \<Rightarrow> s] @
          map spec_description (req_tools req) @
          concat (map (\<lambda>m. [msg_content m] @ map (\<lambda>c. json_dumps (JObj (call_arguments c))) (msg_tool_calls m) @
            map res_content (msg_tool_results m)) (req_messages req))))
       (estimate [out])"

definition answer_text :: "string \<Rightarrow> completion_request \<Rightarrow> string \<Rightarrow> exn + completion" where
  "answer_text model req text =
     and_then (estimated_usage req text) (\<lambda>u. mk_completion text model END_TURN u [])"

definition request_tools :: "string \<Rightarrow> completion_request \<Rightarrow> tool_call list \<Rightarrow> exn + completion" where
  "request_tools model req calls =
     and_then (estimated_usage req (json_dumps (JList (map (\<lambda>c. JObj (call_arguments c)) calls)))) (\<lambda>u.
       mk_completion [] model TOOL_USE u calls)"

definition demo_complete :: "demo_scenario list \<Rightarrow> string \<Rightarrow> completion_request \<Rightarrow> exn + completion" where
  "demo_complete scenarios model req =
     and_then (goal_of (req_messages req)) (\<lambda>goal_text.
       (case List.find (\<lambda>sc. matches_goal sc goal_text) scenarios of
          None \<Rightarrow> answer_text model req (unknown_goal scenarios)
        | Some sc \<Rightarrow>
            let outcomes = tool_outcomes (req_messages req);
                turn = length (filter (\<lambda>m. msg_role m = ASSISTANT) (req_messages req)) in
            and_then (if turn < length (sc_steps sc) then (sc_steps sc ! turn) goal_text outcomes else Inr [])
              (\<lambda>calls. if calls = [] then answer_text model req (summarise outcomes)
                        else request_tools model req calls)))"

text \<open>The provider keeps no state: it leaves the outside world alone.\<close>

definition scripted_complete :: "completion_request \<Rightarrow> 'x \<Rightarrow> (exn + completion) \<times> 'x" where
  "scripted_complete req x = (demo_complete SCENARIOS ''demo-scripted'' req, x)"

definition demo_provider :: "'x llm_provider" where
  "demo_provider = \<lparr>provider_name = ''demo'', provider_complete = scripted_complete\<rparr>"

end
