(* ===== verification/Anthropic.thy ===== *)
theory Anthropic
  imports Wire_Format MCP_Protocol
begin

section \<open>The Anthropic adapter (\<open>llm/anthropic_provider.py\<close>)\<close>

text \<open>
  Requests to the Messages API as the JSON the SDK is given, and the SDK's answers and exceptions as
  the values the adapter looks at. The SDK itself is the parameter \<open>sdk\<close>: a call answers a message
  or raises one of its errors, of which \<open>RateLimitError\<close> carries the delay that \<open>float\<close> reads from
  the \<open>retry-after\<close> header, in milliseconds. A setting that is omitted is a missing member.
\<close>


subsection \<open>JSON Schema, closed\<close>

definition set_default :: "string \<Rightarrow> json \<Rightarrow> json_object \<Rightarrow> json_object" where
  "set_default k v d = (if k \<in> fst ` set d then d else d @ [(k, v)])"

definition close_object :: "json_object \<Rightarrow> json_object" where
  "close_object d =
     (if dict_get d ''type'' = Some (JStr ''object'')
      then (let closed = set_default ''additionalProperties'' (JBool False) d in
            if ''properties'' \<in> fst ` set closed then set_default ''required'' (JList []) closed else closed)
      else d)"

text \<open>\<open>_close_objects\<close>.\<close>

fun close_objects :: "json \<Rightarrow> json" where
  "close_objects (JObj d) = JObj (close_object (map (\<lambda>(k, v). (k, close_objects v)) d))"
| "close_objects (JList vs) = JList (map close_objects vs)"
| "close_objects v = v"

definition strict_json_schema :: "json_object \<Rightarrow> json_object" where
  "strict_json_schema schema = as_dict (close_objects (JObj schema))"


subsection \<open>Requests\<close>

definition role_param :: "role \<Rightarrow> json" where
  "role_param r = JStr (case r of USER \<Rightarrow> ''user'' | ASSISTANT \<Rightarrow> ''assistant'')"

definition tool_result_block :: "tool_result \<Rightarrow> json" where
  "tool_result_block r = JObj
     [(''type'', JStr ''tool_result''), (''tool_use_id'', JStr (res_call_id r)),
      (''content'', JStr (res_content r)), (''is_error'', JBool (res_is_error r))]"

definition text_block :: "string \<Rightarrow> json" where
  "text_block s = JObj [(''type'', JStr ''text''), (''text'', JStr s)]"

definition tool_use_block :: "tool_call \<Rightarrow> json" where
  "tool_use_block c = JObj
     [(''type'', JStr ''tool_use''), (''id'', JStr (call_id c)), (''name'', JStr (call_name c)),
      (''input'', JObj (call_arguments c))]"

definition message_param :: "message \<Rightarrow> json_object" where
  "message_param m =
     (if msg_tool_calls m = [] \<and> msg_tool_results m = []
      then [(''role'', role_param (msg_role m)), (''content'', JStr (msg_content m))]
      else [(''role'', role_param (msg_role m)),
            (''content'', JList (map tool_result_block (msg_tool_results m) @
               (if msg_content m \<noteq> [] then [text_block (msg_content m)] else []) @
               map tool_use_block (msg_tool_calls m)))])"

definition tool_param :: "tool_spec \<Rightarrow> json" where
  "tool_param t = JObj
     [(''name'', JStr (spec_name t)), (''description'', JStr (spec_description t)),
      (''input_schema'', JObj (strict_json_schema (spec_input_schema t))), (''strict'', JBool True)]"

definition tool_params :: "completion_request \<Rightarrow> json option" where
  "tool_params req = (if req_tools req = [] then None else Some (JList (map tool_param (req_tools req))))"

definition output_config :: "completion_request \<Rightarrow> json option" where
  "output_config req =
     map_option (\<lambda>schema. JObj [(''format'', JObj
       [(''type'', JStr ''json_schema''), (''schema'', JObj (strict_json_schema schema))])])
       (req_output_schema req)"

definition optional_member :: "string \<Rightarrow> json option \<Rightarrow> json_object" where
  "optional_member k v = (case v of None \<Rightarrow> [] | Some x \<Rightarrow> [(k, x)])"

definition create_arguments :: "string \<Rightarrow> completion_request \<Rightarrow> json_object" where
  "create_arguments model req =
     [(''model'', JStr model), (''max_tokens'', JInt (req_max_tokens req))] @
     optional_member ''system'' (map_option JStr (req_system req)) @
     [(''messages'', JList (map (\<lambda>m. JObj (message_param m)) (req_messages req)))] @
     optional_member ''output_config'' (output_config req) @
     optional_member ''tools'' (tool_params req)"


subsection \<open>Answers\<close>

datatype content_block =
    TextBlock string
  | ToolUseBlock string string json \<comment> \<open>id, name, input\<close>
  | OtherBlock string

record sdk_message =
  sdk_content :: "content_block list"
  sdk_model :: string
  sdk_stop_reason :: "string option"
  sdk_input_tokens :: int
  sdk_output_tokens :: int

datatype sdk_error =
    APITimeoutError
  | APIConnectionError
  | RateLimitError "int option"
  | APIStatusError int
  | RaisedBySDK exn

type_synonym 'x sdk = "json_object \<Rightarrow> 'x \<Rightarrow> (sdk_error + sdk_message) \<times> 'x"

definition STOP_REASONS :: "(string, stop_reason) dict" where
  "STOP_REASONS = [(''end_turn'', END_TURN), (''max_tokens'', MAX_TOKENS),
     (''stop_sequence'', STOP_SEQUENCE), (''refusal'', REFUSAL), (''tool_use'', TOOL_USE)]"

definition status_error :: "string \<Rightarrow> int \<Rightarrow> llm_error" where
  "status_error name code =
     (if code = 408 then LLMTimeoutError (name @ '' returned 408 Request Timeout'')
      else if 500 \<le> code then LLMUnavailableError (name @ '' returned '' @ int_str code)
      else LLMRequestError (name @ '' rejected the request with '' @ int_str code))"

text \<open>The \<open>except\<close> clauses of \<open>complete\<close>.\<close>

definition sdk_failure :: "string \<Rightarrow> sdk_error \<Rightarrow> exn" where
  "sdk_failure name err =
     (case err of
        APITimeoutError \<Rightarrow> LLM (LLMTimeoutError (name @ '' request timed out''))
      | APIConnectionError \<Rightarrow> LLM (LLMUnavailableError (''cannot reach '' @ name))
      | RateLimitError delay \<Rightarrow> LLM (LLMRateLimitError (name @ '' rate limit exceeded'') delay)
      | APIStatusError code \<Rightarrow> LLM (status_error name code)
      | RaisedBySDK x \<Rightarrow> x)"

definition to_tool_call :: "string \<Rightarrow> content_block \<Rightarrow> exn + tool_call list" where
  "to_tool_call name b =
     (case b of
        ToolUseBlock i tool_called (JObj input) \<Rightarrow> and_then (mk_tool_call i tool_called input) (\<lambda>c. Inr [c])
      | ToolUseBlock _ _ _ \<Rightarrow>
          Inl (LLM (LLMRequestError (name @ '' returned non-object arguments for a tool call'')))
      | _ \<Rightarrow> Inr [])"

definition block_text :: "content_block \<Rightarrow> string" where
  "block_text b = (case b of TextBlock s \<Rightarrow> s | _ \<Rightarrow> [])"

definition to_completion :: "string \<Rightarrow> sdk_message \<Rightarrow> exn + completion" where
  "to_completion name m =
     (case dict_get STOP_REASONS (case sdk_stop_reason m of None \<Rightarrow> [] | Some s \<Rightarrow> s) of
        None \<Rightarrow> Inl (LLM (LLMRequestError (name @ '' returned unsupported stop reason '' @
                  (case sdk_stop_reason m of None \<Rightarrow> ''None'' | Some s \<Rightarrow> repr_str s))))
      | Some stop \<Rightarrow>
          and_then (mk_token_usage (sdk_input_tokens m) (sdk_output_tokens m)) (\<lambda>usage.
          and_then (traverse (to_tool_call name) (sdk_content m)) (\<lambda>calls.
            mk_completion (concat (map block_text (sdk_content m))) (sdk_model m) stop usage (concat calls))))"

definition anthropic_complete ::
  "string \<Rightarrow> string \<Rightarrow> 'x sdk \<Rightarrow> completion_request \<Rightarrow> 'x \<Rightarrow> (exn + completion) \<times> 'x" where
  "anthropic_complete name model sdk req x =
     (case sdk (create_arguments model req) x of
        (Inl err, x1) \<Rightarrow> (Inl (sdk_failure name err), x1)
      | (Inr m, x1) \<Rightarrow> (to_completion name m, x1))"

definition anthropic_provider :: "string \<Rightarrow> string \<Rightarrow> 'x sdk \<Rightarrow> 'x llm_provider" where
  "anthropic_provider name model sdk =
     \<lparr>provider_name = name, provider_complete = anthropic_complete name model sdk\<rparr>"


subsection \<open>Closed schemas\<close>

text \<open>
  \<open>closed_schema\<close>: every object node of the document says whether it admits other properties, and
  if it lists properties, which of them are required. \<open>close_objects\<close> makes a document closed,
  changes nothing that is closed already, and adds no other member.
\<close>

fun closed_schema :: "json \<Rightarrow> bool" where
  "closed_schema (JObj d) \<longleftrightarrow>
     (dict_get d ''type'' = Some (JStr ''object'') \<longrightarrow>
        ''additionalProperties'' \<in> fst ` set d \<and>
        (''properties'' \<in> fst ` set d \<longrightarrow> ''required'' \<in> fst ` set d)) \<and>
     list_all (\<lambda>(_, v). closed_schema v) d"
| "closed_schema (JList vs) \<longleftrightarrow> list_all closed_schema vs"
| "closed_schema v \<longleftrightarrow> True"

lemma keys_set_default: "fst ` set (set_default k v d) = insert k (fst ` set d)"
  by (auto simp: set_default_def)

lemma set_default_get: "k' \<noteq> k \<Longrightarrow> dict_get (set_default k v d) k' = dict_get d k'"
  by (simp add: set_default_def map_add_def split: option.split)

lemma close_object_get:
  "k \<noteq> ''additionalProperties'' \<Longrightarrow> k \<noteq> ''required'' \<Longrightarrow> dict_get (close_object d) k = dict_get d k"
  by (simp add: close_object_def set_default_get Let_def)

lemma close_object_values:
  "list_all (\<lambda>(_, v). closed_schema v) d \<Longrightarrow> list_all (\<lambda>(_, v). closed_schema v) (close_object d)"
  by (simp add: close_object_def set_default_def Let_def)

lemma close_object_closed:
  assumes "list_all (\<lambda>(_, v). closed_schema v) d"
  shows "closed_schema (JObj (close_object d))"
proof (cases "dict_get d ''type'' = Some (JStr ''object'')")
  case True
  then have "''additionalProperties'' \<in> fst ` set (close_object d)"
      "''properties'' \<in> fst ` set (close_object d) \<Longrightarrow> ''required'' \<in> fst ` set (close_object d)"
    by (auto simp: close_object_def keys_set_default Let_def split: if_splits)
  then show ?thesis
    using close_object_values [OF assms] by simp
next
  case False
  then show ?thesis using assms by (simp add: close_object_def)
qed

lemma close_objects_closed: "closed_schema (close_objects v)"
proof (induction v)
  case (JObj d)
  have "list_all (\<lambda>(_, v). closed_schema v) (map (\<lambda>(k, v). (k, close_objects v)) d)"
    using JObj by (fastforce simp: list_all_iff)
  then show ?case unfolding close_objects.simps by (rule close_object_closed)
qed (simp_all add: list_all_iff)

lemma close_objects_fixed: "closed_schema v \<Longrightarrow> close_objects v = v"
proof (induction v)
  case (JObj d)
  have "(k, close_objects v) = (k, v)" if "(k, v) \<in> set d" for k v
    using JObj that by (fastforce simp: list_all_iff)
  then have "map (\<lambda>(k, v). (k, close_objects v)) d = d"
    by (intro map_idI) auto
  moreover have "close_object d = d"
    using JObj.prems by (auto simp: close_object_def set_default_def Let_def)
  ultimately show ?case by simp
next
  case (JList vs)
  then show ?case by (simp add: list_all_iff map_idI)
qed simp_all


lemma strict_json_schema_closes: "JObj (strict_json_schema s) = close_objects (JObj s)"
  by (simp add: strict_json_schema_def)

text \<open>
  What it leaves open: an object that says itself that it admits other properties, and one whose
  type is a list of types. A datum that looks like a schema is closed too.
\<close>

lemma open_object_stays_open:
  "strict_json_schema [(''type'', JStr ''object''), (''additionalProperties'', JBool True)] =
     [(''type'', JStr ''object''), (''additionalProperties'', JBool True)]"
  "strict_json_schema [(''type'', JList [JStr ''object'', JStr ''null'']), (''properties'', JObj [])] =
     [(''type'', JList [JStr ''object'', JStr ''null'']), (''properties'', JObj [])]"
  by code_simp+

lemma default_value_is_rewritten:
  "strict_json_schema [(''default'', JObj [(''type'', JStr ''object'')])] =
     [(''default'', JObj [(''type'', JStr ''object''), (''additionalProperties'', JBool False)])]"
  by code_simp


subsection \<open>The conversation survives the translation\<close>

text \<open>A reading of the Messages API's content: the role, and the blocks by their types.\<close>

definition block_of_type :: "string \<Rightarrow> json \<Rightarrow> json_object option" where
  "block_of_type t b =
     (case b of JObj d \<Rightarrow> if dict_get d ''type'' = Some (JStr t) then Some d else None | _ \<Rightarrow> None)"

definition str_member :: "json_object \<Rightarrow> string \<Rightarrow> string" where
  "str_member d k = (case get_or_null d k of JStr s \<Rightarrow> s | _ \<Rightarrow> [])"

definition read_result_block :: "json \<Rightarrow> tool_result list" where
  "read_result_block b =
     (case block_of_type ''tool_result'' b of None \<Rightarrow> []
      | Some d \<Rightarrow> [\<lparr>res_call_id = str_member d ''tool_use_id'', res_content = str_member d ''content'',
                   res_is_error = truthy (get_or_null d ''is_error'')\<rparr>])"

definition read_text_block :: "json \<Rightarrow> string" where
  "read_text_block b =
     (case block_of_type ''text'' b of None \<Rightarrow> [] | Some d \<Rightarrow> str_member d ''text'')"

definition read_use_block :: "json \<Rightarrow> tool_call list" where
  "read_use_block b =
     (case block_of_type ''tool_use'' b of None \<Rightarrow> []
      | Some d \<Rightarrow> [\<lparr>call_id = str_member d ''id'', call_name = str_member d ''name'',
                   call_arguments = as_dict (get_or_null d ''input'')\<rparr>])"

definition read_message :: "json_object \<Rightarrow> message" where
  "read_message d =
     (let r = (if str_member d ''role'' = ''user'' then USER else ASSISTANT) in
      case get_or_null d ''content'' of
        JList blocks \<Rightarrow>
          \<lparr>msg_role = r, msg_content = concat (map read_text_block blocks),
           msg_tool_calls = concat (map read_use_block blocks),
           msg_tool_results = concat (map read_result_block blocks)\<rparr>
      | _ \<Rightarrow> \<lparr>msg_role = r, msg_content = str_member d ''content'', msg_tool_calls = [], msg_tool_results = []\<rparr>)"

lemmas block_defs = tool_result_block_def text_block_def tool_use_block_def block_of_type_def
  str_member_def get_or_null_def

lemma read_block_simps [simp]:
  "read_result_block (tool_result_block r) = [r]" "read_text_block (tool_result_block r) = []"
  "read_use_block (tool_result_block r) = []"
  "read_result_block (text_block t) = []" "read_text_block (text_block t) = t" "read_use_block (text_block t) = []"
  "read_result_block (tool_use_block c) = []" "read_text_block (tool_use_block c) = []"
  "read_use_block (tool_use_block c) = [c]"
  by (simp_all add: read_result_block_def read_text_block_def read_use_block_def block_defs)

lemma concat_map_singleton [simp]: "concat (map (\<lambda>x. [x]) xs) = xs"
  by (induction xs) simp_all

lemma concat_map_nil [simp]: "concat (map (\<lambda>x. []) xs) = []"
  by (induction xs) simp_all

lemma read_message_param: "read_message (message_param m) = m"
proof -
  have role: "(if str_member ((''role'', role_param r) # d) ''role'' = ''user'' then USER else ASSISTANT) = r"
    for r d by (cases r) (simp_all add: str_member_def get_or_null_def role_param_def)
  show ?thesis
  proof (cases "msg_tool_calls m = [] \<and> msg_tool_results m = []")
    case True
    then show ?thesis
      by (simp add: read_message_def message_param_def role)
         (simp add: str_member_def get_or_null_def)
  next
    case False
    let ?blocks = "map tool_result_block (msg_tool_results m) @
        (if msg_content m \<noteq> [] then [text_block (msg_content m)] else []) @
        map tool_use_block (msg_tool_calls m)"
    have "get_or_null (message_param m) ''content'' = JList ?blocks"
      using False by (simp add: message_param_def get_or_null_def)
    moreover have "concat (map read_text_block ?blocks) = msg_content m"
      "concat (map read_use_block ?blocks) = msg_tool_calls m"
      "concat (map read_result_block ?blocks) = msg_tool_results m"
      by (simp_all add: comp_def)
    moreover have "(if str_member (message_param m) ''role'' = ''user'' then USER else ASSISTANT) = msg_role m"
      using False by (simp only: message_param_def if_False role)
    ultimately show ?thesis by (simp add: read_message_def Let_def)
  qed
qed


subsection \<open>What the adapter returns and raises\<close>

lemma to_tool_call_ok:
  assumes "to_tool_call name b = Inr cs"
  shows "list_all tool_call_ok cs"
  using assms
  by (auto simp: to_tool_call_def and_then_Inr dest: mk_tool_call_ok split: content_block.splits json.splits)

lemma to_completion_ok: "to_completion name m = Inr c \<Longrightarrow> completion_ok c"
proof -
  assume "to_completion name m = Inr c"
  then obtain stop u calls where u: "mk_token_usage (sdk_input_tokens m) (sdk_output_tokens m) = Inr u"
      and calls: "traverse (to_tool_call name) (sdk_content m) = Inr calls"
      and c: "mk_completion (concat (map block_text (sdk_content m))) (sdk_model m) stop u (concat calls) = Inr c"
    by (auto simp: to_completion_def and_then_Inr split: option.splits)
  have "list_all tool_call_ok (concat calls)"
    using calls unfolding traverse_Inr
    by (induction rule: list_all2_induct) (auto dest: to_tool_call_ok)
  with c mk_token_usage_ok [OF u] show ?thesis by (intro mk_completion_ok)
qed

lemma anthropic_provider_ok: "provider_ok (anthropic_provider name model sdk)"
  by (auto simp: provider_ok_def anthropic_provider_def anthropic_complete_def
      split: prod.splits sum.splits dest: to_completion_ok)

text \<open>
  What the SDK documents of a message: counts are not negative, a tool use has an id of its own and a
  tool's name, and a message that stops for tools uses one.
\<close>

definition use_ids :: "content_block list \<Rightarrow> string list" where
  "use_ids bs = concat (map (\<lambda>b. case b of ToolUseBlock i _ _ \<Rightarrow> [i] | _ \<Rightarrow> []) bs)"

definition sdk_message_ok :: "sdk_message \<Rightarrow> bool" where
  "sdk_message_ok m \<longleftrightarrow> 0 \<le> sdk_input_tokens m \<and> 0 \<le> sdk_output_tokens m \<and>
     list_all (\<lambda>b. case b of ToolUseBlock i n _ \<Rightarrow> i \<noteq> [] \<and> valid_tool_name n | _ \<Rightarrow> True) (sdk_content m) \<and>
     distinct (use_ids (sdk_content m)) \<and>
     (sdk_stop_reason m = Some ''tool_use'' \<longrightarrow> use_ids (sdk_content m) \<noteq> [])"

text \<open>The SDK raises what it documents; a caller's deadline may cut it off.\<close>

definition sdk_documented :: "'x sdk \<Rightarrow> bool" where
  "sdk_documented sdk \<longleftrightarrow> (\<forall>args x e. fst (sdk args x) = Inl (RaisedBySDK e) \<longrightarrow> e = TimeoutError)"

lemma to_tool_call_cases:
  assumes "case b of ToolUseBlock i n _ \<Rightarrow> i \<noteq> [] \<and> valid_tool_name n | _ \<Rightarrow> True"
  obtains (refused) le where "to_tool_call name b = Inl (LLM le)"
  | (read) cs where "to_tool_call name b = Inr cs" "map call_id cs = use_ids [b]"
proof (cases b)
  case (ToolUseBlock i n v)
  then show ?thesis
    using assms that by (cases v) (auto simp: to_tool_call_def mk_tool_call_def use_ids_def)
qed (use that in \<open>auto simp: to_tool_call_def use_ids_def\<close>)

lemma read_blocks_cases:
  assumes "list_all (\<lambda>b. case b of ToolUseBlock i n _ \<Rightarrow> i \<noteq> [] \<and> valid_tool_name n | _ \<Rightarrow> True) bs"
  shows "(\<exists>le. traverse (to_tool_call name) bs = Inl (LLM le)) \<or>
    (\<exists>calls. traverse (to_tool_call name) bs = Inr calls \<and> map call_id (concat calls) = use_ids bs)"
  using assms
proof (induction bs)
  case Nil
  then show ?case by (simp add: use_ids_def)
next
  case (Cons b bs)
  then have b: "case b of ToolUseBlock i n _ \<Rightarrow> i \<noteq> [] \<and> valid_tool_name n | _ \<Rightarrow> True" by simp
  from b show ?case
  proof (cases rule: to_tool_call_cases [where name = name])
    case refused
    then show ?thesis by auto
  next
    case (read cs)
    then show ?thesis using Cons by (fastforce simp: use_ids_def)
  qed
qed

lemma to_completion_raises:
  assumes "to_completion name m = Inl e" and ok: "sdk_message_ok m"
  shows "\<exists>le. e = LLM le"
proof (cases "dict_get STOP_REASONS (case sdk_stop_reason m of None \<Rightarrow> [] | Some s \<Rightarrow> s)")
  case None
  then show ?thesis using assms(1) by (auto simp: to_completion_def)
next
  case (Some stop)
  have use: "stop = TOOL_USE \<Longrightarrow> sdk_stop_reason m = Some ''tool_use''"
    using Some by (auto simp: STOP_REASONS_def split: option.splits if_splits)
  have u: "\<exists>u. mk_token_usage (sdk_input_tokens m) (sdk_output_tokens m) = Inr u"
    using ok by (simp add: sdk_message_ok_def mk_token_usage_def)
  have "list_all (\<lambda>b. case b of ToolUseBlock i n _ \<Rightarrow> i \<noteq> [] \<and> valid_tool_name n | _ \<Rightarrow> True) (sdk_content m)"
    using ok by (simp add: sdk_message_ok_def)
  from read_blocks_cases [OF this, of name] show ?thesis
  proof (elim disjE exE conjE)
    fix le assume "traverse (to_tool_call name) (sdk_content m) = Inl (LLM le)"
    then show ?thesis using assms(1) Some u by (auto simp: to_completion_def)
  next
    fix calls
    assume calls: "traverse (to_tool_call name) (sdk_content m) = Inr calls"
      "map call_id (concat calls) = use_ids (sdk_content m)"
    have "stop = TOOL_USE \<Longrightarrow> use_ids (sdk_content m) \<noteq> []"
      using ok use by (simp add: sdk_message_ok_def)
    moreover have "use_ids (sdk_content m) \<noteq> [] \<Longrightarrow> concat calls \<noteq> []"
      using calls(2) by (metis list.map_disc_iff)
    moreover have "distinct (map call_id (concat calls))"
      using ok calls(2) by (simp only: sdk_message_ok_def)
    ultimately have "mk_completion (concat (map block_text (sdk_content m))) (sdk_model m) stop u (concat calls) \<noteq> Inl x"
        for u x
      unfolding mk_completion_def by (simp only: if_not_P) auto
    then have "\<exists>c. to_completion name m = Inr c"
      using Some u calls(1) by (auto simp: to_completion_def simp del: mk_completion_def) (metis sum.exhaust)
    then show ?thesis using assms(1) by auto
  qed
qed

text \<open>Reading an answer fails with an error of the taxonomy, or with the complaint of a model's validator.\<close>

lemma to_completion_errors:
  assumes "to_completion name m = Inl e"
  shows "(\<exists>le. e = LLM le) \<or> (\<exists>msg. e = ValidationError msg)"
proof -
  have call: "(\<exists>le. e = LLM le) \<or> (\<exists>msg. e = ValidationError msg)" if "to_tool_call name b = Inl e" for b
    using that by (auto simp: to_tool_call_def mk_tool_call_def and_then_Inl
        split: content_block.splits json.splits if_splits)
  have calls: "(\<exists>le. e = LLM le) \<or> (\<exists>msg. e = ValidationError msg)" if "traverse (to_tool_call name) bs = Inl e" for bs
    using that by (induction bs) (auto simp: and_then_Inl dest: call)
  show ?thesis
    using assms calls [of "sdk_content m"]
    by (auto simp: to_completion_def and_then_Inl mk_token_usage_def mk_completion_def split: option.splits if_splits)
qed

text \<open>
  Every failure of the adapter is a deadline or an error of the taxonomy, but for an answer that breaks
  the rules of the API, which leaves it as a \<open>ValidationError\<close>.
\<close>

lemma anthropic_failures:
  assumes "sdk_documented sdk"
    and "provider_complete (anthropic_provider name model sdk) req x = (Inl e, x')"
  shows "e = TimeoutError \<or> (\<exists>le. e = LLM le) \<or>
    (\<exists>m msg. sdk (create_arguments model req) x = (Inr m, x') \<and> \<not> sdk_message_ok m \<and> e = ValidationError msg)"
proof -
  obtain out x1 where sdk: "sdk (create_arguments model req) x = (out, x1)" by (metis surj_pair)
  show ?thesis
  proof (cases out)
    case (Inl err)
    then have "err = RaisedBySDK e' \<Longrightarrow> e' = TimeoutError" for e'
      using assms(1) sdk unfolding sdk_documented_def by (metis fst_conv)
    then show ?thesis
      using assms(2) sdk Inl
      by (cases err) (auto simp: anthropic_provider_def anthropic_complete_def sdk_failure_def)
  next
    case (Inr m)
    then have m: "to_completion name m = Inl e" "sdk (create_arguments model req) x = (Inr m, x')"
      using assms(2) sdk by (auto simp: anthropic_provider_def anthropic_complete_def)
    show ?thesis
    proof (cases "sdk_message_ok m")
      case True
      then show ?thesis using to_completion_raises [OF m(1)] by blast
    next
      case False
      then show ?thesis using to_completion_errors [OF m(1)] m(2) by blast
    qed
  qed
qed

text \<open>Retrying is suggested for exactly the failures that may pass.\<close>

lemma status_error_retryable: "retryable (status_error name code) \<longleftrightarrow> code = 408 \<or> 500 \<le> code"
  by (simp add: status_error_def)

text \<open>An answer that repeats a tool use id leaves the adapter as a \<open>ValidationError\<close>.\<close>

lemma repeated_id_escapes:
  "to_completion name
     \<lparr>sdk_content = [ToolUseBlock ''a'' ''f'' (JObj []), ToolUseBlock ''a'' ''f'' (JObj [])], sdk_model = ''m'',
      sdk_stop_reason = Some ''tool_use'', sdk_input_tokens = 1, sdk_output_tokens = 1\<rparr> =
   Inl (ValidationError ''tool call ids must be unique within a completion'')"
proof -
  have "valid_tool_name ''f''" by code_simp
  then show ?thesis
    by (simp add: to_completion_def STOP_REASONS_def mk_token_usage_def to_tool_call_def mk_tool_call_def
        mk_completion_def)
qed

end
