(* ===== verification/Postgres.thy ===== *)
theory Postgres
  imports Wire_Format
begin

section \<open>The PostgreSQL adapter (\<open>tasks/postgres.py\<close>)\<close>

text \<open>
  The table \<open>agent_tasks\<close> is a list of rows, its SQL statements are functions on it, and the
  adapter's methods call them as the source does. What the server decides is the parameter
  \<open>postgres\<close>: which texts it can store, what a \<open>jsonb\<close> column gives back for a document (nothing,
  if it refuses it), what its errors look like; \<open>postgres_ok\<close> states that a document comes back
  with the order of members and the spelling of fractional numbers changed at most. The locale
  \<open>postgres_server\<close> derives the contract of \<open>tasks/repository.py\<close> from these laws.

  Each statement is atomic. The read that explains a refused update is a second statement, so
  \<open>pg_update\<close> takes what other connections do in between.
\<close>

record pg_row =
  row_id :: uuid
  row_goal :: string
  row_requested_by :: string
  row_status :: string
  row_version :: int
  row_created_at :: timestamp
  row_updated_at :: timestamp
  row_history :: json
  row_checkpoint :: "json option"

record postgres =
  accepts_text :: "string \<Rightarrow> bool"
  jsonb :: "json \<Rightarrow> json option"
  data_error :: exn
  check_violation :: exn
  undefined_table :: exn

definition postgres_ok :: "postgres \<Rightarrow> bool" where
  "postgres_ok D \<longleftrightarrow> (\<forall>v v'. jsonb D v = Some v' \<longrightarrow> json_equiv v v')"

text \<open>The adapter's own state is whether it holds a pool; the table exists or not.\<close>

record pg_repo =
  pool :: bool
  pg_table :: "pg_row list option"


subsection \<open>The statements\<close>

text \<open>Parameters are encoded by the driver: \<open>text\<close>, \<open>integer\<close>, \<open>bigint\<close> and \<open>jsonb\<close>.\<close>

definition bind_text :: "postgres \<Rightarrow> string \<Rightarrow> exn + string" where
  "bind_text D s = (if accepts_text D s then Inr s else Inl (data_error D))"

definition bind_int4 :: "postgres \<Rightarrow> int \<Rightarrow> exn + int" where
  "bind_int4 D i = (if - (2 ^ 31) \<le> i \<and> i < 2 ^ 31 then Inr i else Inl (data_error D))"

definition bind_int8 :: "postgres \<Rightarrow> int \<Rightarrow> exn + int" where
  "bind_int8 D i = (if - (2 ^ 63) \<le> i \<and> i < 2 ^ 63 then Inr i else Inl (data_error D))"

definition bind_jsonb :: "postgres \<Rightarrow> json \<Rightarrow> exn + json" where
  "bind_jsonb D v = (case jsonb D v of None \<Rightarrow> Inl (data_error D) | Some v' \<Rightarrow> Inr v')"

definition bind_opt_jsonb :: "postgres \<Rightarrow> json option \<Rightarrow> exn + json option" where
  "bind_opt_jsonb D v =
     (case v of None \<Rightarrow> Inr None | Some x \<Rightarrow> and_then (bind_jsonb D x) (\<lambda>y. Inr (Some y)))"

text \<open>The \<open>CHECK\<close> constraints of the table.\<close>

definition row_checks :: "pg_row \<Rightarrow> bool" where
  "row_checks row \<longleftrightarrow>
     row_status row \<in> status_value ` set all_statuses \<and> 1 \<le> row_version row \<and>
     (row_checkpoint row = None \<or> row_status row = ''awaiting_approval'')"

definition create_table :: "pg_repo \<Rightarrow> pg_repo" where
  "create_table r = r\<lparr>pg_table := Some (case pg_table r of None \<Rightarrow> [] | Some rows \<Rightarrow> rows)\<rparr>"

datatype inserted = UniqueViolationError | Inserted "pg_row list"

definition insert_row :: "postgres \<Rightarrow> pg_row \<Rightarrow> pg_row list \<Rightarrow> exn + inserted" where
  "insert_row D row rows =
     (if \<not> row_checks row then Inl (check_violation D)
      else if row_id row \<in> row_id ` set rows then Inr UniqueViolationError
      else Inr (Inserted (rows @ [row])))"

definition select_by_id :: "uuid \<Rightarrow> pg_row list \<Rightarrow> pg_row option" where
  "select_by_id i rows = List.find (\<lambda>row. row_id row = i) rows"

text \<open>\<open>UPDATE ... SET ... WHERE id = $1 AND version = $7 RETURNING version\<close>.\<close>

definition update_if_version_matches ::
  "postgres \<Rightarrow> uuid \<Rightarrow> int \<Rightarrow> (pg_row \<Rightarrow> pg_row) \<Rightarrow> pg_row list \<Rightarrow> exn + int option \<times> pg_row list" where
  "update_if_version_matches D i expected set_columns rows =
     (let hit = (\<lambda>row. row_id row = i \<and> row_version row = expected);
          rows' = map (\<lambda>row. if hit row then set_columns row else row) rows
      in if list_ex (\<lambda>row. hit row \<and> \<not> row_checks (set_columns row)) rows
         then Inl (check_violation D)
         else Inr (map_option (\<lambda>row. row_version (set_columns row)) (List.find hit rows), rows'))"

definition select_ordered :: "postgres \<Rightarrow> (pg_row \<Rightarrow> bool) \<Rightarrow> int \<Rightarrow> pg_row list \<Rightarrow> exn + pg_row list" where
  "select_ordered D wh limit rows =
     (if limit < 0 then Inl (data_error D)
      else Inr (take (nat limit)
        (sorted_desc (\<lambda>row. (row_created_at row, row_id row)) (filter wh rows))))"


subsection \<open>Rows and tasks\<close>

definition history_of :: "pydantic \<Rightarrow> agent_task \<Rightarrow> json" where
  "history_of P t = JList (map (dump_transition P) (history t))"

definition checkpoint_of :: "agent_task \<Rightarrow> json option" where
  "checkpoint_of t = map_option dump_checkpoint (checkpoint t)"

text \<open>Through the domain model's validation, column by column.\<close>

definition to_task :: "pydantic \<Rightarrow> pg_row \<Rightarrow> exn + agent_task" where
  "to_task P row =
     and_then (load_status (JStr (row_status row))) (\<lambda>st.
     and_then (and_then (as_list (row_history row)) (traverse (load_transition P))) (\<lambda>hs.
     and_then (case row_checkpoint row of None \<Rightarrow> Inr None
               | Some v \<Rightarrow> if v = JNull then Inr None
                           else and_then (load_checkpoint P v) (\<lambda>cp. Inr (Some cp))) (\<lambda>cp.
       mk_agent_task
         \<lparr>task_id = row_id row, goal = row_goal row, requested_by = row_requested_by row, status = st,
          version = row_version row, created_at = row_created_at row, updated_at = row_updated_at row,
          history = hs, checkpoint = cp\<rparr>)))"


subsection \<open>The adapter\<close>

definition pg_init :: pg_repo where
  "pg_init = \<lparr>pool = False, pg_table = None\<rparr>"

text \<open>\<open>connect\<close>; opening the pool can fail, which is \<open>outcome\<close>.\<close>

definition apply_schema :: "pg_repo \<Rightarrow> pg_repo" where
  "apply_schema r = create_table r"

definition pg_connect :: "exn option \<Rightarrow> bool \<Rightarrow> pg_repo \<Rightarrow> exn + pg_repo" where
  "pg_connect outcome create_schema r =
     (if pool r then Inr r
      else case outcome of
        Some e \<Rightarrow> Inl e
      | None \<Rightarrow> Inr (if create_schema then apply_schema (r\<lparr>pool := True\<rparr>) else r\<lparr>pool := True\<rparr>))"

definition pg_aclose :: "pg_repo \<Rightarrow> pg_repo" where
  "pg_aclose r = (if \<not> pool r then r else r\<lparr>pool := False\<rparr>)"

text \<open>A connection from the pool, and the table it sees.\<close>

definition acquire :: "postgres \<Rightarrow> pg_repo \<Rightarrow> exn + pg_row list" where
  "acquire D r =
     (if \<not> pool r then Inl (RuntimeError ''repository is not connected; call connect() first'')
      else case pg_table r of None \<Rightarrow> Inl (undefined_table D) | Some rows \<Rightarrow> Inr rows)"

definition pg_add :: "pydantic \<Rightarrow> postgres \<Rightarrow> agent_task \<Rightarrow> pg_repo \<Rightarrow> exn + pg_repo" where
  "pg_add P D t r =
     and_then (acquire D r) (\<lambda>rows.
     and_then (bind_text D (goal t)) (\<lambda>g.
     and_then (bind_text D (requested_by t)) (\<lambda>b.
     and_then (bind_int4 D (version t)) (\<lambda>v.
     and_then (bind_jsonb D (history_of P t)) (\<lambda>h.
     and_then (bind_opt_jsonb D (checkpoint_of t)) (\<lambda>cp.
     and_then (insert_row D
         \<lparr>row_id = task_id t, row_goal = g, row_requested_by = b, row_status = status_value (status t),
          row_version = v, row_created_at = created_at t, row_updated_at = updated_at t,
          row_history = h, row_checkpoint = cp\<rparr> rows) (\<lambda>res.
       case res of
         UniqueViolationError \<Rightarrow>
           Inl (ValueError (''task '' @ quoted (uuid_str (task_id t)) @ '' already exists''))
       | Inserted rows' \<Rightarrow> Inr (r\<lparr>pg_table := Some rows'\<rparr>))))))))"

definition pg_get :: "pydantic \<Rightarrow> postgres \<Rightarrow> uuid \<Rightarrow> pg_repo \<Rightarrow> exn + agent_task" where
  "pg_get P D i r =
     and_then (acquire D r) (\<lambda>rows.
       case select_by_id i rows of None \<Rightarrow> Inl (TaskNotFoundError i) | Some row \<Rightarrow> to_task P row)"

text \<open>The result and the repository afterwards: a refusal may find the table moved on.\<close>

definition pg_update ::
  "pydantic \<Rightarrow> postgres \<Rightarrow> (pg_row list \<Rightarrow> pg_row list) \<Rightarrow> agent_task \<Rightarrow> int \<Rightarrow> pg_repo
   \<Rightarrow> (exn + unit) \<times> pg_repo" where
  "pg_update P D between t expected_version r =
     (case and_then (acquire D r) (\<lambda>rows.
             and_then (bind_int4 D (version t)) (\<lambda>v.
             and_then (bind_jsonb D (history_of P t)) (\<lambda>h.
             and_then (bind_opt_jsonb D (checkpoint_of t)) (\<lambda>cp.
             and_then (bind_int4 D expected_version) (\<lambda>expected.
               update_if_version_matches D (task_id t) expected
                 (\<lambda>row. row\<lparr>row_status := status_value (status t), row_version := v,
                            row_updated_at := updated_at t, row_history := h, row_checkpoint := cp\<rparr>)
                 rows))))) of
        Inl e \<Rightarrow> (Inl e, r)
      | Inr (Some updated, rows) \<Rightarrow> (Inr (), r\<lparr>pg_table := Some rows\<rparr>)
      | Inr (None, rows) \<Rightarrow>
          (let rows' = between rows; r' = r\<lparr>pg_table := Some rows'\<rparr> in
           case map_option row_version (select_by_id (task_id t) rows') of
             None \<Rightarrow> (Inl (TaskNotFoundError (task_id t)), r')
           | Some actual \<Rightarrow> (Inl (ConcurrentUpdateError (task_id t) expected_version actual), r')))"

definition pg_list_tasks ::
  "pydantic \<Rightarrow> postgres \<Rightarrow> task_status option \<Rightarrow> int \<Rightarrow> pg_repo \<Rightarrow> exn + agent_task list" where
  "pg_list_tasks P D st limit r =
     and_then (acquire D r) (\<lambda>rows.
     and_then (bind_int8 D limit) (\<lambda>n.
     and_then (case st of None \<Rightarrow> select_ordered D (\<lambda>_. True) n rows
               | Some s \<Rightarrow> select_ordered D (\<lambda>row. row_status row = status_value s) n rows)
       (traverse (to_task P))))"

end
