(* ===== verification/Postgres_Contract.thy ===== *)
theory Postgres_Contract
  imports Postgres
begin

section \<open>The PostgreSQL adapter keeps the repository contract\<close>

text \<open>
  The records of the model have values that are no objects of the classes (a checkpoint that does
  not end on a tool request, an empty goal); \<open>task_object\<close> picks out those the validators accept.
  The port offers the adapter's methods for objects. \<open>pg_lookup\<close> reads a row back, \<open>pg_stored\<close> is
  the task that comes back for one written, \<open>pg_storable\<close> says which tasks the server takes.
\<close>

definition task_object :: "agent_task \<Rightarrow> bool" where
  "task_object t \<longleftrightarrow> mk_agent_task t = Inr t \<and>
     (case checkpoint t of None \<Rightarrow> True | Some cp \<Rightarrow> checkpoint_object cp)"

lemma mk_agent_task_eq:
  "mk_agent_task t = Inr t' \<longleftrightarrow>
     trim (goal t) \<noteq> [] \<and> length (trim (goal t)) \<le> 4000 \<and>
     trim (requested_by t) \<noteq> [] \<and> length (trim (requested_by t)) \<le> 256 \<and> 1 \<le> version t \<and>
     (checkpoint t = None \<or> status t = AWAITING_APPROVAL) \<and>
     t' = t\<lparr>goal := trim (goal t), requested_by := trim (requested_by t)\<rparr>"
  by (auto simp: mk_agent_task_def check_checkpoint_def Let_def)

lemma mk_agent_task_trimmed: "mk_agent_task t = Inr t \<Longrightarrow> trim (goal t) = goal t \<and> trim (requested_by t) = requested_by t"
  by (cases t) (simp add: mk_agent_task_eq)

text \<open>What the program builds is an object.\<close>

lemma create_object: "create i g by_whom at = Inr t \<Longrightarrow> task_object t"
  by (auto simp: create_eq task_object_def mk_agent_task_eq)

lemma transition_to_object:
  "transition_to t target why cp at = Inr t' \<Longrightarrow> task_object t \<Longrightarrow>
   (\<And>c. cp = Some c \<Longrightarrow> checkpoint_object c) \<Longrightarrow> task_object t'"
  by (cases t) (auto simp: transition_to_eq task_object_def mk_agent_task_eq split: option.split)


subsection \<open>The port, and what the table holds\<close>

definition not_an_object :: exn where
  "not_an_object = OtherError ''TypeError'' []"

text \<open>
  Nothing happens between the two statements of \<open>pg_update\<close> here: what others do there counts as done at
  the \<open>await\<close> before it, with the same answer (\<open>update_suspension_absorbed\<close> in \<open>Repository_Equivalence\<close>).
\<close>

definition pg_port :: "pydantic \<Rightarrow> postgres \<Rightarrow> pg_repo task_repo" where
  "pg_port P D = \<lparr>
     repo_add = (\<lambda>t r. if task_object t then pg_add P D t r else Inl not_an_object),
     repo_get = pg_get P D,
     repo_update = (\<lambda>t v r. if \<not> task_object t then Inl not_an_object
       else case pg_update P D (\<lambda>rows. rows) t v r of (Inl e, _) \<Rightarrow> Inl e | (Inr _, r') \<Rightarrow> Inr r'),
     repo_list_tasks = pg_list_tasks P D\<rparr>"

lemma pg_port_sel [simp]:
  "repo_add (pg_port P D) t r = (if task_object t then pg_add P D t r else Inl not_an_object)"
  "repo_get (pg_port P D) = pg_get P D"
  "repo_update (pg_port P D) t v r = (if \<not> task_object t then Inl not_an_object
     else case pg_update P D (\<lambda>rows. rows) t v r of (Inl e, _) \<Rightarrow> Inl e | (Inr _, r') \<Rightarrow> Inr r')"
  "repo_list_tasks (pg_port P D) = pg_list_tasks P D"
  by (simp_all add: pg_port_def)

definition row_task :: "pydantic \<Rightarrow> pg_row \<Rightarrow> agent_task option" where
  "row_task P row = (case to_task P row of Inl _ \<Rightarrow> None | Inr t \<Rightarrow> Some t)"

definition pg_lookup :: "pydantic \<Rightarrow> pg_repo \<Rightarrow> uuid \<Rightarrow> agent_task option" where
  "pg_lookup P r i =
     (case pg_table r of None \<Rightarrow> None
      | Some rows \<Rightarrow> (case select_by_id i rows of None \<Rightarrow> None | Some row \<Rightarrow> row_task P row))"

definition row_loads :: "pydantic \<Rightarrow> postgres \<Rightarrow> pg_row \<Rightarrow> bool" where
  "row_loads P D row \<longleftrightarrow>
     (case to_task P row of Inl _ \<Rightarrow> False
      | Inr t \<Rightarrow> goal t = row_goal row \<and> requested_by t = row_requested_by row \<and>
          accepts_text D (goal t) \<and> accepts_text D (requested_by t))"

definition pg_invar :: "pydantic \<Rightarrow> postgres \<Rightarrow> pg_repo \<Rightarrow> bool" where
  "pg_invar P D r \<longleftrightarrow> pool r \<and>
     (case pg_table r of None \<Rightarrow> False
      | Some rows \<Rightarrow> distinct (map row_id rows) \<and> list_all (row_loads P D) rows)"

definition pg_storable :: "pydantic \<Rightarrow> postgres \<Rightarrow> agent_task \<Rightarrow> bool" where
  "pg_storable P D t \<longleftrightarrow>
     task_object t \<and> accepts_text D (goal t) \<and> accepts_text D (requested_by t) \<and>
     version t < 2 ^ 31 \<and> jsonb D (history_of P t) \<noteq> None \<and>
     (case checkpoint t of None \<Rightarrow> True | Some cp \<Rightarrow> jsonb D (dump_checkpoint cp) \<noteq> None)"

definition pg_stored :: "pydantic \<Rightarrow> postgres \<Rightarrow> agent_task \<Rightarrow> agent_task" where
  "pg_stored P D t = t\<lparr>checkpoint :=
     (case checkpoint t of None \<Rightarrow> None
      | Some cp \<Rightarrow> Some (case jsonb D (dump_checkpoint cp) of None \<Rightarrow> cp
          | Some v \<Rightarrow> (case load_checkpoint P v of Inl _ \<Rightarrow> cp | Inr cp' \<Rightarrow> cp')))\<rparr>"


subsection \<open>Rows\<close>

lemma select_by_id_Some:
  "distinct (map row_id rows) \<Longrightarrow> select_by_id i rows = Some row \<longleftrightarrow> row \<in> set rows \<and> row_id row = i"
  by (induction rows) (auto simp: select_by_id_def)

lemma select_by_id_None: "select_by_id i rows = None \<longleftrightarrow> i \<notin> row_id ` set rows"
  by (auto simp: select_by_id_def find_None_iff)

lemma select_by_id_append:
  "select_by_id i (rows @ [row]) =
     (case select_by_id i rows of Some x \<Rightarrow> Some x | None \<Rightarrow> if row_id row = i then Some row else None)"
  by (induction rows) (simp_all add: select_by_id_def)

lemma select_by_id_map:
  "(\<And>row. row_id (f row) = row_id row) \<Longrightarrow>
   select_by_id i (map f rows) = map_option f (select_by_id i rows)"
  by (induction rows) (simp_all add: select_by_id_def)

lemma to_task_columns:
  assumes "to_task P row = Inr t"
  shows "task_id t = row_id row" "version t = row_version row" "created_at t = row_created_at row"
    "updated_at t = row_updated_at row" "status_value (status t) = row_status row"
    "goal t = trim (row_goal row)" "requested_by t = trim (row_requested_by row)" "1 \<le> version t"
  using assms
  by (auto simp: to_task_def and_then_Inr mk_agent_task_eq dest: load_status_Inr)

lemma to_task_given:
  assumes "row_status row = status_value st" "row_history row = JList hv"
    and "traverse (load_transition P) hv = Inr hs"
    and "(case row_checkpoint row of None \<Rightarrow> cp = None
          | Some v \<Rightarrow> v \<noteq> JNull \<and> (\<exists>c. load_checkpoint P v = Inr c \<and> cp = Some c))"
  shows "to_task P row = mk_agent_task
    \<lparr>task_id = row_id row, goal = row_goal row, requested_by = row_requested_by row, status = st,
     version = row_version row, created_at = row_created_at row, updated_at = row_updated_at row,
     history = hs, checkpoint = cp\<rparr>"
  using assms by (auto simp: to_task_def as_list_def split: option.splits)

lemma row_loads_task:
  "row_loads P D row \<longleftrightarrow> (\<exists>t. row_task P row = Some t \<and> to_task P row = Inr t \<and>
     goal t = row_goal row \<and> requested_by t = row_requested_by row \<and>
     accepts_text D (goal t) \<and> accepts_text D (requested_by t))"
  by (auto simp: row_loads_def row_task_def split: sum.splits)

lemma pg_lookup_eq:
  assumes "pg_invar P D r" "pg_table r = Some rows"
  shows "pg_lookup P r i = Some t \<longleftrightarrow> (\<exists>row. row \<in> set rows \<and> row_id row = i \<and> to_task P row = Inr t)"
proof -
  have d: "distinct (map row_id rows)" using assms by (simp add: pg_invar_def)
  show ?thesis
  proof (cases "select_by_id i rows")
    case None
    then show ?thesis
      using assms(2) select_by_id_None [of i rows] by (auto simp: pg_lookup_def)
  next
    case (Some row)
    have in_rows: "row \<in> set rows" "row_id row = i"
      using Some select_by_id_Some [OF d] by simp_all
    have "x = row" if "x \<in> set rows" "row_id x = i" for x
      using that Some select_by_id_Some [OF d, of i x] by simp
    then have "(\<exists>x. x \<in> set rows \<and> row_id x = i \<and> to_task P x = Inr t) \<longleftrightarrow> to_task P row = Inr t"
      using in_rows by blast
    then show ?thesis
      using assms(2) Some by (simp add: pg_lookup_def row_task_def split: sum.split)
  qed
qed

lemma pg_lookup_None:
  assumes "pg_invar P D r" "pg_table r = Some rows"
  shows "pg_lookup P r i = None \<longleftrightarrow> select_by_id i rows = None"
proof (cases "select_by_id i rows")
  case None
  then show ?thesis using assms(2) by (simp add: pg_lookup_def)
next
  case (Some row)
  have d: "distinct (map row_id rows)" and l: "\<forall>x \<in> set rows. row_loads P D x"
    using assms by (simp_all add: pg_invar_def list_all_iff)
  have "row \<in> set rows" using Some select_by_id_Some [OF d] by blast
  then obtain t where "row_task P row = Some t" using l row_loads_task by blast
  then show ?thesis using assms(2) Some by (simp add: pg_lookup_def)
qed


text \<open>The conditional update on a table with unique ids.\<close>

lemma update_statement:
  assumes "distinct (map row_id rows)"
  shows "update_if_version_matches D i v f rows =
    (case select_by_id i rows of
       None \<Rightarrow> Inr (None, rows)
     | Some row \<Rightarrow> if row_version row \<noteq> v then Inr (None, rows)
         else if \<not> row_checks (f row) then Inl (check_violation D)
         else Inr (Some (row_version (f row)), map (\<lambda>x. if row_id x = i then f x else x) rows))"
proof (cases "\<exists>row \<in> set rows. row_id row = i \<and> row_version row = v")
  case False
  let ?hit = "\<lambda>row. row_id row = i \<and> row_version row = v"
  have "List.find ?hit rows = None" "\<not> list_ex (\<lambda>row. ?hit row \<and> \<not> row_checks (f row)) rows"
    using False by (auto simp: find_None_iff list_ex_iff)
  moreover have "map (\<lambda>row. if ?hit row then f row else row) rows = rows"
    using False by (intro map_idI) auto
  ultimately have "update_if_version_matches D i v f rows = Inr (None, rows)"
    by (simp add: update_if_version_matches_def)
  moreover have "row_version row \<noteq> v" if "select_by_id i rows = Some row" for row
    using that select_by_id_Some [OF assms] False by blast
  ultimately show ?thesis by (simp split: option.split)
next
  case True
  then obtain row where row: "row \<in> set rows" "row_id row = i" "row_version row = v" by blast
  have sel: "select_by_id i rows = Some row"
    using select_by_id_Some [OF assms] row by blast
  have only: "x = row" if "x \<in> set rows" "row_id x = i" for x
    using that select_by_id_Some [OF assms, of i x] sel by simp
  let ?hit = "\<lambda>row. row_id row = i \<and> row_version row = v"
  have hit: "?hit x \<longleftrightarrow> row_id x = i" if "x \<in> set rows" for x
    using that only [of x] row by blast
  have "List.find ?hit rows = List.find (\<lambda>x. row_id x = i) rows"
    by (rule find_cong [OF refl hit])
  then have find: "List.find ?hit rows = Some row"
    using sel by (simp only: select_by_id_def)
  have m: "map (\<lambda>x. if ?hit x then f x else x) rows = map (\<lambda>x. if row_id x = i then f x else x) rows"
    using hit by auto
  have l: "list_ex (\<lambda>x. ?hit x \<and> \<not> row_checks (f x)) rows \<longleftrightarrow> \<not> row_checks (f row)"
    unfolding list_ex_iff using only row by blast
  show ?thesis
    using sel row(3) by (simp only: update_if_version_matches_def Let_def find m l) simp
qed


subsection \<open>Writing and reading back\<close>

locale postgres_server =
  fixes P :: pydantic and D :: postgres
  assumes pydantic: "pydantic_ok P"
    and server: "postgres_ok D"
begin

lemma jsonb_equiv: "jsonb D v = Some v' \<Longrightarrow> json_equiv v v'"
  using server by (simp add: postgres_ok_def)

text \<open>The row of a stored task reads back as the task, its checkpoint as the column spells it.\<close>

lemma row_reads_back:
  assumes st: "pg_storable P D t"
    and h: "jsonb D (history_of P t) = Some h"
    and cp: "bind_opt_jsonb D (checkpoint_of t) = Inr cpv"
  shows "to_task P \<lparr>row_id = task_id t, row_goal = goal t, row_requested_by = requested_by t,
      row_status = status_value (status t), row_version = version t, row_created_at = created_at t,
      row_updated_at = updated_at t, row_history = h, row_checkpoint = cpv\<rparr> = Inr (pg_stored P D t)"
proof -
  have obj: "mk_agent_task t = Inr t"
    using st by (simp add: pg_storable_def task_object_def)
  have trimmed: "trim (goal t) = goal t" "trim (requested_by t) = requested_by t"
    using mk_agent_task_trimmed [OF obj] by simp_all
  obtain hv where hv: "h = JList hv" "traverse (load_transition P) hv = Inr (history t)"
    using jsonb_equiv [OF h] load_history_equiv [OF pydantic] by (auto simp: history_of_def)
  have "\<exists>c. (case cpv of None \<Rightarrow> c = None
      | Some v \<Rightarrow> v \<noteq> JNull \<and> (\<exists>x. load_checkpoint P v = Inr x \<and> c = Some x)) \<and>
    pg_stored P D t = t\<lparr>checkpoint := c\<rparr> \<and> (c = None \<longleftrightarrow> checkpoint t = None)"
  proof (cases "checkpoint t")
    case None
    then show ?thesis
      using cp by (simp add: bind_opt_jsonb_def checkpoint_of_def pg_stored_def)
  next
    case (Some c)
    obtain v where v: "jsonb D (dump_checkpoint c) = Some v" "cpv = Some v"
      using cp Some
      by (auto simp: bind_opt_jsonb_def checkpoint_of_def bind_jsonb_def and_then_Inr split: option.splits)
    have eqv: "json_equiv (dump_checkpoint c) v" using v(1) by (rule jsonb_equiv)
    have "checkpoint_object c"
      using st Some by (simp add: pg_storable_def task_object_def)
    then obtain c' where c': "load_checkpoint P v = Inr c'"
      using load_checkpoint_equiv(2) [OF pydantic eqv] by blast
    have "v \<noteq> JNull" using eqv by (auto simp: dump_checkpoint_def)
    then show ?thesis
      by (simp add: pg_stored_def Some v c')
  qed
  then obtain c where c: "case cpv of None \<Rightarrow> c = None
      | Some v \<Rightarrow> v \<noteq> JNull \<and> (\<exists>x. load_checkpoint P v = Inr x \<and> c = Some x)"
      "pg_stored P D t = t\<lparr>checkpoint := c\<rparr>" "c = None \<longleftrightarrow> checkpoint t = None"
    by (elim exE conjE) (rule that)
  let ?row = "\<lparr>row_id = task_id t, row_goal = goal t, row_requested_by = requested_by t,
      row_status = status_value (status t), row_version = version t, row_created_at = created_at t,
      row_updated_at = updated_at t, row_history = h, row_checkpoint = cpv\<rparr>"
  have "to_task P ?row = mk_agent_task (t\<lparr>checkpoint := c\<rparr>)"
    using to_task_given [of ?row "status t" hv P "history t" c] hv c(1)
    by (cases t) simp
  also have "\<dots> = Inr (t\<lparr>checkpoint := c\<rparr>)"
    using obj [unfolded mk_agent_task_eq] trimmed c(3)
    by (intro mk_agent_task_eq [THEN iffD2]) auto
  finally show ?thesis using c(2) by simp
qed

lemma storable_binds:
  assumes "pg_storable P D t"
  obtains h cpv where "jsonb D (history_of P t) = Some h" "bind_opt_jsonb D (checkpoint_of t) = Inr cpv"
    "bind_text D (goal t) = Inr (goal t)" "bind_text D (requested_by t) = Inr (requested_by t)"
    "bind_int4 D (version t) = Inr (version t)" "bind_jsonb D (history_of P t) = Inr h"
    "cpv = None \<longleftrightarrow> checkpoint t = None"
    "1 \<le> version t" "version t < 2 ^ 31" "checkpoint t = None \<or> status t = AWAITING_APPROVAL"
proof -
  obtain h where "jsonb D (history_of P t) = Some h"
    using assms by (auto simp: pg_storable_def)
  moreover obtain cpv where "bind_opt_jsonb D (checkpoint_of t) = Inr cpv" "cpv = None \<longleftrightarrow> checkpoint t = None"
    using assms
    by (cases "checkpoint t")
       (auto simp: pg_storable_def bind_opt_jsonb_def checkpoint_of_def bind_jsonb_def)
  moreover have "1 \<le> version t" "checkpoint t = None \<or> status t = AWAITING_APPROVAL"
    using assms by (auto simp: pg_storable_def task_object_def mk_agent_task_eq)
  ultimately show thesis
    using that assms by (simp add: pg_storable_def bind_text_def bind_int4_def bind_jsonb_def)
qed

lemma stored_sel_pg:
  "task_id (pg_stored P D t) = task_id t" "goal (pg_stored P D t) = goal t"
  "requested_by (pg_stored P D t) = requested_by t" "status (pg_stored P D t) = status t"
  by (simp_all add: pg_stored_def)

lemma invar_rows:
  assumes "pg_invar P D r"
  obtains rows where "pg_table r = Some rows" "acquire D r = Inr rows" "distinct (map row_id rows)"
    "list_all (row_loads P D) rows" "pool r"
  using assms by (auto simp: pg_invar_def acquire_def split: option.splits)

lemma loaded_row:
  assumes "pg_invar P D r" "pg_table r = Some rows" "select_by_id i rows = Some row"
  shows "\<exists>t. pg_lookup P r i = Some t \<and> to_task P row = Inr t \<and> row_id row = i \<and>
    goal t = row_goal row \<and> requested_by t = row_requested_by row"
proof -
  have d: "distinct (map row_id rows)" "list_all (row_loads P D) rows"
    using assms(1,2) by (simp_all add: pg_invar_def)
  have row: "row \<in> set rows" "row_id row = i"
    using assms(3) select_by_id_Some [OF d(1)] by blast+
  then obtain t where "row_task P row = Some t" "to_task P row = Inr t"
      "goal t = row_goal row" "requested_by t = row_requested_by row"
    using d(2) row_loads_task by (auto simp: list_all_iff)
  then show ?thesis
    using assms(2,3) row(2) by (auto simp: pg_lookup_def)
qed

lemma get_law_pg:
  assumes "pg_invar P D r"
  shows "pg_get P D i r =
    (case pg_lookup P r i of None \<Rightarrow> Inl (TaskNotFoundError i) | Some t \<Rightarrow> Inr t)"
proof -
  obtain rows where r: "pg_table r = Some rows" "acquire D r = Inr rows"
    using assms by (rule invar_rows)
  show ?thesis
  proof (cases "select_by_id i rows")
    case None
    then show ?thesis using r by (simp add: pg_get_def pg_lookup_def)
  next
    case (Some row)
    then show ?thesis using loaded_row [OF assms r(1) Some] r(2) by (auto simp: pg_get_def)
  qed
qed

lemma lookup_id_pg: "pg_invar P D r \<Longrightarrow> pg_lookup P r i = Some t \<Longrightarrow> task_id t = i"
  by (metis invar_rows pg_lookup_eq to_task_columns(1))

text \<open>\<open>INSERT\<close>.\<close>

lemma insert_pg:
  assumes inv: "pg_invar P D r" and st: "pg_storable P D t"
  shows "if pg_lookup P r (task_id t) = None
    then \<exists>r'. pg_add P D t r = Inr r' \<and> pg_invar P D r' \<and>
      pg_lookup P r' = (pg_lookup P r)(task_id t \<mapsto> pg_stored P D t)
    else pg_add P D t r =
      Inl (ValueError (''task '' @ quoted (uuid_str (task_id t)) @ '' already exists''))"
proof -
  obtain rows where r: "pg_table r = Some rows" "acquire D r = Inr rows" "distinct (map row_id rows)"
      "list_all (row_loads P D) rows" "pool r"
    using inv by (rule invar_rows)
  obtain h cpv where b: "jsonb D (history_of P t) = Some h" "bind_opt_jsonb D (checkpoint_of t) = Inr cpv"
      "bind_text D (goal t) = Inr (goal t)" "bind_text D (requested_by t) = Inr (requested_by t)"
      "bind_int4 D (version t) = Inr (version t)" "bind_jsonb D (history_of P t) = Inr h"
      "cpv = None \<longleftrightarrow> checkpoint t = None" "1 \<le> version t"
      "checkpoint t = None \<or> status t = AWAITING_APPROVAL"
    using st by (rule storable_binds)
  define row where "row = \<lparr>row_id = task_id t, row_goal = goal t, row_requested_by = requested_by t,
      row_status = status_value (status t), row_version = version t, row_created_at = created_at t,
      row_updated_at = updated_at t, row_history = h, row_checkpoint = cpv\<rparr>"
  have reads: "to_task P row = Inr (pg_stored P D t)"
    unfolding row_def by (rule row_reads_back [OF st b(1,2)])
  have id: "row_id row = task_id t" by (simp add: row_def)
  have checks: "row_checks row"
    using b(7-9) by (auto simp: row_checks_def row_def)
  have "row_loads P D row"
    using st by (simp add: row_loads_def reads stored_sel_pg pg_storable_def) (simp add: row_def)
  have add: "pg_add P D t r = and_then (insert_row D row rows) (\<lambda>res. case res of
        UniqueViolationError \<Rightarrow>
          Inl (ValueError (''task '' @ quoted (uuid_str (task_id t)) @ '' already exists''))
      | Inserted rows' \<Rightarrow> Inr (r\<lparr>pg_table := Some rows'\<rparr>))"
    by (simp only: pg_add_def r(2) b and_then.simps row_def)
  have look: "pg_lookup P r (task_id t) = None \<longleftrightarrow> task_id t \<notin> row_id ` set rows"
    using pg_lookup_None [OF inv r(1)] select_by_id_None by simp
  show ?thesis
  proof (cases "pg_lookup P r (task_id t) = None")
    case False
    then show ?thesis using look checks id by (simp add: add insert_row_def)
  next
    case True
    let ?r = "r\<lparr>pg_table := Some (rows @ [row])\<rparr>"
    have "pg_invar P D ?r"
      using r True look id \<open>row_loads P D row\<close> by (auto simp: pg_invar_def)
    moreover have "pg_lookup P ?r = (pg_lookup P r)(task_id t \<mapsto> pg_stored P D t)"
    proof
      fix i
      show "pg_lookup P ?r i = ((pg_lookup P r)(task_id t \<mapsto> pg_stored P D t)) i"
        using pg_lookup_None [OF inv r(1), of "task_id t"] True id reads
        by (simp add: pg_lookup_def r(1) select_by_id_append row_task_def split: option.split)
    qed
    ultimately show ?thesis
      using True look checks id by (simp add: add insert_row_def)
  qed
qed

text \<open>\<open>UPDATE ... WHERE id AND version\<close>: the three outcomes.\<close>

lemma update_pg:
  assumes inv: "pg_invar P D r" and st: "pg_storable P D t" and v: "version t = v + 1"
  shows "case pg_lookup P r (task_id t) of
      None \<Rightarrow> pg_update P D (\<lambda>rows. rows) t v r = (Inl (TaskNotFoundError (task_id t)), r)
    | Some c \<Rightarrow>
        if version c \<noteq> v
        then pg_update P D (\<lambda>rows. rows) t v r = (Inl (ConcurrentUpdateError (task_id t) v (version c)), r)
        else same_identity c t \<longrightarrow>
          (\<exists>r'. pg_update P D (\<lambda>rows. rows) t v r = (Inr (), r') \<and> pg_invar P D r' \<and>
             pg_lookup P r' = (pg_lookup P r)(task_id t \<mapsto> pg_stored P D t))"
proof -
  obtain rows where r: "pg_table r = Some rows" "acquire D r = Inr rows" "distinct (map row_id rows)"
      "list_all (row_loads P D) rows" "pool r"
    using inv by (rule invar_rows)
  obtain h cpv where b: "jsonb D (history_of P t) = Some h" "bind_opt_jsonb D (checkpoint_of t) = Inr cpv"
      "bind_int4 D (version t) = Inr (version t)" "bind_jsonb D (history_of P t) = Inr h"
      "cpv = None \<longleftrightarrow> checkpoint t = None" "1 \<le> version t" "version t < 2 ^ 31"
      "checkpoint t = None \<or> status t = AWAITING_APPROVAL"
    using st by (rule storable_binds)
  have b4: "bind_int4 D v = Inr v" using b(6,7) v by (simp add: bind_int4_def)
  define f where "f = (\<lambda>row :: pg_row. row\<lparr>row_status := status_value (status t), row_version := version t,
      row_updated_at := updated_at t, row_history := h, row_checkpoint := cpv\<rparr>)"
  have fid: "row_id (f row) = row_id row" for row by (simp add: f_def)
  have checks: "row_checks (f row)" for row
    using b(5,6,8) by (auto simp: row_checks_def f_def)
  have upd: "pg_update P D (\<lambda>rows. rows) t v r =
      (case update_if_version_matches D (task_id t) v f rows of
         Inl e \<Rightarrow> (Inl e, r)
       | Inr (Some updated, rows) \<Rightarrow> (Inr (), r\<lparr>pg_table := Some rows\<rparr>)
       | Inr (None, rows) \<Rightarrow>
           (let rows' = rows; r' = r\<lparr>pg_table := Some rows'\<rparr> in
            case map_option row_version (select_by_id (task_id t) rows') of
              None \<Rightarrow> (Inl (TaskNotFoundError (task_id t)), r')
            | Some actual \<Rightarrow> (Inl (ConcurrentUpdateError (task_id t) v actual), r')))"
    by (simp only: pg_update_def r(2) b b4 and_then.simps f_def)
  have r_same: "r\<lparr>pg_table := Some rows\<rparr> = r" using r(1) by simp
  show ?thesis
  proof (cases "select_by_id (task_id t) rows")
    case None
    then have "pg_lookup P r (task_id t) = None" using pg_lookup_None [OF inv r(1)] by simp
    then show ?thesis
      using None r_same by (simp add: upd update_statement [OF r(3)] r(1) Let_def)
  next
    case (Some row)
    obtain c where c: "pg_lookup P r (task_id t) = Some c" "to_task P row = Inr c" "row_id row = task_id t"
        "goal c = row_goal row" "requested_by c = row_requested_by row"
      using loaded_row [OF inv r(1) Some] by blast
    note cols = to_task_columns [OF c(2)]
    show ?thesis
    proof (cases "version c = v")
      case False
      then show ?thesis
        using Some r_same c(1) cols(2) by (simp add: upd update_statement [OF r(3)] r(1) Let_def)
    next
      case True
      let ?rows = "map (\<lambda>x. if row_id x = task_id t then f x else x) rows"
      let ?r = "r\<lparr>pg_table := Some ?rows\<rparr>"
      have upd': "pg_update P D (\<lambda>rows. rows) t v r = (Inr (), ?r)"
        using Some True cols(2) checks by (simp add: upd update_statement [OF r(3)])
      have "pg_invar P D ?r \<and> pg_lookup P ?r = (pg_lookup P r)(task_id t \<mapsto> pg_stored P D t)"
        if same: "same_identity c t"
      proof -
        have frow: "f row = \<lparr>row_id = task_id t, row_goal = goal t, row_requested_by = requested_by t,
            row_status = status_value (status t), row_version = version t, row_created_at = created_at t,
            row_updated_at = updated_at t, row_history = h, row_checkpoint = cpv\<rparr>"
          using same c(3-5) cols(3) by (cases row) (simp add: f_def same_identity_def)
        have reads: "to_task P (f row) = Inr (pg_stored P D t)"
          unfolding frow by (rule row_reads_back [OF st b(1,2)])
        have "row_loads P D (f row)"
          using st by (simp add: row_loads_def reads stored_sel_pg pg_storable_def) (simp add: frow)
        moreover have only: "x = row" if "x \<in> set rows" "row_id x = task_id t" for x
          using that Some select_by_id_Some [OF r(3), of "task_id t" x] by simp
        ultimately have "\<forall>x \<in> set rows. row_loads P D (if row_id x = task_id t then f x else x)"
          using r(4) by (auto simp: list_all_iff)
        then have "list_all (row_loads P D) ?rows"
          by (simp add: list_all_length)
        moreover have "map row_id ?rows = map row_id rows" by (simp add: fid comp_def)
        ultimately have "pg_invar P D ?r"
          using r(3,5) by (simp add: pg_invar_def del: map_map)
        moreover have "pg_lookup P ?r i = ((pg_lookup P r)(task_id t \<mapsto> pg_stored P D t)) i" for i
        proof (cases "select_by_id i rows")
          case None
          then show ?thesis
            using Some by (auto simp: pg_lookup_def r(1) select_by_id_map fid)
        next
          case here: (Some x)
          then have "row_id x = i" using select_by_id_Some [OF r(3)] by blast
          then show ?thesis
            using here Some reads by (auto simp: pg_lookup_def r(1) select_by_id_map fid row_task_def)
        qed
        ultimately show ?thesis by blast
      qed
      then show ?thesis using c(1) True upd' by auto
    qed
  qed
qed

lemma stored_frame_pg: "\<exists>cp. pg_stored P D t = t\<lparr>checkpoint := cp\<rparr> \<and> (cp = None \<longleftrightarrow> checkpoint t = None)"
  by (auto simp: pg_stored_def split: option.split)

lemma bound_checkpoint:
  "bind_opt_jsonb D (checkpoint_of t) = Inr cpv \<Longrightarrow>
   case checkpoint t of None \<Rightarrow> True | Some cp \<Rightarrow> jsonb D (dump_checkpoint cp) \<noteq> None"
  by (cases "checkpoint t"; cases "jsonb D (dump_checkpoint (the (checkpoint t)))")
     (auto simp: bind_opt_jsonb_def bind_jsonb_def checkpoint_of_def)

lemma update_refused_pg:
  assumes inv: "pg_invar P D r" and st: "\<not> pg_storable P D t"
    and same: "\<forall>c. pg_lookup P r (task_id t) = Some c \<longrightarrow> version c = v \<longrightarrow> same_identity c t"
  shows "\<exists>e. repo_update (pg_port P D) t v r = Inl e"
proof (rule ccontr)
  assume "\<not> ?thesis"
  then obtain r' where run: "task_object t" "pg_update P D (\<lambda>rows. rows) t v r = (Inr (), r')"
    by (auto split: prod.splits sum.splits if_splits)
  obtain rows where r: "pg_table r = Some rows" "acquire D r = Inr rows" "distinct (map row_id rows)"
      "list_all (row_loads P D) rows" "pool r"
    using inv by (rule invar_rows)
  obtain h cpv u rows' where b: "bind_int4 D (version t) = Inr (version t)"
      "bind_jsonb D (history_of P t) = Inr h" "bind_opt_jsonb D (checkpoint_of t) = Inr cpv"
      "bind_int4 D v = Inr v"
      "update_if_version_matches D (task_id t) v
         (\<lambda>row. row\<lparr>row_status := status_value (status t), row_version := version t,
                    row_updated_at := updated_at t, row_history := h, row_checkpoint := cpv\<rparr>)
         rows = Inr (Some u, rows')"
    using run(2)
    by (auto simp: pg_update_def r(2) Let_def bind_int4_def and_then_Inr
             split: sum.splits option.splits if_splits prod.splits)
  obtain row where row: "select_by_id (task_id t) rows = Some row" "row_version row = v"
    using b(5) by (auto simp: update_statement [OF r(3)] split: option.splits if_splits)
  obtain c where c: "pg_lookup P r (task_id t) = Some c" "to_task P row = Inr c"
      "goal c = row_goal row" "requested_by c = row_requested_by row"
    using loaded_row [OF inv r(1) row(1)] by blast
  have "same_identity c t" using same c(1) to_task_columns(2) [OF c(2)] row(2) by auto
  moreover have "row_loads P D row"
    using r(3,4) row(1) select_by_id_Some by (auto simp: list_all_iff)
  ultimately have "accepts_text D (goal t)" "accepts_text D (requested_by t)"
    using c(2) unfolding row_loads_def same_identity_def by auto
  moreover have "version t < 2 ^ 31" using b(1) by (simp add: bind_int4_def split: if_splits)
  moreover have "jsonb D (history_of P t) \<noteq> None" using b(2) by (auto simp: bind_jsonb_def split: option.splits)
  moreover have "case checkpoint t of None \<Rightarrow> True | Some cp \<Rightarrow> jsonb D (dump_checkpoint cp) \<noteq> None"
    using b(3) by (rule bound_checkpoint)
  ultimately show False using st run(1) by (simp add: pg_storable_def)
qed

lemma add_refused_pg:
  assumes "\<not> pg_storable P D t"
  shows "\<exists>e. repo_add (pg_port P D) t r = Inl e"
proof (rule ccontr)
  assume "\<not> ?thesis"
  then obtain r' where run: "task_object t" "pg_add P D t r = Inr r'"
    by (cases "pg_add P D t r") (auto split: if_splits)
  have "accepts_text D (goal t)" "accepts_text D (requested_by t)" "version t < 2 ^ 31"
      "jsonb D (history_of P t) \<noteq> None"
    using run(2)
    by (auto simp: pg_add_def and_then_Inr bind_text_def bind_int4_def bind_jsonb_def
             split: if_splits option.splits)
  moreover have "case checkpoint t of None \<Rightarrow> True | Some cp \<Rightarrow> jsonb D (dump_checkpoint cp) \<noteq> None"
    using run(2) bound_checkpoint by (auto simp: pg_add_def and_then_Inr)
  ultimately show False using assms run(1) by (simp add: pg_storable_def)
qed

text \<open>\<open>SELECT ... ORDER BY created_at DESC, id DESC LIMIT\<close>.\<close>

lemma list_law_pg:
  assumes inv: "pg_invar P D r" and n: "0 \<le> n" "n < 2 ^ 63"
  shows "\<exists>ts. is_listing (pg_lookup P r) st ts \<and> pg_list_tasks P D st n r = Inr (take (nat n) ts)"
proof -
  obtain rows where r: "pg_table r = Some rows" "acquire D r = Inr rows" "distinct (map row_id rows)"
      "list_all (row_loads P D) rows" "pool r"
    using inv by (rule invar_rows)
  let ?key = "\<lambda>row. (row_created_at row, row_id row)"
  define wh where "wh = (\<lambda>row :: pg_row. case st of None \<Rightarrow> True | Some s \<Rightarrow> row_status row = status_value s)"
  define sel where "sel = sorted_desc ?key (filter wh rows)"
  define task where "task = (\<lambda>row. the (row_task P row))"
  have loads: "to_task P row = Inr (task row)" if "row \<in> set rows" for row
    using that r(4) row_loads_task by (fastforce simp: list_all_iff task_def)
  have in_rows: "set sel \<subseteq> set rows" by (auto simp: sel_def)
  have "distinct (map row_id (filter wh rows))" using r(3) by (rule distinct_map_filter)
  then have "distinct (map snd (map ?key (filter wh rows)))" by (simp add: comp_def)
  then have "distinct (map ?key (filter wh rows))" by (simp only: distinct_map)
  then have "sorted_wrt (\<lambda>a b. ?key b < ?key a) sel" unfolding sel_def by (rule strictly_sorted_desc)
  moreover have key: "listing_key (task row) = ?key row" if "row \<in> set rows" for row
    using to_task_columns [OF loads [OF that]] by (simp add: listing_key_def)
  ultimately have "sorted_wrt (\<lambda>a b. listing_key b < listing_key a) (map task sel)"
    unfolding sorted_wrt_map using in_rows
    by (elim sorted_wrt_mono_rel [rotated]) (auto simp: key subset_iff)
  moreover have "set (map task sel) = {t \<in> ran (pg_lookup P r). listing_matches st t}"
  proof -
    have ran: "ran (pg_lookup P r) = task ` set rows"
      using loads pg_lookup_eq [OF inv r(1)] by (force simp: ran_def)
    have "wh row \<longleftrightarrow> listing_matches st (task row)" if "row \<in> set rows" for row
      using to_task_columns(5) [OF loads [OF that]]
      by (auto simp: wh_def listing_matches_def split: option.split)
    then show ?thesis unfolding ran sel_def by auto
  qed
  ultimately have listing: "is_listing (pg_lookup P r) st (map task sel)"
    by (simp add: is_listing_def)
  have "traverse (to_task P) (take (nat n) sel) = Inr (map task (take (nat n) sel))"
    using loads in_rows by (intro traverse_same) (auto dest: in_set_takeD)
  moreover have "(case st of None \<Rightarrow> select_ordered D (\<lambda>_. True) n rows
      | Some s \<Rightarrow> select_ordered D (\<lambda>row. row_status row = status_value s) n rows) = Inr (take (nat n) sel)"
    using n by (cases st) (simp_all add: select_ordered_def sel_def wh_def)
  ultimately have "pg_list_tasks P D st n r = Inr (take (nat n) (map task sel))"
    using n by (simp add: pg_list_tasks_def r(2) bind_int8_def take_map)
  with listing show ?thesis by blast
qed

lemma stored_ok_pg: "task_ok t \<Longrightarrow> task_ok (pg_stored P D t)"
proof -
  assume ok: "task_ok t"
  have "paused_ok cp'"
    if "paused_ok c" "jsonb D (dump_checkpoint c) = Some v" "load_checkpoint P v = Inr cp'" for c v cp'
    using paused_equiv [OF load_checkpoint_equiv(1) [OF pydantic jsonb_equiv [OF that(2)] that(3)] that(1)] .
  with ok show ?thesis
    by (auto simp: task_ok_def pg_stored_def split: option.splits sum.splits)
qed

lemma contract:
  "task_repository (pg_port P D) (pg_lookup P) (pg_invar P D) (pg_storable P D) (pg_stored P D)"
proof (unfold_locales, goal_cases)
  case (1 r i t)
  then show ?case by (rule lookup_id_pg)
next
  case (2 r i)
  then show ?case by (simp add: get_law_pg)
next
  case (3 r t)
  then show ?case using insert_pg [OF 3(1,2)] by (simp add: pg_storable_def)
next
  case (4 r t c)
  then show ?case using insert_pg [OF 4(1,2)] by (simp add: pg_storable_def)
next
  case (5 r t)
  then show ?case by (intro add_refused_pg)
next
  case (6 r t v)
  then show ?case using update_pg [OF 6(1-3)] by (simp add: pg_storable_def)
next
  case (7 r t v c)
  then show ?case using update_pg [OF 7(1-3)] by (simp add: pg_storable_def)
next
  case (8 r t v c)
  then show ?case using update_pg [OF 8(1-3)] by (auto simp: pg_storable_def)
next
  case (9 r t v)
  then show ?case by (rule update_refused_pg)
next
  case (10 r n st)
  then show ?case using list_law_pg by simp
next
  case (11 t)
  then show ?case by (rule stored_frame_pg)
next
  case (12 t)
  then show ?case by (rule stored_ok_pg)
qed

end

sublocale postgres_server \<subseteq> pg: task_repository "pg_port P D" "pg_lookup P" "pg_invar P D"
    "pg_storable P D" "pg_stored P D"
  by (rule contract)

end
