(* ===== verification/MCP_Client.thy ===== *)
theory MCP_Client
  imports MCP_Protocol
begin

section \<open>The MCP client (\<open>mcp/client.py\<close>)\<close>

text \<open>
  The transport is a port over the outside state: \<open>request\<close>, \<open>notify\<close>, \<open>aclose\<close>. A request that the
  client's deadline cuts off is the outcome \<open>TimeoutError\<close>. Everything a server sends is a JSON
  value the client has to check; \<open>list_pages\<close> is the loop of \<open>list_tools\<close> with the number of pages
  it may still fetch.
\<close>

record 'x mcp_transport =
  tr_request :: "string \<Rightarrow> json_object option \<Rightarrow> 'x \<Rightarrow> (exn + json_object) \<times> 'x"
  tr_notify :: "string \<Rightarrow> json_object option \<Rightarrow> 'x \<Rightarrow> (exn + unit) \<times> 'x"
  tr_aclose :: "'x \<Rightarrow> (exn + unit) \<times> 'x"

definition MAX_TOOLS_PER_SERVER :: nat where "MAX_TOOLS_PER_SERVER = 128"

definition MAX_LIST_PAGES :: nat where "MAX_LIST_PAGES = 20"

definition MAX_RESULT_CHARS :: nat where "MAX_RESULT_CHARS = 16000"

definition CLIENT_VERSION :: string where "CLIENT_VERSION = ''0.1.0''"

record 'x mcp_client =
  cl_transport :: "'x mcp_transport"
  cl_name :: string
  cl_timeout_ms :: int
  cl_server_info :: "mcp_server_info option"

definition mk_mcp_client :: "'x mcp_transport \<Rightarrow> string \<Rightarrow> int \<Rightarrow> exn + 'x mcp_client" where
  "mk_mcp_client transport name timeout_ms =
     (if timeout_ms \<le> 0 then Inl (ValueError ''request_timeout_seconds must be positive'')
      else Inr \<lparr>cl_transport = transport, cl_name = name, cl_timeout_ms = timeout_ms,
                cl_server_info = None\<rparr>)"

abbreviation protocol_error :: "string \<Rightarrow> exn" where
  "protocol_error m \<equiv> MCP (MCPProtocolError m)"

abbreviation server_called :: "'x mcp_client \<Rightarrow> string" where
  "server_called C \<equiv> ''MCP server '' @ quoted (cl_name C)"

text \<open>\<open>_request\<close>.\<close>

definition mcp_request ::
  "'x mcp_client \<Rightarrow> string \<Rightarrow> json_object option \<Rightarrow> 'x \<Rightarrow> (exn + json_object) \<times> 'x" where
  "mcp_request C method params x =
     (case tr_request (cl_transport C) method params x of
        (Inl TimeoutError, x') \<Rightarrow>
          (Inl (MCP (MCPTransportError (server_called C @ '' did not answer '' @ quoted method @
             '' within '' @ py_seconds (cl_timeout_ms C) @ ''s''))), x')
      | (out, x') \<Rightarrow> (out, x'))"


subsection \<open>Handshake\<close>

definition initialize_params :: json_object where
  "initialize_params = [(''protocolVersion'', JStr PROTOCOL_VERSION), (''capabilities'', JObj []),
     (''clientInfo'', JObj [(''name'', JStr CLIENT_NAME), (''version'', JStr CLIENT_VERSION)])]"

definition field_text :: "json_object \<Rightarrow> string \<Rightarrow> string \<Rightarrow> string" where
  "field_text d k dflt = (case dict_get d k of None \<Rightarrow> dflt | Some v \<Rightarrow> py_str v)"

definition initialize ::
  "'x mcp_client \<Rightarrow> 'x \<Rightarrow> (exn + mcp_server_info) \<times> 'x mcp_client \<times> 'x" where
  "initialize C x =
     (case mcp_request C ''initialize'' (Some initialize_params) x of
        (Inl e, x1) \<Rightarrow> (Inl e, C, x1)
      | (Inr result, x1) \<Rightarrow>
          (case get_or_null result ''protocolVersion'' of
             JStr negotiated \<Rightarrow>
               if negotiated \<notin> set SUPPORTED_PROTOCOL_VERSIONS
               then (Inl (protocol_error (server_called C @
                      '' negotiated unsupported protocol version '' @ py_repr (JStr negotiated))), C, x1)
               else if dict_get (as_dict (get_or_null result ''capabilities'')) ''tools'' = None
               then (Inl (protocol_error (server_called C @ '' does not offer tools'')), C, x1)
               else
                 (case tr_notify (cl_transport C) ''notifications/initialized'' None x1 of
                    (Inl e, x2) \<Rightarrow> (Inl e, C, x2)
                  | (Inr _, x2) \<Rightarrow>
                      let info = as_dict (get_or_null result ''serverInfo'');
                          server = \<lparr>info_name = field_text info ''name'' (cl_name C),
                                    info_version = field_text info ''version'' ''unknown'',
                                    info_protocol_version = negotiated\<rparr>
                      in (Inr server, C\<lparr>cl_server_info := Some server\<rparr>, x2))
           | other \<Rightarrow>
               (Inl (protocol_error (server_called C @
                  '' negotiated unsupported protocol version '' @ py_repr other)), C, x1)))"


subsection \<open>Discovery\<close>

definition parse_declaration :: "'x mcp_client \<Rightarrow> json \<Rightarrow> exn + mcp_tool_declaration" where
  "parse_declaration C raw =
     (case raw of
        JObj d \<Rightarrow>
          (case load_declaration d of
             Inl e \<Rightarrow> Inl (protocol_error (server_called C @ '' published a malformed tool: '' @ exn_str e))
           | Inr t \<Rightarrow> Inr t)
      | _ \<Rightarrow> Inl (protocol_error (server_called C @ '' published a malformed tool'')))"

fun list_pages ::
  "'x mcp_client \<Rightarrow> nat \<Rightarrow> string option \<Rightarrow> mcp_tool_declaration list \<Rightarrow> 'x
   \<Rightarrow> (exn + mcp_tool_declaration list) \<times> 'x" where
  "list_pages C 0 cursor declarations x =
     (Inl (protocol_error (server_called C @ '' paginated tools/list without end'')), x)"
| "list_pages C (Suc pages) cursor declarations x =
     (case mcp_request C ''tools/list'' (map_option (\<lambda>c. [(''cursor'', JStr c)]) cursor) x of
        (Inl e, x1) \<Rightarrow> (Inl e, x1)
      | (Inr result, x1) \<Rightarrow>
          (case get_or_null result ''tools'' of
             JList raw_tools \<Rightarrow>
               (case traverse (parse_declaration C) raw_tools of
                  Inl e \<Rightarrow> (Inl e, x1)
                | Inr new \<Rightarrow>
                    let declarations' = declarations @ new in
                    if MAX_TOOLS_PER_SERVER < length declarations'
                    then (Inl (protocol_error (server_called C @ '' published more than '' @
                           nat_str MAX_TOOLS_PER_SERVER @ '' tools'')), x1)
                    else
                      (case get_or_null result ''nextCursor'' of
                         JStr next_cursor \<Rightarrow>
                           if next_cursor = [] then (Inr declarations', x1)
                           else list_pages C pages (Some next_cursor) declarations' x1
                       | _ \<Rightarrow> (Inr declarations', x1)))
           | _ \<Rightarrow> (Inl (protocol_error (server_called C @ '' returned no tool list'')), x1)))"

definition list_tools :: "'x mcp_client \<Rightarrow> 'x \<Rightarrow> (exn + mcp_tool_declaration list) \<times> 'x" where
  "list_tools C x = list_pages C MAX_LIST_PAGES None [] x"


subsection \<open>Invocation\<close>

definition render_block :: "json \<Rightarrow> string list" where
  "render_block block =
     (case block of
        JObj d \<Rightarrow>
          (let block_type = get_or_null d ''type'' in
           if block_type = JStr ''text''
           then (case get_or_null d ''text'' of JStr t \<Rightarrow> [t] | _ \<Rightarrow> [])
           else [''['' @ (if truthy block_type then py_str block_type else ''unknown'') @
                 '' content omitted]''])
      | _ \<Rightarrow> [])"

definition render_content :: "json \<Rightarrow> string" where
  "render_content content =
     (case content of
        JList blocks \<Rightarrow>
          (let rendered = py_join [CHR 0x0A] (concat (map render_block blocks)) in
           if length rendered \<le> MAX_RESULT_CHARS then rendered
           else take (MAX_RESULT_CHARS - length TRUNCATION_NOTE) rendered @ TRUNCATION_NOTE)
      | _ \<Rightarrow> [])"

definition mcp_call_tool ::
  "'x mcp_client \<Rightarrow> string \<Rightarrow> json_object \<Rightarrow> 'x \<Rightarrow> (exn + mcp_call_outcome) \<times> 'x" where
  "mcp_call_tool C name arguments x =
     (case mcp_request C ''tools/call'' (Some [(''name'', JStr name), (''arguments'', JObj arguments)]) x of
        (Inl e, x1) \<Rightarrow> (Inl e, x1)
      | (Inr result, x1) \<Rightarrow>
          (Inr \<lparr>outcome_content = render_content (get_or_null result ''content''),
                outcome_is_error = (dict_get result ''isError'' = Some (JBool True))\<rparr>, x1))"

definition mcp_aclose :: "'x mcp_client \<Rightarrow> 'x \<Rightarrow> (exn + unit) \<times> 'x" where
  "mcp_aclose C x = tr_aclose (cl_transport C) x"


subsection \<open>What the client guarantees about any server\<close>

lemma render_content_bounded: "length (render_content v) \<le> MAX_RESULT_CHARS"
  by (cases v) (auto simp: render_content_def MAX_RESULT_CHARS_def Let_def)

lemma call_tool_bounded:
  "mcp_call_tool C n args x = (Inr out, x') \<Longrightarrow> length (outcome_content out) \<le> MAX_RESULT_CHARS"
  by (auto simp: mcp_call_tool_def render_content_bounded split: prod.splits sum.splits)

text \<open>A handshake that succeeds agreed on a revision the client speaks.\<close>

lemma initialize_negotiates:
  assumes "initialize C x = (Inr info, C', x')"
  shows "info_protocol_version info \<in> set SUPPORTED_PROTOCOL_VERSIONS \<and>
    C' = C\<lparr>cl_server_info := Some info\<rparr>"
  using assms
  by (auto simp: initialize_def Let_def split: prod.splits sum.splits json.splits if_splits)

text \<open>Counting the requests a client makes: its transport, with a counter beside the state.\<close>

definition counted :: "'x mcp_transport \<Rightarrow> ('x \<times> nat) mcp_transport" where
  "counted T = \<lparr>
     tr_request = (\<lambda>m p (x, n). case tr_request T m p x of (out, x') \<Rightarrow> (out, x', Suc n)),
     tr_notify = (\<lambda>m p (x, n). case tr_notify T m p x of (out, x') \<Rightarrow> (out, x', n)),
     tr_aclose = (\<lambda>(x, n). case tr_aclose T x of (out, x') \<Rightarrow> (out, x', n))\<rparr>"

definition counting :: "'x mcp_client \<Rightarrow> ('x \<times> nat) mcp_client" where
  "counting C = \<lparr>cl_transport = counted (cl_transport C), cl_name = cl_name C,
     cl_timeout_ms = cl_timeout_ms C, cl_server_info = cl_server_info C\<rparr>"

lemma counting_sel [simp]:
  "cl_name (counting C) = cl_name C" "cl_timeout_ms (counting C) = cl_timeout_ms C"
  by (simp_all add: counting_def)

lemma mcp_request_counting:
  "mcp_request (counting C) m p (x, n) = (case mcp_request C m p x of (out, x') \<Rightarrow> (out, x', Suc n))"
  by (simp add: mcp_request_def counting_def counted_def split: prod.split sum.split exn.split)

lemma parse_declaration_counting [simp]: "parse_declaration (counting C) = parse_declaration C"
  unfolding parse_declaration_def [abs_def] counting_sel by (rule refl)

text \<open>Counting does not change the discovery, and every page costs one request.\<close>

lemma list_pages_counting:
  "\<exists>k \<le> pages. list_pages (counting C) pages cursor ds (x, n) =
     (fst (list_pages C pages cursor ds x), snd (list_pages C pages cursor ds x), n + k)"
proof (induction pages arbitrary: cursor ds x n)
  case 0
  then show ?case by simp
next
  case (Suc pages)
  obtain out x1 where req: "mcp_request C ''tools/list'' (map_option (\<lambda>c. [(''cursor'', JStr c)]) cursor) x = (out, x1)"
    by (metis surj_pair)
  have stop: "\<exists>k \<le> Suc pages. (y, x1, Suc n) = (y, x1, n + k)" for y :: "exn + mcp_tool_declaration list"
    by (intro exI [of _ 1]) simp
  have more: "\<exists>k \<le> Suc pages. list_pages (counting C) pages c ds' (x1, Suc n) =
      (fst (list_pages C pages c ds' x1), snd (list_pages C pages c ds' x1), n + k)" for c ds'
  proof -
    obtain k where "k \<le> pages" "list_pages (counting C) pages c ds' (x1, Suc n) =
        (fst (list_pages C pages c ds' x1), snd (list_pages C pages c ds' x1), Suc n + k)"
      using Suc.IH by blast
    then show ?thesis by (intro exI [of _ "Suc k"]) simp
  qed
  show ?case
    using stop more
    by (simp add: mcp_request_counting req Let_def split: sum.split json.split)
qed

lemma list_pages_bound:
  "list_pages C pages cursor ds x = (Inr ts, x') \<Longrightarrow> length ts \<le> MAX_TOOLS_PER_SERVER"
proof (induction pages arbitrary: cursor ds x)
  case (Suc pages)
  then show ?case
    by (auto simp: Let_def split: prod.splits sum.splits json.splits if_splits)
qed simp

text \<open>Every declaration a client accepts has a name of 1 to 128 characters.\<close>

lemma parse_declaration_name:
  "parse_declaration C raw = Inr t \<Longrightarrow> decl_name t \<noteq> [] \<and> length (decl_name t) \<le> 128"
  by (auto simp: parse_declaration_def split: json.splits sum.splits dest: load_declaration_bounds)

lemma list_pages_names:
  "list_pages C pages cursor ds x = (Inr ts, x') \<Longrightarrow>
   list_all (\<lambda>t. decl_name t \<noteq> [] \<and> length (decl_name t) \<le> 128) ds \<Longrightarrow>
   list_all (\<lambda>t. decl_name t \<noteq> [] \<and> length (decl_name t) \<le> 128) ts"
proof (induction pages arbitrary: cursor ds x)
  case (Suc pages)
  have "list_all (\<lambda>t. decl_name t \<noteq> [] \<and> length (decl_name t) \<le> 128) new"
    if "traverse (parse_declaration C) raw = Inr new" for raw new
    using that unfolding traverse_Inr
    by (induction rule: list_all2_induct) (auto dest: parse_declaration_name)
  then show ?case
    using Suc by (fastforce simp: Let_def split: prod.splits sum.splits json.splits if_splits)
qed simp

text \<open>A server that pages without end is cut off after the last page allowed.\<close>

lemma endless_pages_refused:
  assumes "\<And>p y. \<exists>result c y'. mcp_request C ''tools/list'' p y = (Inr result, y') \<and>
      dict_get result ''tools'' = Some (JList []) \<and> dict_get result ''nextCursor'' = Some (JStr c) \<and> c \<noteq> []"
    and "length ds \<le> MAX_TOOLS_PER_SERVER"
  shows "\<exists>x'. list_pages C pages cursor ds x =
    (Inl (protocol_error (server_called C @ '' paginated tools/list without end'')), x')"
  using assms(2)
proof (induction pages arbitrary: cursor ds x)
  case 0
  then show ?case by simp
next
  case (Suc pages)
  obtain result c x1 where "mcp_request C ''tools/list'' (map_option (\<lambda>c. [(''cursor'', JStr c)]) cursor) x = (Inr result, x1)"
      "dict_get result ''tools'' = Some (JList [])" "dict_get result ''nextCursor'' = Some (JStr c)" "c \<noteq> []"
    using assms(1) by blast
  then show ?case using Suc by (simp add: get_or_null_def)
qed

end
