(* ===== verification/MCP_Tools.thy ===== *)
theory MCP_Tools
  imports MCP_Client
begin

section \<open>MCP tools as platform tools (\<open>mcp/tools.py\<close>)\<close>

text \<open>
  A discovered declaration becomes a \<open>tool\<close>: the risk from the configuration, the description
  bounded, and a validator derived from the top level of the input schema. The derived Pydantic
  model is the record \<open>arguments_spec\<close>; \<open>validate_arguments\<close> is its \<open>model_validate\<close> followed by
  \<open>model_dump(exclude_unset=True)\<close>, which is what reaches the server. Coercion of scalars and the
  names a field cannot have are Pydantic's (\<open>pydantic\<close>).
\<close>


subsection \<open>The derived argument model\<close>

datatype annotation = AnyT | StrT | IntT | FloatT | BoolT | ListT | DictT

definition JSON_TYPES :: "(string, annotation) dict" where
  "JSON_TYPES = [(''string'', StrT), (''integer'', IntT), (''number'', FloatT), (''boolean'', BoolT),
     (''array'', ListT), (''object'', DictT)]"

definition annotation_of :: "json \<Rightarrow> annotation" where
  "annotation_of subschema =
     (case subschema of
        JObj d \<Rightarrow>
          (case get_or_null d ''type'' of
             JStr declared \<Rightarrow> (case dict_get JSON_TYPES declared of None \<Rightarrow> AnyT | Some a \<Rightarrow> a)
           | _ \<Rightarrow> AnyT)
      | _ \<Rightarrow> AnyT)"

text \<open>\<open>str.isidentifier\<close> on the model's characters: letters, digits and the underscore.\<close>

definition is_letter :: "char \<Rightarrow> bool" where
  "is_letter c \<longleftrightarrow> is_lower c \<or> is_upper c \<or>
     (let n = of_char c in n \<in> {131, 136, 138, 140, 142, 154, 156, 158, 159, 170, 181, 186} \<or>
        (192 \<le> n \<and> n \<noteq> (215::nat) \<and> n \<noteq> 247))"

definition is_identifier :: "string \<Rightarrow> bool" where
  "is_identifier s \<longleftrightarrow>
     (case s of [] \<Rightarrow> False
      | c # cs \<Rightarrow> (is_letter c \<or> c = CHR ''_'') \<and>
          list_all (\<lambda>c. is_letter c \<or> is_digit c \<or> c = CHR ''_'' \<or> c = CHR 0xB7) cs)"

text \<open>\<open>not prop.isidentifier() or prop.startswith("_")\<close>, negated.\<close>

definition usable_name :: "string \<Rightarrow> bool" where
  "usable_name s \<longleftrightarrow> is_identifier s \<and> hd s \<noteq> CHR ''_''"

text \<open>\<open>set(schema.get("required") or ())\<close>: a non-iterable or unhashable value raises.\<close>

definition hashable :: "json \<Rightarrow> bool" where
  "hashable v \<longleftrightarrow> (case v of JList _ \<Rightarrow> False | JObj _ \<Rightarrow> False | _ \<Rightarrow> True)"

definition required_names :: "json_object \<Rightarrow> exn + string list" where
  "required_names schema =
     (let v = get_or_null schema ''required'' in
      if \<not> truthy v then Inr []
      else (case v of
              JList vs \<Rightarrow>
                if list_all hashable vs
                then Inr (concat (map (\<lambda>x. case x of JStr s \<Rightarrow> [s] | _ \<Rightarrow> []) vs))
                else Inl (OtherError ''TypeError'' ''unhashable type'')
            | JStr s \<Rightarrow> Inr (map (\<lambda>c. [c]) s)
            | JObj d \<Rightarrow> Inr (map fst d)
            | _ \<Rightarrow> Inl (OtherError ''TypeError'' ''object is not iterable'')))"

record field_spec =
  field_annotation :: annotation
  field_required :: bool

record arguments_spec =
  arguments_name :: string
  arguments_fields :: "(string, field_spec) dict"
  arguments_closed :: bool

definition properties_of :: "json_object \<Rightarrow> json_object" where
  "properties_of schema = as_dict (get_or_null schema ''properties'')"

definition all_names_usable :: "json_object \<Rightarrow> bool" where
  "all_names_usable schema \<longleftrightarrow> list_all (\<lambda>(k, _). usable_name k) (properties_of schema)"

text \<open>\<open>_model_name\<close>: each part between underscores in title case.\<close>

fun title_from :: "bool \<Rightarrow> string \<Rightarrow> string" where
  "title_from after_letter [] = []"
| "title_from after_letter (c # cs) =
     (let n = of_char c :: nat in
      (if is_lower c \<and> \<not> after_letter then char_of (n - 32)
       else if is_upper c \<and> after_letter then char_of (n + 32) else c)
      # title_from (is_lower c \<or> is_upper c) cs)"

fun split_on :: "char \<Rightarrow> string \<Rightarrow> string list" where
  "split_on sep [] = [[]]"
| "split_on sep (c # cs) =
     (if c = sep then [] # split_on sep cs
      else (case split_on sep cs of [] \<Rightarrow> [[c]] | p # ps \<Rightarrow> (c # p) # ps))"

definition model_name :: "string \<Rightarrow> string" where
  "model_name name =
     concat (map (title_from False)
       (split_on (CHR ''_'') (map (\<lambda>c. if c = CHR ''-'' then CHR ''_'' else c) name)))"

definition arguments_model :: "pydantic \<Rightarrow> string \<Rightarrow> json_object \<Rightarrow> exn + arguments_spec" where
  "arguments_model P name schema =
     and_then (required_names schema) (\<lambda>required.
       let properties = filter (\<lambda>(k, _). usable_name k) (properties_of schema);
           fields = map (\<lambda>(k, sub). (k, \<lparr>field_annotation = annotation_of sub,
                                          field_required = (k \<in> set required)\<rparr>)) properties;
           closed = (get_or_null schema ''additionalProperties'' = JBool False \<and> all_names_usable schema)
       in (case List.find (\<lambda>(k, _). refuses_field P k) fields of
             Some (k, _) \<Rightarrow> Inl (OtherError ''NameError'' (''Field '' @ quoted k @ '' conflicts with member''))
           | None \<Rightarrow> Inr \<lparr>arguments_name = model_name name @ ''Arguments'',
                          arguments_fields = fields, arguments_closed = closed\<rparr>))"


subsection \<open>Validation\<close>

definition coerce :: "pydantic \<Rightarrow> annotation \<Rightarrow> json \<Rightarrow> json option" where
  "coerce P a v =
     (case a of
        AnyT \<Rightarrow> Some v
      | StrT \<Rightarrow> (case v of JStr _ \<Rightarrow> Some v | _ \<Rightarrow> None)
      | IntT \<Rightarrow> map_option JInt (lax_int P v)
      | FloatT \<Rightarrow> map_option JFloat (lax_float P v)
      | BoolT \<Rightarrow> map_option JBool (lax_bool P v)
      | ListT \<Rightarrow> (case v of JList _ \<Rightarrow> Some v | _ \<Rightarrow> None)
      | DictT \<Rightarrow> (case v of JObj _ \<Rightarrow> Some v | _ \<Rightarrow> None))"

text \<open>A required field is of the annotated type, another one of that type or \<open>None\<close>.\<close>

definition validate_field :: "pydantic \<Rightarrow> field_spec \<Rightarrow> json \<Rightarrow> json option" where
  "validate_field P f v =
     (if v = JNull \<and> \<not> field_required f then Some JNull else coerce P (field_annotation f) v)"

fun validate_fields ::
  "pydantic \<Rightarrow> (string, field_spec) dict \<Rightarrow> json_object \<Rightarrow> string + json_object" where
  "validate_fields P [] args = Inr []"
| "validate_fields P ((k, f) # fs) args =
     (case dict_get args k of
        None \<Rightarrow> if field_required f then Inl (k @ '': Field required'') else validate_fields P fs args
      | Some v \<Rightarrow>
          (case validate_field P f v of
             None \<Rightarrow> Inl (k @ '': Input should be a valid value'')
           | Some v' \<Rightarrow> and_then (validate_fields P fs args) (\<lambda>out. Inr ((k, v') # out))))"

definition extra_arguments :: "arguments_spec \<Rightarrow> json_object \<Rightarrow> json_object" where
  "extra_arguments M args = filter (\<lambda>(k, _). k \<notin> fst ` set (arguments_fields M)) args"

definition validate_arguments :: "pydantic \<Rightarrow> arguments_spec \<Rightarrow> json_object \<Rightarrow> string + json_object" where
  "validate_arguments P M args =
     and_then (validate_fields P (arguments_fields M) args) (\<lambda>out.
       if extra_arguments M args = [] then Inr out
       else if arguments_closed M then Inl (fst (hd (extra_arguments M args)) @ '': Extra inputs are not permitted'')
       else Inr (out @ extra_arguments M args))"


subsection \<open>Building and registering a tool\<close>

definition MAX_DESCRIPTION_CHARS :: nat where "MAX_DESCRIPTION_CHARS = 1024"

definition describe :: "mcp_server_config \<Rightarrow> mcp_tool_declaration \<Rightarrow> string" where
  "describe config declaration =
     (let stripped = py_strip (decl_description declaration);
          description = (if stripped = []
            then ''Tool '' @ quoted (decl_name declaration) @ '' published by MCP server '' @
                 quoted (mcp_name config) @ ''.''
            else stripped)
      in if MAX_DESCRIPTION_CHARS < length description
         then py_rstrip (take MAX_DESCRIPTION_CHARS description) @ [CHR 0x85]
         else description)"

definition mcp_handler ::
  "'x mcp_client \<Rightarrow> string \<Rightarrow> json_object \<Rightarrow> 'x \<Rightarrow> (exn + string) \<times> 'x" where
  "mcp_handler client remote_name args x =
     (case mcp_call_tool client remote_name args x of
        (Inl e, x1) \<Rightarrow> (Inl e, x1)
      | (Inr out, x1) \<Rightarrow>
          if outcome_is_error out
          then (Inl (ToolExecutionError
                  (if outcome_content out = []
                   then ''MCP tool '' @ quoted remote_name @ '' reported a failure.''
                   else outcome_content out)), x1)
          else (Inr (outcome_content out), x1))"

text \<open>\<open>Tool\<close> asks the argument model for its JSON schema only where there is no input schema.\<close>

definition build_tool ::
  "pydantic \<Rightarrow> mcp_server_config \<Rightarrow> 'x mcp_client \<Rightarrow> mcp_tool_declaration \<Rightarrow> exn + 'x tool" where
  "build_tool P config client declaration =
     (let name = local_name config (decl_name declaration) in
      and_then (arguments_model P name (decl_input_schema declaration)) (\<lambda>arguments.
        mk_tool \<lparr>tool_name = name, tool_description = describe config declaration,
          tool_validate = validate_arguments P arguments, tool_schema = [],
          tool_risk = risk_for config (decl_name declaration),
          tool_handler = mcp_handler client (decl_name declaration),
          tool_input_schema = Some (if decl_input_schema declaration = []
            then [(''type'', JStr ''object''), (''properties'', JObj [])]
            else decl_input_schema declaration)\<rparr>))"

text \<open>The names registered and the registry, which keeps what was registered before an error.\<close>

fun register_mcp_tools ::
  "pydantic \<Rightarrow> 'x registry \<Rightarrow> 'x mcp_client \<Rightarrow> mcp_server_config \<Rightarrow> mcp_tool_declaration list
   \<Rightarrow> (exn + string list) \<times> 'x registry" where
  "register_mcp_tools P reg client config [] = (Inr [], reg)"
| "register_mcp_tools P reg client config (declaration # declarations) =
     (if \<not> is_registrable config (decl_name declaration)
      then register_mcp_tools P reg client config declarations
      else (case build_tool P config client declaration of
              Inl e \<Rightarrow> (Inl e, reg)
            | Inr tool \<Rightarrow>
                (case register tool reg of
                   Inl e \<Rightarrow> (Inl e, reg)
                 | Inr reg1 \<Rightarrow>
                     (case register_mcp_tools P reg1 client config declarations of
                        (Inl e, reg2) \<Rightarrow> (Inl e, reg2)
                      | (Inr registered, reg2) \<Rightarrow> (Inr (tool_name tool # registered), reg2)))))"


subsection \<open>The derived model is a coarsening of the schema\<close>

text \<open>
  A reference reading of the part of JSON Schema that the model looks at: the required members are
  there, a member with a declared type has that type, and a closed object has no members but the
  declared ones and those its patterns name.
\<close>

definition has_json_type :: "string \<Rightarrow> json \<Rightarrow> bool" where
  "has_json_type declared v \<longleftrightarrow>
     (if declared = ''string'' then (case v of JStr _ \<Rightarrow> True | _ \<Rightarrow> False)
      else if declared = ''integer'' then (case v of JInt _ \<Rightarrow> True | JFloat s \<Rightarrow> integral_float s | _ \<Rightarrow> False)
      else if declared = ''number'' then (case v of JInt _ \<Rightarrow> True | JFloat _ \<Rightarrow> True | _ \<Rightarrow> False)
      else if declared = ''boolean'' then (case v of JBool _ \<Rightarrow> True | _ \<Rightarrow> False)
      else if declared = ''array'' then (case v of JList _ \<Rightarrow> True | _ \<Rightarrow> False)
      else if declared = ''object'' then (case v of JObj _ \<Rightarrow> True | _ \<Rightarrow> False)
      else if declared = ''null'' then v = JNull
      else True)"

definition subschema_admits :: "json \<Rightarrow> json \<Rightarrow> bool" where
  "subschema_admits sub v \<longleftrightarrow>
     (case sub of JObj d \<Rightarrow>
        (case get_or_null d ''type'' of JStr declared \<Rightarrow> has_json_type declared v | _ \<Rightarrow> True)
      | _ \<Rightarrow> True)"

definition schema_admits :: "json_object \<Rightarrow> json_object \<Rightarrow> bool" where
  "schema_admits schema args \<longleftrightarrow>
     (case required_names schema of Inl _ \<Rightarrow> False
      | Inr required \<Rightarrow> list_all (\<lambda>k. dict_get args k \<noteq> None) required) \<and>
     list_all (\<lambda>(k, sub). case dict_get args k of None \<Rightarrow> True | Some v \<Rightarrow> subschema_admits sub v)
       (properties_of schema) \<and>
     (get_or_null schema ''additionalProperties'' = JBool False \<longrightarrow>
        dict_get schema ''patternProperties'' = None \<longrightarrow>
        list_all (\<lambda>(k, _). dict_get (properties_of schema) k \<noteq> None) args)"

text \<open>The value a server receives for one it was given: the same, but numbers may change their type.\<close>

definition same_argument :: "pydantic \<Rightarrow> json \<Rightarrow> json \<Rightarrow> bool" where
  "same_argument P v v' \<longleftrightarrow>
     v' = v \<or>
     (\<exists>i s. v = JInt i \<and> lax_float P v = Some s \<and> v' = JFloat s) \<or>
     (\<exists>s i. v = JFloat s \<and> integral_float s \<and> lax_int P v = Some i \<and> v' = JInt i)"

lemma coerce_admitted:
  assumes "pydantic_ok P" and "subschema_admits sub v"
  shows "\<exists>v'. coerce P (annotation_of sub) v = Some v' \<and> same_argument P v v'"
proof (cases sub)
  case (JObj d)
  show ?thesis
  proof (cases "get_or_null d ''type''")
    case (JStr declared)
    then have ann: "annotation_of sub =
        (case dict_get JSON_TYPES declared of None \<Rightarrow> AnyT | Some a \<Rightarrow> a)"
      by (simp add: annotation_of_def JObj)
    have typed: "has_json_type declared v"
      using assms(2) JStr by (simp add: subschema_admits_def JObj)
    show ?thesis
    proof (cases "dict_get JSON_TYPES declared")
      case None
      then show ?thesis by (simp add: ann coerce_def same_argument_def)
    next
      case (Some a)
      then show ?thesis
        using typed pydantic_keeps [OF assms(1)]
        by (fastforce simp: ann coerce_def has_json_type_def JSON_TYPES_def same_argument_def split: if_splits json.splits)
    qed
  qed (simp_all add: annotation_of_def JObj coerce_def same_argument_def)
qed (simp_all add: annotation_of_def coerce_def same_argument_def)

lemma dict_get_filter_key: "P k \<Longrightarrow> dict_get (filter (\<lambda>(k, _). P k) d) k = dict_get d k"
  by (induction d) auto

lemma validate_fields_total:
  assumes "\<And>k f. (k, f) \<in> set fs \<Longrightarrow>
      (case dict_get args k of None \<Rightarrow> \<not> field_required f
       | Some v \<Rightarrow> \<exists>v'. coerce P (field_annotation f) v = Some v' \<and> same_argument P v v')"
  shows "\<exists>out. validate_fields P fs args = Inr out \<and>
    map fst out = filter (\<lambda>k. dict_get args k \<noteq> None) (map fst fs) \<and>
    (\<forall>k v. k \<in> fst ` set fs \<longrightarrow> dict_get args k = Some v \<longrightarrow>
       (\<exists>v'. dict_get out k = Some v' \<and> same_argument P v v'))"
  using assms
proof (induction fs)
  case Nil
  then show ?case by simp
next
  case (Cons kf fs)
  obtain k f where kf: "kf = (k, f)" by (cases kf)
  obtain out where out: "validate_fields P fs args = Inr out"
      "map fst out = filter (\<lambda>k. dict_get args k \<noteq> None) (map fst fs)"
      "\<forall>k v. k \<in> fst ` set fs \<longrightarrow> dict_get args k = Some v \<longrightarrow>
         (\<exists>v'. dict_get out k = Some v' \<and> same_argument P v v')"
    using Cons by auto
  show ?case
  proof (cases "dict_get args k")
    case None
    then show ?thesis using Cons.prems [of k f] out kf by auto
  next
    case (Some v)
    then obtain v' where "coerce P (field_annotation f) v = Some v'" "same_argument P v v'"
      using Cons.prems [of k f] kf by auto
    then obtain v' where "validate_field P f v = Some v'" "same_argument P v v'"
      by (cases "v = JNull \<and> \<not> field_required f") (auto simp: validate_field_def same_argument_def)
    then show ?thesis using Some out kf by auto
  qed
qed

lemma arguments_model_eq:
  assumes "arguments_model P name schema = Inr M"
  obtains required where "required_names schema = Inr required"
    "arguments_fields M = map (\<lambda>(k, sub). (k, \<lparr>field_annotation = annotation_of sub,
        field_required = (k \<in> set required)\<rparr>)) (filter (\<lambda>(k, _). usable_name k) (properties_of schema))"
    "arguments_closed M \<longleftrightarrow>
       get_or_null schema ''additionalProperties'' = JBool False \<and> all_names_usable schema"
  using assms by (auto simp: arguments_model_def and_then_Inr Let_def split: option.splits)

text \<open>What the schema admits the model accepts, and every argument reaches the server with its value.\<close>

lemma arguments_coarsen:
  assumes P: "pydantic_ok P" and M: "arguments_model P name schema = Inr M"
    and admits: "schema_admits schema args"
    and plain: "dict_get schema ''patternProperties'' = None"
    and wf: "dict_wf (properties_of schema)"
  shows "\<exists>out. validate_arguments P M args = Inr out \<and> set (map fst out) = set (map fst args) \<and>
    (\<forall>k v. dict_get args k = Some v \<longrightarrow> (\<exists>v'. dict_get out k = Some v' \<and> same_argument P v v'))"
proof -
  obtain required where req: "required_names schema = Inr required"
      and fields: "arguments_fields M = map (\<lambda>(k, sub). (k, \<lparr>field_annotation = annotation_of sub,
        field_required = (k \<in> set required)\<rparr>)) (filter (\<lambda>(k, _). usable_name k) (properties_of schema))"
      and closed: "arguments_closed M \<longleftrightarrow>
        get_or_null schema ''additionalProperties'' = JBool False \<and> all_names_usable schema"
    using M by (rule arguments_model_eq)
  have present: "dict_get args k \<noteq> None" if "k \<in> set required" for k
    using admits req that by (simp add: schema_admits_def list_all_iff)
  have typed: "subschema_admits sub v" if "(k, sub) \<in> set (properties_of schema)" "dict_get args k = Some v" for k sub v
    using admits that by (fastforce simp: schema_admits_def list_all_iff)
  have "case dict_get args k of None \<Rightarrow> \<not> field_required f
      | Some v \<Rightarrow> \<exists>v'. coerce P (field_annotation f) v = Some v' \<and> same_argument P v v'"
    if kf: "(k, f) \<in> set (arguments_fields M)" for k f
  proof -
    obtain sub where sub: "(k, sub) \<in> set (properties_of schema)"
        "f = \<lparr>field_annotation = annotation_of sub, field_required = (k \<in> set required)\<rparr>"
      using kf by (auto simp: fields)
    show ?thesis
      using present [of k] coerce_admitted [OF P typed [OF sub(1)]] by (auto simp: sub(2) split: option.split)
  qed
  from validate_fields_total [OF this] obtain out where out:
      "validate_fields P (arguments_fields M) args = Inr out"
      "map fst out = filter (\<lambda>k. dict_get args k \<noteq> None) (map fst (arguments_fields M))"
      "\<forall>k v. k \<in> fst ` set (arguments_fields M) \<longrightarrow> dict_get args k = Some v \<longrightarrow>
         (\<exists>v'. dict_get out k = Some v' \<and> same_argument P v v')"
    by blast
  have keys: "set (map fst out) = fst ` set args \<inter> fst ` set (arguments_fields M)"
    unfolding out(2) by (auto simp: map_of_eq_None_iff)
  have extras: "fst ` set (extra_arguments M args) = fst ` set args - fst ` set (arguments_fields M)"
    by (force simp: extra_arguments_def)
  have open_or_none: "extra_arguments M args = [] \<or> \<not> arguments_closed M"
  proof (rule disjCI)
    assume "\<not> \<not> arguments_closed M"
    then have c: "get_or_null schema ''additionalProperties'' = JBool False" "all_names_usable schema"
      using closed by simp_all
    have "fst ` set (arguments_fields M) = fst ` set (properties_of schema)"
      using c(2) by (force simp: fields all_names_usable_def list_all_iff)
    moreover have "fst ` set args \<subseteq> fst ` set (properties_of schema)"
      using admits c(1) plain
      by (force simp: schema_admits_def list_all_iff dest: map_of_SomeD)
    ultimately show "extra_arguments M args = []"
      using extras by (metis Diff_eq_empty_iff image_is_empty set_empty)
  qed
  have result: "validate_arguments P M args = Inr (out @ extra_arguments M args)"
    using open_or_none out(1) by (auto simp: validate_arguments_def)
  have all_keys: "fst ` set (out @ extra_arguments M args) = fst ` set args"
    using keys extras by (simp add: image_Un) blast
  have "\<exists>v'. dict_get (out @ extra_arguments M args) k = Some v' \<and> same_argument P v v'"
    if v: "dict_get args k = Some v" for k v
  proof (cases "k \<in> fst ` set (arguments_fields M)")
    case True
    then obtain v' where v': "dict_get out k = Some v'" "same_argument P v v'" using out(3) v by blast
    have "k \<notin> fst ` set (extra_arguments M args)" using extras True by blast
    then have "dict_get (extra_arguments M args) k = None" by (simp only: map_of_eq_None_iff not_False_eq_True)
    then show ?thesis using v' by (simp add: map_add_def)
  next
    case False
    then have "dict_get out k = None" using keys by (auto simp: map_of_eq_None_iff)
    moreover have "dict_get (extra_arguments M args) k = Some v"
      using v False by (simp add: extra_arguments_def dict_get_filter_key)
    ultimately show ?thesis by (simp add: map_add_def same_argument_def)
  qed
  then show ?thesis using result all_keys by simp
qed

text \<open>With patterns, a closed object may have members the derived model forbids.\<close>

definition pattern_schema :: json_object where
  "pattern_schema = [(''type'', JStr ''object''), (''additionalProperties'', JBool False),
     (''patternProperties'', JObj [(''^x_'', JObj [])])]"

lemma pattern_members_rejected:
  "schema_admits pattern_schema [(''x_1'', JInt 1)] \<and>
   (\<exists>M e. arguments_model P ''s__t'' pattern_schema = Inr M \<and>
      validate_arguments P M [(''x_1'', JInt 1)] = Inl e)"
  by (simp add: schema_admits_def pattern_schema_def required_names_def properties_of_def
      get_or_null_def arguments_model_def validate_arguments_def extra_arguments_def all_names_usable_def)


subsection \<open>Built tools\<close>

lemma py_rstrip_length: "length (py_rstrip s) \<le> length s"
  by (simp add: py_rstrip_def) (metis length_dropWhile_le length_rev)

text \<open>The description the model reads is bounded, the ellipsis coming on top of the bound.\<close>

lemma describe_bounded: "length (describe config d) \<le> MAX_DESCRIPTION_CHARS + 1"
proof -
  have "length (py_rstrip (take MAX_DESCRIPTION_CHARS s)) \<le> MAX_DESCRIPTION_CHARS" for s
    using py_rstrip_length [of "take MAX_DESCRIPTION_CHARS s"] by simp
  then show ?thesis by (auto simp: describe_def Let_def)
qed

lemma describe_exceeds_bound:
  "length (describe (default_mcp_server_config s c)
     \<lparr>decl_name = ''t'', decl_description = replicate 1025 (CHR ''a''), decl_input_schema = []\<rparr>) = 1025"
proof -
  have keep: "dropWhile is_space (replicate n (CHR ''a'')) = replicate n (CHR ''a'')" for n
    by (cases n) (simp_all add: is_space_def)
  let ?a = "replicate 1025 (CHR ''a'')"
  have strip: "py_strip ?a = ?a"
    by (simp only: py_strip_def py_lstrip_def py_rstrip_def keep rev_replicate)
  have long: "?a \<noteq> []" "MAX_DESCRIPTION_CHARS < length ?a"
    by (simp_all add: MAX_DESCRIPTION_CHARS_def)
  have "py_rstrip (take MAX_DESCRIPTION_CHARS ?a) = replicate 1024 (CHR ''a'')"
    by (simp only: take_replicate py_rstrip_def keep rev_replicate) (simp add: MAX_DESCRIPTION_CHARS_def)
  then show ?thesis
    using long unfolding describe_def Let_def mcp_tool_declaration.select_convs strip
    by (simp only: if_False if_True simp_thms length_append length_replicate) simp
qed

lemma build_tool_facts:
  assumes "build_tool P config client d = Inr t"
  shows "tool_ok t" "tool_name t = local_name config (decl_name d)"
    "tool_risk t = risk_for config (decl_name d)"
    "tool_description t = describe config d"
    "tool_handler t = mcp_handler client (decl_name d)"
    "\<exists>M. arguments_model P (tool_name t) (decl_input_schema d) = Inr M \<and>
       tool_validate t = validate_arguments P M"
  using assms by (auto simp: build_tool_def and_then_Inr mk_tool_eq Let_def)

text \<open>
  After registration, every tool is an old one or a registrable declaration's, under its local
  name, at the risk the configuration gives that declaration's name.
\<close>

lemma register_mcp_tools_get:
  assumes "register_mcp_tools P reg client config ds = (out, reg')" and "get_tool reg' n = Some t"
  shows "get_tool reg n = Some t \<or>
    (\<exists>d \<in> set ds. is_registrable config (decl_name d) \<and> build_tool P config client d = Inr t \<and>
       n = local_name config (decl_name d) \<and> tool_risk t = risk_for config (decl_name d))"
  using assms
proof (induction ds arbitrary: reg out)
  case Nil
  then show ?case by simp
next
  case (Cons d ds)
  show ?case
  proof (cases "is_registrable config (decl_name d)")
    case False
    with Cons.prems(1) have "register_mcp_tools P reg client config ds = (out, reg')" by simp
    from Cons.IH [OF this Cons.prems(2)] show ?thesis by auto
  next
    case True
    show ?thesis
    proof (cases "build_tool P config client d")
      case Inl
      with True Cons.prems show ?thesis by simp
    next
      case built: (Inr u)
      show ?thesis
      proof (cases "register u reg")
        case Inl
        with True built Cons.prems show ?thesis by simp
      next
        case (Inr reg1)
        with True built Cons.prems(1) obtain out1 where "register_mcp_tools P reg1 client config ds = (out1, reg')"
          by (auto split: prod.splits sum.splits)
        from Cons.IH [OF this Cons.prems(2)] consider "get_tool reg1 n = Some t"
          | "\<exists>d \<in> set ds. is_registrable config (decl_name d) \<and> build_tool P config client d = Inr t \<and>
               n = local_name config (decl_name d) \<and> tool_risk t = risk_for config (decl_name d)" by blast
        then show ?thesis
        proof cases
          case 1
          then show ?thesis
            using register_get [OF Inr, of n] build_tool_facts(2,3) [OF built] built True
            by (auto split: if_splits)
        qed auto
      qed
    qed
  qed
qed

lemma register_mcp_tools_ok:
  "register_mcp_tools P reg client config ds = (out, reg') \<Longrightarrow> registry_ok reg \<Longrightarrow> registry_ok reg'"
proof (induction ds arbitrary: reg out)
  case (Cons d ds)
  then show ?case
    by (auto split: if_splits sum.splits prod.splits dest: register_ok [OF _ build_tool_facts(1)])
qed simp

text \<open>What was registered, in the order published: the registrable declarations, and only those.\<close>

lemma register_mcp_tools_names:
  "register_mcp_tools P reg client config ds = (Inr registered, reg') \<Longrightarrow>
   registered = map (\<lambda>d. local_name config (decl_name d)) (filter (\<lambda>d. is_registrable config (decl_name d)) ds) \<and>
   names reg' = names reg @ registered"
proof (induction ds arbitrary: reg registered)
  case (Cons d ds)
  then show ?case
    by (auto simp: register_eq names_def split: if_splits sum.splits prod.splits
             dest: build_tool_facts(2))
qed simp

end
