(* ===== verification/MCP_Connections.thy ===== *)
theory MCP_Connections
  imports MCP_Tools
begin

section \<open>Connecting the configured servers (\<open>mcp/factory.py\<close>)\<close>

text \<open>
  \<open>spawn\<close> stands for constructing a \<open>StdioTransport\<close> and starting it. The deadline over the handshake
  cancels the request in progress, which that request reports as \<open>CancelledError\<close>; the block turns
  it into \<open>TimeoutError\<close>. A request nobody answers waits until the first of two deadlines, the handshake's
  and its own; the handshake's was set before, and what a server does answer takes no time here, so
  it comes first unless it is the longer one. The interface \<open>server_host\<close> says what the connections rely on from whoever
  starts the servers and carries the lemmas on their lifetime; \<open>MCP_Stdio\<close> provides it.
\<close>

type_synonym 'x spawner = "mcp_server_config \<Rightarrow> 'x \<Rightarrow> (exn + 'x mcp_transport) \<times> 'x"

definition under_deadline :: "exn \<Rightarrow> exn" where
  "under_deadline e = (case e of OtherError n m \<Rightarrow> if n = ''CancelledError'' then TimeoutError else e | _ \<Rightarrow> e)"

definition within_startup :: "mcp_server_config \<Rightarrow> 'x mcp_transport \<Rightarrow> 'x mcp_transport" where
  "within_startup config T =
     (if call_timeout_ms config < startup_timeout_ms config then T
      else T\<lparr>tr_request := (\<lambda>method params x.
        case tr_request T method params x of
          (Inl TimeoutError, x1) \<Rightarrow> (Inl (OtherError ''CancelledError'' []), x1)
        | out \<Rightarrow> out)\<rparr>)"

definition handshake ::
  "mcp_server_config \<Rightarrow> 'x mcp_client \<Rightarrow> 'x \<Rightarrow> (exn + mcp_tool_declaration list) \<times> 'x mcp_client \<times> 'x" where
  "handshake config client x =
     (let after = (\<lambda>client1. client1\<lparr>cl_transport := cl_transport client\<rparr>) in
      case initialize (client\<lparr>cl_transport := within_startup config (cl_transport client)\<rparr>) x of
        (Inl e, client1, x1) \<Rightarrow> (Inl (under_deadline e), after client1, x1)
      | (Inr _, client1, x1) \<Rightarrow>
          (case list_tools client1 x1 of
             (Inl e, x2) \<Rightarrow> (Inl (under_deadline e), after client1, x2)
           | (Inr declarations, x2) \<Rightarrow> (Inr declarations, after client1, x2)))"

text \<open>An exception of the close replaces the one being handled.\<close>

definition close_and_raise :: "'x mcp_client \<Rightarrow> exn \<Rightarrow> 'x \<Rightarrow> exn \<times> 'x" where
  "close_and_raise client e x =
     (case mcp_aclose client x of (Inl e', x1) \<Rightarrow> (e', x1) | (Inr _, x1) \<Rightarrow> (e, x1))"

definition connect_one ::
  "pydantic \<Rightarrow> 'x spawner \<Rightarrow> mcp_server_config \<Rightarrow> 'x registry \<Rightarrow> 'x
   \<Rightarrow> (exn + 'x mcp_client) \<times> 'x registry \<times> 'x" where
  "connect_one P spawn config reg x =
     (case spawn config x of
        (Inl e, x1) \<Rightarrow> (Inl e, reg, x1)
      | (Inr transport, x1) \<Rightarrow>
          (case mk_mcp_client transport (mcp_name config) (call_timeout_ms config) of
             Inl e \<Rightarrow> (Inl e, reg, x1)
           | Inr client \<Rightarrow>
               (case handshake config client x1 of
                  (Inl e, client1, x2) \<Rightarrow>
                    (case close_and_raise client1 e x2 of (e', x3) \<Rightarrow> (Inl e', reg, x3))
                | (Inr declarations, client1, x2) \<Rightarrow>
                    (case register_mcp_tools P reg client1 config declarations of
                       (Inl e, reg1) \<Rightarrow>
                         (case close_and_raise client1 e x2 of (e', x3) \<Rightarrow> (Inl e', reg1, x3))
                     | (Inr _, reg1) \<Rightarrow> (Inr client1, reg1, x2)))))"

text \<open>\<open>MCPConnections.aclose\<close>: every client, whatever the others raise.\<close>

fun close_all :: "'x mcp_client list \<Rightarrow> 'x \<Rightarrow> 'x" where
  "close_all [] x = x"
| "close_all (client # clients) x = close_all clients (snd (mcp_aclose client x))"

fun connect_each ::
  "pydantic \<Rightarrow> 'x spawner \<Rightarrow> mcp_server_config list \<Rightarrow> 'x mcp_client list \<Rightarrow> 'x registry \<Rightarrow> 'x
   \<Rightarrow> (exn + 'x mcp_client list) \<times> 'x registry \<times> 'x" where
  "connect_each P spawn [] clients reg x = (Inr clients, reg, x)"
| "connect_each P spawn (config # configs) clients reg x =
     (case connect_one P spawn config reg x of
        (Inl e, reg1, x1) \<Rightarrow> (Inl e, reg1, close_all clients x1)
      | (Inr client, reg1, x1) \<Rightarrow> connect_each P spawn configs (clients @ [client]) reg1 x1)"

definition connect_mcp_servers ::
  "pydantic \<Rightarrow> 'x spawner \<Rightarrow> mcp_server_config list \<Rightarrow> 'x registry \<Rightarrow> 'x
   \<Rightarrow> (exn + 'x mcp_client list) \<times> 'x registry \<times> 'x" where
  "connect_mcp_servers P spawn configs reg x = connect_each P spawn configs [] reg x"


subsection \<open>No orphaned servers\<close>

text \<open>
  What the connections rely on from whoever starts the servers: \<open>alive\<close> are the running processes,
  \<open>serves pid T\<close> says that the transport \<open>T\<close> talks to the process \<open>pid\<close>, and \<open>ok\<close> is an invariant of the
  outside. Starting a server adds one process or fails, talking to it changes no other process, though
  it may exit by itself, and closing its transport ends it.
\<close>

locale server_host =
  fixes alive :: "'x \<Rightarrow> nat set"
    and ok :: "'x \<Rightarrow> bool"
    and spawn :: "'x spawner"
    and serves :: "nat \<Rightarrow> 'x mcp_transport \<Rightarrow> bool"
  assumes request: "serves pid T \<Longrightarrow> ok x \<Longrightarrow> tr_request T m p x = (out, x') \<Longrightarrow>
      ok x' \<and> alive x - {pid} \<subseteq> alive x' \<and> alive x' \<subseteq> alive x"
    and notify: "serves pid T \<Longrightarrow> ok x \<Longrightarrow> tr_notify T m p x = (sent, x') \<Longrightarrow>
      ok x' \<and> alive x - {pid} \<subseteq> alive x' \<and> alive x' \<subseteq> alive x"
    and aclose: "serves pid T \<Longrightarrow> ok x \<Longrightarrow> tr_aclose T x = (closed, x') \<Longrightarrow>
      ok x' \<and> alive x' = alive x - {pid}"
    and not_spawned: "ok x \<Longrightarrow> spawn config x = (Inl e, x') \<Longrightarrow> ok x' \<and> alive x' = alive x"
    and spawned: "ok x \<Longrightarrow> spawn config x = (Inr T, x') \<Longrightarrow>
      ok x' \<and> (\<exists>pid. pid \<notin> alive x \<and> alive x' = insert pid (alive x) \<and> serves pid T)"
begin

text \<open>From \<open>x\<close> to \<open>x'\<close> at most the process \<open>pid\<close> has exited.\<close>

definition only_loses :: "nat \<Rightarrow> 'x \<Rightarrow> 'x \<Rightarrow> bool" where
  "only_loses pid x x' \<longleftrightarrow> ok x' \<and> alive x - {pid} \<subseteq> alive x' \<and> alive x' \<subseteq> alive x"

lemma only_loses_refl: "ok x \<Longrightarrow> only_loses pid x x"
  by (simp add: only_loses_def)

lemma only_loses_trans: "only_loses pid x y \<Longrightarrow> only_loses pid y z \<Longrightarrow> only_loses pid x z"
  by (auto simp: only_loses_def)

lemma only_loses_ok: "only_loses pid x x' \<Longrightarrow> ok x'"
  by (simp add: only_loses_def)

text \<open>A transport that talks to the process, under the handshake's deadline or not.\<close>

definition talks :: "nat \<Rightarrow> 'x mcp_transport \<Rightarrow> bool" where
  "talks pid T \<longleftrightarrow> (\<exists>T0. serves pid T0 \<and> (T = T0 \<or> (\<exists>config. T = within_startup config T0)))"

lemma talks_loses:
  assumes "talks pid T" "ok x"
  shows "tr_request T m p x = (out, x') \<Longrightarrow> only_loses pid x x'"
    and "tr_notify T m p x = (sent, x') \<Longrightarrow> only_loses pid x x'"
proof -
  obtain T0 where T0: "serves pid T0" "T = T0 \<or> (\<exists>config. T = within_startup config T0)"
    using assms(1) by (auto simp: talks_def)
  obtain out0 x0 where t: "tr_request T0 m p x = (out0, x0)" by (metis surj_pair)
  have "tr_request T m p x = (out, x') \<Longrightarrow> x' = x0"
    using T0(2) t by (auto simp: within_startup_def split: sum.splits exn.splits if_splits)
  then show "tr_request T m p x = (out, x') \<Longrightarrow> only_loses pid x x'"
    using request [OF T0(1) assms(2) t] by (simp add: only_loses_def)
  have "tr_notify T m p x = tr_notify T0 m p x"
    using T0(2) by (auto simp: within_startup_def)
  then show "tr_notify T m p x = (sent, x') \<Longrightarrow> only_loses pid x x'"
    using notify [OF T0(1) assms(2)] by (simp add: only_loses_def)
qed

lemma mcp_request_loses:
  assumes "talks pid (cl_transport C)" "ok x" "mcp_request C m p x = (out, x')"
  shows "only_loses pid x x'"
proof -
  obtain out0 x0 where t: "tr_request (cl_transport C) m p x = (out0, x0)" by (metis surj_pair)
  then have "x' = x0"
    using assms(3) by (auto simp: mcp_request_def split: sum.splits exn.splits)
  then show ?thesis using talks_loses(1) [OF assms(1,2) t] by simp
qed

lemma list_pages_loses:
  "talks pid (cl_transport C) \<Longrightarrow> ok x \<Longrightarrow> list_pages C n c ds x = (out, x') \<Longrightarrow> only_loses pid x x'"
proof (induction n arbitrary: c ds x)
  case 0
  then show ?case by (simp add: only_loses_refl)
next
  case (Suc n)
  obtain r x1 where req: "mcp_request C ''tools/list'' (map_option (\<lambda>c. [(''cursor'', JStr c)]) c) x = (r, x1)"
    by (metis surj_pair)
  note one = mcp_request_loses [OF Suc.prems(1,2) req]
  have "x' = x1 \<or> (\<exists>c ds. list_pages C n c ds x1 = (out, x'))"
    using Suc.prems(3) by (auto simp: req Let_def split: sum.splits json.splits if_splits)
  then show ?case
    using one Suc.IH [OF Suc.prems(1) only_loses_ok [OF one]] only_loses_trans by blast
qed

lemma initialize_loses:
  assumes "talks pid (cl_transport C)" "ok x" "initialize C x = (out, C', x')"
  shows "only_loses pid x x' \<and> cl_transport C' = cl_transport C"
proof -
  obtain r x1 where req: "mcp_request C ''initialize'' (Some initialize_params) x = (r, x1)"
    by (metis surj_pair)
  note one = mcp_request_loses [OF assms(1,2) req]
  obtain n x2 where nt: "tr_notify (cl_transport C) ''notifications/initialized'' None x1 = (n, x2)"
    by (metis surj_pair)
  have "only_loses pid x1 x2"
    using talks_loses(2) [OF assms(1) only_loses_ok [OF one] nt] .
  moreover have "(x' = x1 \<or> x' = x2) \<and> cl_transport C' = cl_transport C"
  proof (cases r)
    case (Inl e)
    then show ?thesis using assms(3) by (simp add: initialize_def req)
  next
    case (Inr result)
    show ?thesis
    proof (cases "get_or_null result ''protocolVersion''")
      case (JStr v)
      then show ?thesis
        using assms(3) by (simp add: initialize_def req Inr nt Let_def split: if_splits sum.splits) auto
    qed (use assms(3) in \<open>simp_all add: initialize_def req Inr\<close>)
  qed
  ultimately show ?thesis using one only_loses_trans by blast
qed

lemma handshake_loses:
  assumes "serves pid (cl_transport C)" "ok x" "handshake config C x = (out, C', x')"
  shows "only_loses pid x x' \<and> cl_transport C' = cl_transport C"
proof -
  let ?C = "C\<lparr>cl_transport := within_startup config (cl_transport C)\<rparr>"
  have up: "talks pid (cl_transport ?C)" using assms(1) by (auto simp: talks_def)
  obtain r C1 x1 where i: "initialize ?C x = (r, C1, x1)" by (metis surj_pair)
  note one = initialize_loses [OF up assms(2) i]
  obtain l x2 where l: "list_tools C1 x1 = (l, x2)" by (metis surj_pair)
  have "only_loses pid x1 x2"
    using list_pages_loses [of pid C1 x1] l one up only_loses_ok by (fastforce simp: list_tools_def)
  then have "only_loses pid x x1 \<and> only_loses pid x x2"
    using one only_loses_trans by blast
  then show ?thesis
    using assms(3) by (auto simp: handshake_def i l Let_def split: sum.splits)
qed

lemma close_ends:
  assumes "serves pid (cl_transport C)" "ok x"
  shows "mcp_aclose C x = (out, x') \<Longrightarrow> ok x' \<and> alive x' = alive x - {pid}"
    and "close_and_raise C e x = (e', x') \<Longrightarrow> ok x' \<and> alive x' = alive x - {pid}"
  using aclose [OF assms] by (auto simp: mcp_aclose_def close_and_raise_def split: prod.splits sum.splits)

lemma close_after_loses:
  assumes "only_loses pid x x'" "alive y = alive x' - {pid}" "pid \<notin> alive x0" "alive x = insert pid (alive x0)"
  shows "alive y = alive x0"
  using assms by (auto simp: only_loses_def)

text \<open>One server: when it is not connected, nothing of it runs.\<close>

lemma connect_one_alive:
  assumes "ok x" and valid: "0 < call_timeout_ms config"
    and run: "connect_one P spawn config reg x = (out, reg', x')"
  shows "ok x' \<and> (case out of Inl _ \<Rightarrow> alive x' = alive x
    | Inr C \<Rightarrow> \<exists>pid. pid \<notin> alive x \<and> alive x \<subseteq> alive x' \<and> alive x' \<subseteq> insert pid (alive x) \<and> serves pid (cl_transport C))"
proof (cases "spawn config x")
  case (Pair s x1)
  show ?thesis
  proof (cases s)
    case (Inl e)
    then show ?thesis
      using run not_spawned [OF \<open>ok x\<close>, of config e x1] by (auto simp: connect_one_def Pair)
  next
    case (Inr T)
    obtain pid where pid: "ok x1" "pid \<notin> alive x" "alive x1 = insert pid (alive x)" "serves pid T"
      using spawned [OF \<open>ok x\<close>, of config T x1] Pair Inr by auto
    let ?C = "\<lparr>cl_transport = T, cl_name = mcp_name config, cl_timeout_ms = call_timeout_ms config,
      cl_server_info = None\<rparr>"
    obtain h C1 x2 where hs: "handshake config ?C x1 = (h, C1, x2)" by (metis surj_pair)
    have up: "only_loses pid x1 x2" "serves pid (cl_transport C1)"
      using handshake_loses [of pid ?C, OF _ pid(1) hs] pid(4) by simp_all
    have closed: "ok x3 \<and> alive x3 = alive x" if "close_and_raise C1 e x2 = (e', x3)" for e e' x3
      using close_ends(2) [OF up(2) only_loses_ok [OF up(1)] that] close_after_loses [OF up(1)] pid(2,3) by blast
    show ?thesis
    proof (cases h)
      case failed: (Inl e)
      obtain e' x3 where c: "close_and_raise C1 e x2 = (e', x3)" by (metis surj_pair)
      have "out = Inl e'" "x' = x3"
        using run valid c by (simp_all add: connect_one_def Pair Inr mk_mcp_client_def hs failed)
      then show ?thesis using closed [OF c] by simp
    next
      case found: (Inr ds)
      obtain reg_out reg1 where reg: "register_mcp_tools P reg C1 config ds = (reg_out, reg1)"
        by (metis surj_pair)
      show ?thesis
      proof (cases reg_out)
        case failed: (Inl e)
        obtain e' x3 where c: "close_and_raise C1 e x2 = (e', x3)" by (metis surj_pair)
        have "out = Inl e'" "x' = x3"
          using run valid c by (simp_all add: connect_one_def Pair Inr mk_mcp_client_def hs found reg failed)
        then show ?thesis using closed [OF c] by simp
      next
        case (Inr names)
        have "out = Inr C1" "x' = x2"
          using run valid by (simp_all add: connect_one_def Pair \<open>s = Inr T\<close> mk_mcp_client_def hs found reg Inr)
        then show ?thesis using up pid(2,3) by (auto simp: only_loses_def)
      qed
    qed
  qed
qed

lemma close_all_alive:
  "list_all2 (\<lambda>C pid. serves pid (cl_transport C)) clients pids \<Longrightarrow> ok x \<Longrightarrow>
   ok (close_all clients x) \<and> alive (close_all clients x) = alive x - set pids"
proof (induction clients arbitrary: pids x)
  case Nil
  then show ?case by simp
next
  case (Cons C clients)
  then obtain pid pids' where p: "pids = pid # pids'" "serves pid (cl_transport C)"
      "list_all2 (\<lambda>C pid. serves pid (cl_transport C)) clients pids'"
    by (auto simp: list_all2_Cons1)
  obtain out x1 where c: "mcp_aclose C x = (out, x1)" by (metis surj_pair)
  have "ok x1 \<and> alive x1 = alive x - {pid}" using close_ends(1) [OF p(2) Cons.prems(2) c] .
  then show ?case using Cons.IH [OF p(3), of x1] by (auto simp: c p(1))
qed

lemma connect_each_alive:
  assumes "\<forall>c \<in> set configs. 0 < call_timeout_ms c"
    and "list_all2 (\<lambda>C pid. serves pid (cl_transport C)) clients pids" "ok x"
    and "set pids \<inter> alive x0 = {}" "alive x0 \<subseteq> alive x" "alive x \<subseteq> alive x0 \<union> set pids"
    and "connect_each P spawn configs clients reg x = (out, reg', x')"
  shows "ok x' \<and> (case out of Inl _ \<Rightarrow> alive x' = alive x0
    | Inr Cs \<Rightarrow> \<exists>ps. list_all2 (\<lambda>C pid. serves pid (cl_transport C)) Cs ps \<and>
        set ps \<inter> alive x0 = {} \<and> alive x0 \<subseteq> alive x' \<and> alive x' \<subseteq> alive x0 \<union> set ps \<and>
        length Cs = length clients + length configs)"
  using assms
proof (induction configs arbitrary: clients pids reg x)
  case Nil
  then show ?case by (auto intro: exI [of _ pids])
next
  case (Cons config configs)
  obtain r reg1 x1 where one: "connect_one P spawn config reg x = (r, reg1, x1)" by (metis surj_pair)
  note up = connect_one_alive [OF Cons.prems(3) _ one]
  show ?case
  proof (cases r)
    case (Inl e)
    have x1: "ok x1" "alive x1 = alive x" using up Cons.prems(1) Inl by simp_all
    have "ok (close_all clients x1) \<and> alive (close_all clients x1) = alive x0"
      using close_all_alive [OF Cons.prems(2) x1(1)] x1(2) Cons.prems(4-6) by auto
    then show ?thesis using Cons.prems(7) one Inl by auto
  next
    case (Inr C)
    obtain pid where pid: "ok x1" "pid \<notin> alive x" "alive x \<subseteq> alive x1" "alive x1 \<subseteq> insert pid (alive x)"
        "serves pid (cl_transport C)"
      using up Cons.prems(1) Inr by auto
    have rest: "connect_each P spawn configs (clients @ [C]) reg1 x1 = (out, reg', x')"
      using Cons.prems(7) one Inr by simp
    have new: "list_all2 (\<lambda>C pid. serves pid (cl_transport C)) (clients @ [C]) (pids @ [pid])"
      using Cons.prems(2) pid(5) by (simp add: list_all2_appendI)
    have sets: "set (pids @ [pid]) \<inter> alive x0 = {}" "alive x0 \<subseteq> alive x1"
        "alive x1 \<subseteq> alive x0 \<union> set (pids @ [pid])"
      using Cons.prems(4-6) pid(2-4) by auto
    have "\<forall>c \<in> set configs. 0 < call_timeout_ms c" using Cons.prems(1) by simp
    from Cons.IH [OF this new pid(1) sets rest] show ?thesis by (cases out) simp_all
  qed
qed

text \<open>
  A startup that fails leaves no server of its own behind and harms no other process; the servers of
  one that succeeds are new processes, and closing the connections ends them all.
\<close>

lemma connect_leaves_no_orphans:
  assumes "ok x" and "\<forall>c \<in> set configs. 0 < call_timeout_ms c"
    and "connect_mcp_servers P spawn configs reg x = (out, reg', x')"
  shows "case out of Inl _ \<Rightarrow> alive x' = alive x
    | Inr Cs \<Rightarrow> length Cs = length configs \<and> alive x \<subseteq> alive x' \<and> alive (close_all Cs x') = alive x"
proof -
  have run: "connect_each P spawn configs [] reg x = (out, reg', x')"
    using assms(3) by (simp add: connect_mcp_servers_def)
  have base: "list_all2 (\<lambda>C pid. serves pid (cl_transport C)) [] []" by simp
  show ?thesis
  proof (cases out)
    case (Inl e)
    then show ?thesis using connect_each_alive [OF assms(2) base assms(1) _ _ _ run, of x] by simp
  next
    case (Inr Cs)
    then obtain ps where ps: "ok x'" "list_all2 (\<lambda>C pid. serves pid (cl_transport C)) Cs ps"
        "set ps \<inter> alive x = {}" "alive x \<subseteq> alive x'" "alive x' \<subseteq> alive x \<union> set ps" "length Cs = length configs"
      using connect_each_alive [OF assms(2) base assms(1) _ _ _ run, of x] by auto
    have "alive (close_all Cs x') = alive x"
      using close_all_alive [OF ps(2,1)] ps(3-5) by blast
    then show ?thesis using ps Inr by simp
  qed
qed

end

end
