(* ===== verification/Application.thy ===== *)
theory Application
  imports Config Task_Router Demo_Tools Demo_Provider Anthropic Postgres_Contract MCP_Connections
begin

section \<open>Wiring the application (\<open>main.py\<close> and the factories)\<close>

text \<open>
  \<open>create_app\<close> puts the collaborators together. What the factories build for a collaborator that was
  not injected depends on the adapter, and with it the type of the outside state and of the store;
  so \<open>create_app\<close> takes the factories it would call as arguments. The module's own factories are
  below: the store, whose two adapters are the two cases of one type, the model client, and the
  demo's tools. Routing, middleware and the health route are FastAPI's.
\<close>

datatype any_store = InMemory mem_repo | Pooled pg_repo

definition build_task_repository :: "settings \<Rightarrow> any_store" where
  "build_task_repository s =
     (if task_store s = MemoryStore then InMemory mem_empty else Pooled pg_init)"

definition configured_tools ::
  "pydantic \<Rightarrow> (string \<Rightarrow> json_object) \<Rightarrow> settings \<Rightarrow> ledger tool list" where
  "configured_tools P schema_of s = (if demo_tools_enabled s then build_demo_tools P schema_of else [])"

text \<open>
  \<open>llm/factory.py\<close>. The SDK's client is what it is constructed with; \<open>sdk_of\<close> is the SDK, and
  \<open>unscripted\<close> the fake with an empty script, on its part of the outside state.
\<close>

datatype sdk_client =
    BedrockClient string int int \<comment> \<open>region, retries, timeout\<close>
  | AnthropicClient "string option" int int \<comment> \<open>key, retries, timeout\<close>

definition build_anthropic_client :: "settings \<Rightarrow> sdk_client" where
  "build_anthropic_client s =
     (if llm_provider_named s = BedrockLLM then BedrockClient (aws_region s) 0 (llm_timeout_ms s)
      else AnthropicClient (anthropic_api_key s) 0 (llm_timeout_ms s))"

definition build_provider :: "'x llm_provider \<Rightarrow> (sdk_client \<Rightarrow> 'x sdk) \<Rightarrow> settings \<Rightarrow> 'x llm_provider" where
  "build_provider unscripted sdk_of s =
     (case llm_provider_named s of
        FakeLLM \<Rightarrow> unscripted
      | DemoLLM \<Rightarrow> demo_provider
      | _ \<Rightarrow> anthropic_provider (llm_provider_value (llm_provider_named s)) (llm_model s)
               (sdk_of (build_anthropic_client s)))"

definition build_llm_client ::
  "'x llm_provider \<Rightarrow> (sdk_client \<Rightarrow> 'x sdk) \<Rightarrow> settings \<Rightarrow> exn + 'x llm_client" where
  "build_llm_client unscripted sdk_of s = mk_llm_client (build_provider unscripted sdk_of s) (llm_timeout_ms s)"

definition DEFAULT_TOOL_TIMEOUT_MS :: int where "DEFAULT_TOOL_TIMEOUT_MS = 15000"

definition DEFAULT_MAX_RESULT_CHARS :: int where "DEFAULT_MAX_RESULT_CHARS = 8000"

text \<open>\<open>ToolRegistry(tools)\<close> with its default limits.\<close>

definition default_registry :: "'x tool list \<Rightarrow> exn + 'x registry" where
  "default_registry tools = mk_registry tools DEFAULT_TOOL_TIMEOUT_MS DEFAULT_MAX_RESULT_CHARS"

definition create_app ::
  "settings \<Rightarrow> (string \<Rightarrow> string) \<Rightarrow> (settings \<Rightarrow> 'r task_repo) \<Rightarrow> (settings \<Rightarrow> exn + 'x llm_client)
   \<Rightarrow> (settings \<Rightarrow> 'x tool list)
   \<Rightarrow> 'r task_repo option \<Rightarrow> 'x llm_client option \<Rightarrow> 'x registry option
   \<Rightarrow> authenticator option \<Rightarrow> approval_policy option \<Rightarrow> exn + ('x, 'r) app" where
  "create_app s digest built_repository built_llm_client tools_of repo client reg auth policy =
     (let r = (case repo of Some x \<Rightarrow> x | None \<Rightarrow> built_repository s) in
      and_then (case client of Some x \<Rightarrow> Inr x | None \<Rightarrow> built_llm_client s) (\<lambda>c.
      and_then (case reg of Some x \<Rightarrow> Inr x | None \<Rightarrow> default_registry (tools_of s)) (\<lambda>t.
      and_then (case auth of Some x \<Rightarrow> Inr x | None \<Rightarrow> mk_authenticator digest (api_clients s)) (\<lambda>a.
      and_then (mk_agent_runner
        \<lparr>runner_llm = c, runner_tools = t, runner_repo = r, max_steps = agent_max_steps s,
         max_tokens = agent_max_tokens s, auto_approve_up_to = agent_auto_approve_up_to s,
         system_prompt = DEFAULT_SYSTEM_PROMPT\<rparr>) (\<lambda>D.
      Inr \<lparr>app_repository = r, app_runner = D,
           app_policy = (case policy of Some x \<Rightarrow> x
             | None \<Rightarrow> \<lparr>requires_second_person = approval_requires_second_person s\<rparr>),
           app_authenticator = a, app_digest = digest\<rparr>)))))"

text \<open>The settings reach the runner and the policy unchanged.\<close>

lemma create_app_wiring:
  assumes "create_app s digest br bl tools_of repo client reg auth policy = Inr A"
  shows "max_steps (app_runner A) = agent_max_steps s"
    and "auto_approve_up_to (app_runner A) = agent_auto_approve_up_to s"
    and "runner_repo (app_runner A) = app_repository A"
    and "policy = None \<Longrightarrow> requires_second_person (app_policy A) = approval_requires_second_person s"
    and "reg = None \<Longrightarrow> default_registry (tools_of s) = Inr (runner_tools (app_runner A))"
    and "auth = None \<Longrightarrow> mk_authenticator digest (api_clients s) = Inr (app_authenticator A)"
  using assms by (auto simp: create_app_def and_then_Inr mk_agent_runner_def Let_def split: if_splits option.splits)


text \<open>
  In production the client is built, and its backend is Anthropic's.
\<close>

lemma production_client:
  assumes "mk_settings s = Inr s" and "deployed_to s = production"
  shows "\<exists>C name. build_llm_client unscripted sdk_of s = Inr C \<and>
    client_provider C = anthropic_provider name (llm_model s) (sdk_of (build_anthropic_client s))"
proof -
  have ok: "0 < llm_timeout_ms s" "llm_provider_named s = AnthropicLLM \<or> llm_provider_named s = BedrockLLM"
    using assms by (auto simp: mk_settings_eq settings_ok_def fit_for_production_def)
  then have p: "build_provider unscripted sdk_of s =
      anthropic_provider (llm_provider_value (llm_provider_named s)) (llm_model s) (sdk_of (build_anthropic_client s))"
    by (auto simp: build_provider_def)
  show ?thesis
    using ok(1) by (auto simp: build_llm_client_def mk_llm_client_def p)
qed


subsection \<open>Startup and shutdown (\<open>lifespan\<close>)\<close>

text \<open>
  The resources an application holds, in the order \<open>lifespan\<close> opens and closes them: the pool of a
  managed repository, the MCP connections, the model client. Each opening and closing raises or
  not; \<open>None\<close> stands for success. The result is the exception that leaves, and what is open.
\<close>

datatype resource = RepositoryPool | MCPServers | ModelClient

definition lifespan_startup :: "bool \<Rightarrow> exn option \<Rightarrow> exn option \<Rightarrow> exn option \<times> resource list" where
  "lifespan_startup managed pool_error mcp_error =
     (let pool = (if managed then [RepositoryPool] else []) in
      case (if managed then pool_error else None) of
        Some x \<Rightarrow> (Some x, [ModelClient])
      | None \<Rightarrow>
          (case mcp_error of
             Some x \<Rightarrow> (Some x, ModelClient # pool)
           | None \<Rightarrow> (None, ModelClient # pool @ [MCPServers])))"

definition lifespan_shutdown :: "bool \<Rightarrow> exn option \<Rightarrow> exn option \<Rightarrow> resource list \<Rightarrow> exn option \<times> resource list" where
  "lifespan_shutdown managed llm_error mcp_error open_ones =
     (case llm_error of
        Some x \<Rightarrow> (Some x, open_ones)
      | None \<Rightarrow>
          let rest = removeAll ModelClient open_ones in
          (case mcp_error of
             Some x \<Rightarrow> (Some x, rest)
           | None \<Rightarrow>
               let rest' = removeAll MCPServers rest in
               (None, if managed then removeAll RepositoryPool rest' else rest')))"

lemma clean_lifespan_closes_everything:
  "lifespan_startup managed pool_error mcp_error = (None, open_ones) \<Longrightarrow>
   lifespan_shutdown managed None None open_ones = (None, [])"
  by (auto simp: lifespan_startup_def lifespan_shutdown_def Let_def split: option.splits if_splits)

text \<open>A failed startup leaves the pool open, and a client that fails to close leaves the rest open.\<close>

lemma failed_startup_leaves_pool_open:
  "lifespan_startup True None (Some x) = (Some x, [ModelClient, RepositoryPool])"
  by (simp add: lifespan_startup_def)

lemma failed_close_leaves_rest_open:
  "lifespan_startup True None None = (None, open_ones) \<Longrightarrow>
   lifespan_shutdown True (Some x) None open_ones = (Some x, [ModelClient, RepositoryPool, MCPServers])"
  by (simp add: lifespan_startup_def lifespan_shutdown_def)

end
