(* ===== verification/Demo_Books.thy ===== *)
theory Demo_Books
  imports Demo_Tools
begin

section \<open>What an agent can do to the books\<close>

text \<open>
  A runner that offers only the demo's tools and whose model does not write the ledger. Its runs
  pay nothing while the policy holds critical calls, and a resumption pays only what an approved
  call names. \<open>runner_frame\<close> lifts both from one turn of tools to the methods of the runner.
\<close>

definition demo_deployment ::
  "pydantic \<Rightarrow> (string \<Rightarrow> json_object) \<Rightarrow> (ledger, 'r) agent_runner \<Rightarrow> bool" where
  "demo_deployment P S D \<longleftrightarrow>
     (\<forall>n t. get_tool (runner_tools D) n = Some t \<longrightarrow> tool_name t = n \<and> t \<in> set (build_demo_tools P S)) \<and>
     (\<forall>req L. snd (provider_complete (client_provider (runner_llm D)) req L) = L)"

text \<open>A call that names a payment, invoice and amount.\<close>

definition names_payment :: "tool_call \<Rightarrow> string \<times> payment \<Rightarrow> bool" where
  "names_payment c ip \<longleftrightarrow> call_name c = ''pay_invoice'' \<and>
     dict_get (call_arguments c) ''invoice_id'' = Some (JStr (fst ip)) \<and>
     (\<exists>a. dict_get (call_arguments c) ''amount_eur'' = Some (JStr a) \<and> is_amount a \<and>
        pay_amount (snd ip) = amount_cents a)"

definition pays_only :: "tool_call set \<Rightarrow> ledger \<Rightarrow> ledger \<Rightarrow> bool" where
  "pays_only cs L L' \<longleftrightarrow> books_extend L L' \<and>
     (\<exists>new. payments L' = payments L @ new \<and> (\<forall>ip \<in> set new. \<exists>c \<in> cs. names_payment c ip))"

lemma pays_only_refl [simp]: "pays_only cs L L"
  by (simp add: pays_only_def)

lemma pays_only_trans:
  assumes "pays_only cs L M" "pays_only cs M N"
  shows "pays_only cs L N"
proof -
  obtain xs where "payments M = payments L @ xs" "\<forall>ip \<in> set xs. \<exists>c \<in> cs. names_payment c ip"
    using assms(1) by (auto simp: pays_only_def)
  moreover obtain ys where "payments N = payments M @ ys" "\<forall>ip \<in> set ys. \<exists>c \<in> cs. names_payment c ip"
    using assms(2) by (auto simp: pays_only_def)
  moreover have "books_extend L N"
    using assms by (auto simp: pays_only_def intro: books_extend_trans)
  ultimately show ?thesis by (fastforce simp: pays_only_def)
qed

lemma pays_only_mono: "pays_only cs L L' \<Longrightarrow> cs \<subseteq> ds \<Longrightarrow> pays_only ds L L'"
  unfolding pays_only_def by blast

lemma pays_only_nothing: "pays_only {} L L' \<longleftrightarrow> books_extend L L' \<and> payments L' = payments L"
proof -
  have "(\<forall>ip \<in> set new. False) \<longleftrightarrow> new = []" for new :: "(string \<times> payment) list"
    by (cases new) auto
  then show ?thesis by (simp add: pays_only_def)
qed

lemma PayInvoiceArgs_Inr:
  "PayInvoiceArgs args = Inr out \<Longrightarrow>
   \<exists>i a. dict_get args ''invoice_id'' = Some (JStr i) \<and> is_invoice_id i \<and>
     dict_get args ''amount_eur'' = Some (JStr a) \<and> is_amount a \<and>
     out = [(''invoice_id'', JStr i), (''amount_eur'', JStr a)]"
  by (auto simp: PayInvoiceArgs_def str_argument_def and_then_Inr split: option.splits json.splits if_splits)

text \<open>One handler run: a payment is one its call names; other tools pay nothing.\<close>

lemma handler_pays:
  assumes "t \<in> set (build_demo_tools P S)" "tool_name t = call_name c"
    and "tool_validate t (call_arguments c) = Inr args"
  shows "pays_only {d. d = c \<and> tool_risk t = CRITICAL} L (snd (tool_handler t args L))"
proof (cases "tool_risk t = CRITICAL")
  case False
  then show ?thesis
    using demo_tool_effect [OF assms(1)] by (simp add: pays_only_nothing)
next
  case True
  then have t: "tool_validate t = PayInvoiceArgs" "tool_handler t = pay_invoice" "tool_name t = ''pay_invoice''"
    using assms(1) by (auto simp: build_demo_tools_def)
  obtain i a where a: "dict_get (call_arguments c) ''invoice_id'' = Some (JStr i)"
      "dict_get (call_arguments c) ''amount_eur'' = Some (JStr a)" "is_amount a"
      "args = [(''invoice_id'', JStr i), (''amount_eur'', JStr a)]"
    using PayInvoiceArgs_Inr [of "call_arguments c" args] assms(3) t(1) by auto
  have "arg_str args ''invoice_id'' = i" "arg_str args ''amount_eur'' = a"
    by (simp_all add: a(4) arg_str_def)
  then have L': "snd (pay_invoice args L) = snd (ledger_pay i (amount_cents a) L)"
    by (simp add: pay_invoice_def split: sum.split prod.split)
  have "pays_only {c} L (snd (ledger_pay i (amount_cents a) L))"
  proof (cases "ledger_pay i (amount_cents a) L")
    case (Pair r L1)
    have books: "books_extend L L1" using pay_books [of L i "amount_cents a"] Pair by simp
    show ?thesis
    proof (cases r)
      case (Inl e)
      then show ?thesis using Pair pay_Inl [of i "amount_cents a" L e L1] by simp
    next
      case (Inr p)
      then have "payments L1 = payments L @ [(i, p)]" "pay_amount p = amount_cents a"
        using Pair by (auto simp: pay_Inr)
      then show ?thesis
        using Pair books a t(3) assms(2) by (simp add: pays_only_def names_payment_def)
    qed
  qed
  then show ?thesis using t(2) L' True by simp
qed

lemma demo_tools_pay:
  assumes dep: "demo_deployment P S D"
    and ex: "execute_all (runner_tools D) prio calls w = (rs, w')"
  shows "pays_only (set calls) (ext_state w) (ext_state w')"
proof (rule execute_all_lift [OF ex pays_only_refl])
  show "\<And>L M N. pays_only (set calls) L M \<Longrightarrow> pays_only (set calls) M N \<Longrightarrow> pays_only (set calls) L N"
    by (rule pays_only_trans)
next
  fix c t args L
  assume c: "c \<in> set calls" "get_tool (runner_tools D) (call_name c) = Some t"
    "tool_validate t (call_arguments c) = Inr args"
  then have "t \<in> set (build_demo_tools P S)" "tool_name t = call_name c"
    using dep by (auto simp: demo_deployment_def)
  from handler_pays [OF this c(3)] show "pays_only (set calls) L (snd (tool_handler t args L))"
    by (rule pays_only_mono) (use c(1) in auto)
qed

lemma unattended_tools_pay_nothing:
  assumes dep: "demo_deployment P S D" and pol: "auto_approve_up_to D \<noteq> CRITICAL"
    and un: "list_all (\<lambda>c. \<not> needs_approval D c) calls"
    and ex: "execute_all (runner_tools D) prio calls w = (rs, w')"
  shows "pays_only {} (ext_state w) (ext_state w')"
proof (rule execute_all_lift [OF ex pays_only_refl])
  show "\<And>L M N. pays_only {} L M \<Longrightarrow> pays_only {} M N \<Longrightarrow> pays_only {} L N"
    by (rule pays_only_trans)
next
  fix c t args L
  assume c: "c \<in> set calls" "get_tool (runner_tools D) (call_name c) = Some t"
    "tool_validate t (call_arguments c) = Inr args"
  have t: "t \<in> set (build_demo_tools P S)" "tool_name t = call_name c"
    using dep c(2) by (auto simp: demo_deployment_def)
  have "\<not> requires_approval t (auto_approve_up_to D)"
    using un c(1,2) by (auto simp: list_all_iff needs_approval_def)
  then have "tool_risk t \<noteq> CRITICAL"
    using pol CRITICAL_greatest [of "auto_approve_up_to D"] by (metis requires_approval_iff order.not_eq_order_implies_strict)
  with handler_pays [OF t c(3)] show "pays_only {} L (snd (tool_handler t args L))"
    by (auto elim: pays_only_mono)
qed

text \<open>The books as a frame of the runner.\<close>

definition keeps_books :: "(ledger, 'r) agent_runner \<Rightarrow> (ledger, 'r) world \<Rightarrow> (ledger, 'r) world \<Rightarrow> bool" where
  "keeps_books D w w' \<longleftrightarrow>
     ((\<exists>P S. demo_deployment P S D) \<and> auto_approve_up_to D \<noteq> CRITICAL \<longrightarrow>
        pays_only {} (ext_state w) (ext_state w'))"

interpretation books: runner_frame D e "\<lambda>_. True" "keeps_books D" for D e
proof (unfold_locales, goal_cases)
  case (3 w)
  show ?case by (simp add: keeps_books_def)
next
  case (4 w1 w2 w3)
  then show ?case unfolding keeps_books_def by (blast intro: pays_only_trans)
next
  case (5 w)
  show ?case by (simp add: keeps_books_def await_def)
next
  case (6 req w res w')
  have "ext_state w' = snd (provider_complete (client_provider (runner_llm D)) req (ext_state w))"
    using 6 by (auto simp: llm_complete_def Let_def split: prod.splits sum.splits exn.splits)
  then show ?case by (auto simp: keeps_books_def demo_deployment_def)
next
  case (7 calls prio w rs w')
  then show ?case by (auto simp: keeps_books_def intro: unattended_tools_pay_nothing)
next
  case (8 cp i target why expected w out w')
  from transition_task_outside [OF 8(2)] show ?case by (simp add: keeps_books_def)
qed simp_all

lemma run_pays_nothing:
  assumes "demo_deployment P S D" "auto_approve_up_to D \<noteq> CRITICAL" "run D e i w = (out, w')"
  shows "pays_only {} (ext_state w) (ext_state w')"
  using books.G_run [OF assms(3)] assms(1,2) by (auto simp: keeps_books_def)

lemma resume_pays_what_was_approved:
  assumes dep: "demo_deployment P S D" "auto_approve_up_to D \<noteq> CRITICAL"
    and res: "resume D e i by_whom note w = (out, w')"
  shows "pays_only {} (ext_state w) (ext_state w') \<or>
    (\<exists>paused. repo_get (runner_repo D) i (store (await e w)) = Inr paused \<and>
       status paused = AWAITING_APPROVAL \<and>
       pays_only (set (task_pending_calls paused)) (ext_state w) (ext_state w'))"
  using res
proof (rule books.G_resume)
  assume "keeps_books D w w'"
  then show ?thesis using dep by (auto simp: keeps_books_def)
next
  fix paused cp t w1 w2 w3 rs
  assume G1: "keeps_books D w w2" and G2: "(\<And>m. with_tool_results rs = Inr m \<Longrightarrow> True) \<Longrightarrow> keeps_books D w3 w'"
    and rp: "require_paused D e i w = (Inr paused, w1)" and cp: "checkpoint paused = Some cp"
    and ex: "execute_all (runner_tools D) (finish_priority e (await_count w2)) (pending_calls cp) (await e w2) = (rs, w3)"
  let ?cs = "set (pending_calls cp)"
  have "pays_only {} (ext_state w) (ext_state w2)" "pays_only {} (ext_state w3) (ext_state w')"
    using G1 G2 dep by (auto simp: keeps_books_def)
  then have "pays_only ?cs (ext_state w) (ext_state w2)" "pays_only ?cs (ext_state w3) (ext_state w')"
    by (auto elim: pays_only_mono)
  moreover have "pays_only ?cs (ext_state w2) (ext_state w3)"
    using demo_tools_pay [OF dep(1) ex] by (simp add: await_def)
  ultimately have "pays_only ?cs (ext_state w) (ext_state w')"
    by (blast intro: pays_only_trans)
  then show ?thesis
    using rp cp by (auto simp: require_paused_eq task_pending_calls_def split: sum.splits if_splits)
qed

end
