(* ===== verification/Repository_Equivalence.thy ===== *)
theory Repository_Equivalence
  imports Postgres_Contract
begin

section \<open>Any repository under the contract answers like the in-memory one\<close>

text \<open>
  A client of the port issues a sequence of operations and sees their answers. \<open>repo_run\<close> collects
  the answers; a client that writes as the program does (\<open>ops_fit\<close>: storable tasks, each the next
  version of what it replaces, one identity per id, limits in range) cannot tell an adapter
  from the dictionary holding the tasks in their stored form. A server that orders the members of
  a \<open>jsonb\<close> object by length and bytes and refuses NUL characters is the concrete instance.
\<close>

datatype repo_op =
    Add agent_task
  | Get uuid
  | Update agent_task int
  | ListTasks "task_status option" int

datatype repo_answer =
    Wrote "exn + unit"
  | Task "exn + agent_task"
  | Tasks "exn + agent_task list"

fun repo_step :: "'r task_repo \<Rightarrow> repo_op \<Rightarrow> 'r \<Rightarrow> repo_answer \<times> 'r" where
  "repo_step R (Add t) r =
     (case repo_add R t r of Inl e \<Rightarrow> (Wrote (Inl e), r) | Inr r' \<Rightarrow> (Wrote (Inr ()), r'))"
| "repo_step R (Get i) r = (Task (repo_get R i r), r)"
| "repo_step R (Update t v) r =
     (case repo_update R t v r of Inl e \<Rightarrow> (Wrote (Inl e), r) | Inr r' \<Rightarrow> (Wrote (Inr ()), r'))"
| "repo_step R (ListTasks st n) r = (Tasks (repo_list_tasks R st n r), r)"

fun repo_run :: "'r task_repo \<Rightarrow> repo_op list \<Rightarrow> 'r \<Rightarrow> repo_answer list \<times> 'r" where
  "repo_run R [] r = ([], r)"
| "repo_run R (op # ops) r =
     (case repo_step R op r of (a, r1) \<Rightarrow>
        (case repo_run R ops r1 of (answers, r2) \<Rightarrow> (a # answers, r2)))"

fun op_tasks :: "repo_op \<Rightarrow> agent_task list" where
  "op_tasks (Add t) = [t]"
| "op_tasks (Update t v) = [t]"
| "op_tasks _ = []"

fun op_ok :: "(agent_task \<Rightarrow> bool) \<Rightarrow> repo_op \<Rightarrow> bool" where
  "op_ok sb (Add t) \<longleftrightarrow> sb t"
| "op_ok sb (Get i) \<longleftrightarrow> True"
| "op_ok sb (Update t v) \<longleftrightarrow> sb t \<and> version t = v + 1"
| "op_ok sb (ListTasks st n) \<longleftrightarrow> 0 \<le> n \<and> n < 2 ^ 63"

definition one_identity :: "agent_task list \<Rightarrow> bool" where
  "one_identity ts \<longleftrightarrow>
     list_all (\<lambda>t. list_all (\<lambda>u. task_id t = task_id u \<longrightarrow> same_identity t u) ts) ts"

definition ops_fit :: "(agent_task \<Rightarrow> bool) \<Rightarrow> repo_op list \<Rightarrow> bool" where
  "ops_fit sb ops \<longleftrightarrow> list_all (op_ok sb) ops \<and> one_identity (concat (map op_tasks ops))"

fun map_op :: "(agent_task \<Rightarrow> agent_task) \<Rightarrow> repo_op \<Rightarrow> repo_op" where
  "map_op f (Add t) = Add (f t)"
| "map_op f (Update t v) = Update (f t) v"
| "map_op f (Get i) = Get i"
| "map_op f (ListTasks st n) = ListTasks st n"

lemma one_identity_pair:
  "one_identity ts \<Longrightarrow> t \<in> set ts \<Longrightarrow> u \<in> set ts \<Longrightarrow> task_id t = task_id u \<Longrightarrow> same_identity t u"
  by (simp add: one_identity_def list_all_iff)

context task_repository
begin

text \<open>The stored tasks agree in identity with the tasks still to be written.\<close>

definition identities_agree :: "'r \<Rightarrow> agent_task list \<Rightarrow> bool" where
  "identities_agree r ts \<longleftrightarrow>
     (\<forall>i c t. lookup r i = Some c \<longrightarrow> t \<in> set ts \<longrightarrow> task_id t = i \<longrightarrow> same_identity c t)"

lemma step_like_memory:
  assumes inv: "invar r" "mem_invar s" and same: "lookup r = dict_get s"
    and fit: "op_ok storable op" and ids: "identities_agree r (op_tasks op)"
    and step: "repo_step R op r = (a, r')" "repo_step mem_port (map_op stored op) s = (b, s')"
  shows "a = b \<and> invar r' \<and> mem_invar s' \<and> lookup r' = dict_get s' \<and>
    (\<forall>i c. lookup r' i = Some c \<longrightarrow> lookup r i = Some c \<or> (\<exists>t \<in> set (op_tasks op). c = stored t))"
proof (cases op)
  case (Add t)
  have st: "storable t" using fit Add by simp
  show ?thesis
  proof (cases "lookup r (task_id t)")
    case None
    then have "dict_get s (task_id (stored t)) = None" using same by simp
    with add_new [OF inv(1) st None] mem.add_new [OF inv(2), of "stored t"]
    show ?thesis using step same Add by (auto split: if_splits)
  next
    case (Some c)
    then have "dict_get s (task_id (stored t)) = Some c" using same by simp
    with add_existing [OF inv(1) st Some] mem.add_existing [OF inv(2), of "stored t"]
    show ?thesis using step same Add inv by auto
  qed
next
  case (Update t v)
  have st: "storable t" "version t = v + 1" using fit Update by simp_all
  have st': "version (stored t) = v + 1" using st(2) by simp
  show ?thesis
  proof (cases "lookup r (task_id t)")
    case None
    then have "dict_get s (task_id (stored t)) = None" using same by simp
    with update_missing [OF inv(1) st None] mem.update_missing [OF inv(2) TrueI st']
    show ?thesis using step same Update inv by auto
  next
    case (Some c)
    then have look: "dict_get s (task_id (stored t)) = Some c" using same by simp
    show ?thesis
    proof (cases "version c = v")
      case False
      with update_stale [OF inv(1) st Some] mem.update_stale [OF inv(2) TrueI st' look]
      show ?thesis using step same Update inv by auto
    next
      case True
      have "same_identity c t" using ids Some Update by (simp add: identities_agree_def)
      moreover from this have "same_identity c (stored t)" by (simp add: same_identity_def)
      ultimately show ?thesis
        using update_current [OF inv(1) st Some True] mem.update_current [OF inv(2) TrueI st' look True]
          step same Update
        by (auto split: if_splits)
    qed
  qed
next
  case (Get i)
  then show ?thesis using step same inv by (simp add: get_law mem.get_law del: mem_port_sel)
next
  case (ListTasks st n)
  have "repo_list_tasks R st n r = repo_list_tasks mem_port st n s"
    using list_law [OF inv(1), of n st] mem.list_law [OF inv(2), of n st] fit ListTasks same
    by (metis is_listing_unique op_ok.simps(4))
  then show ?thesis using step same inv ListTasks by auto
qed

theorem runs_like_memory:
  assumes "invar r" "mem_invar s" "lookup r = dict_get s" "ops_fit storable ops"
    and "identities_agree r (concat (map op_tasks ops))"
  shows "fst (repo_run R ops r) = fst (repo_run mem_port (map (map_op stored) ops) s) \<and>
    invar (snd (repo_run R ops r)) \<and>
    lookup (snd (repo_run R ops r)) = dict_get (snd (repo_run mem_port (map (map_op stored) ops) s))"
  using assms
proof (induction ops arbitrary: r s)
  case Nil
  then show ?case by simp
next
  case (Cons op ops)
  obtain a r' b s' where steps: "repo_step R op r = (a, r')" "repo_step mem_port (map_op stored op) s = (b, s')"
    by (metis surj_pair)
  have "op_ok storable op" "identities_agree r (op_tasks op)"
    using Cons.prems(4,5) by (simp_all add: ops_fit_def identities_agree_def)
  from step_like_memory [OF Cons.prems(1-3) this steps]
  have st: "a = b" "invar r'" "mem_invar s'" "lookup r' = dict_get s'"
      "\<forall>i c. lookup r' i = Some c \<longrightarrow> lookup r i = Some c \<or> (\<exists>t \<in> set (op_tasks op). c = stored t)"
    by blast+
  have "ops_fit storable ops"
    using Cons.prems(4) by (auto simp: ops_fit_def one_identity_def list_all_iff)
  moreover have "identities_agree r' (concat (map op_tasks ops))"
    unfolding identities_agree_def
  proof (intro allI impI)
    fix i c t
    assume c: "lookup r' i = Some c" and t: "t \<in> set (concat (map op_tasks ops))" "task_id t = i"
    from st(5) c consider "lookup r i = Some c" | u where "u \<in> set (op_tasks op)" "c = stored u" by blast
    then show "same_identity c t"
    proof cases
      case 1
      then show ?thesis using Cons.prems(5) t by (simp add: identities_agree_def)
    next
      case (2 u)
      have "task_id u = i" using lookup_id [OF st(2) c] 2(2) by simp
      then have "same_identity u t"
        using one_identity_pair [of "concat (map op_tasks (op # ops))" u t] Cons.prems(4) 2(1) t
        by (auto simp: ops_fit_def)
      then show ?thesis using 2(2) by (simp add: same_identity_def)
    qed
  qed
  ultimately show ?case
    using Cons.IH [OF st(2,3,4)] st(1) steps by (auto split: prod.splits)
qed

end


subsection \<open>A server\<close>

text \<open>
  \<open>jsonb\<close> as PostgreSQL documents it: object members in order of key length, then of key bytes;
  a NUL character, which its text type cannot hold, is an error.
\<close>

definition has_nul :: "string \<Rightarrow> bool" where
  "has_nul s \<longleftrightarrow> list_ex (\<lambda>c. c = CHR 0x00) s"

definition key_bytes :: "string \<Rightarrow> int" where
  "key_bytes s = foldl (\<lambda>a c. a * 256 + of_char c) 0 s"

fun jsonb_storable :: "json \<Rightarrow> bool" where
  "jsonb_storable (JStr s) \<longleftrightarrow> \<not> has_nul s"
| "jsonb_storable (JList vs) \<longleftrightarrow> (\<forall>v \<in> set vs. jsonb_storable v)"
| "jsonb_storable (JObj d) \<longleftrightarrow> distinct (map fst d) \<and> (\<forall>(k, v) \<in> set d. \<not> has_nul k \<and> jsonb_storable v)"
| "jsonb_storable _ \<longleftrightarrow> True"

fun jsonb_canonical :: "json \<Rightarrow> json" where
  "jsonb_canonical (JList vs) = JList (map jsonb_canonical vs)"
| "jsonb_canonical (JObj d) =
     JObj (sort_key (\<lambda>(k, v). (int (length k), key_bytes k)) (map (\<lambda>(k, v). (k, jsonb_canonical v)) d))"
| "jsonb_canonical v = v"

definition demo_postgres :: postgres where
  "demo_postgres = \<lparr>accepts_text = (\<lambda>s. \<not> has_nul s),
     jsonb = (\<lambda>v. if jsonb_storable v then Some (jsonb_canonical v) else None),
     data_error = OtherError ''DataError'' [], check_violation = OtherError ''CheckViolationError'' [],
     undefined_table = OtherError ''UndefinedTableError'' []\<rparr>"

lemma distinct_fst_sort_key: "distinct (map fst xs) \<Longrightarrow> distinct (map fst (sort_key k xs))"
  by (simp add: distinct_map)

lemma map_of_sort_key: "distinct (map fst xs) \<Longrightarrow> map_of (sort_key k xs) = map_of xs"
  by (subst map_of_inject_set) (simp_all add: distinct_fst_sort_key)

lemma jsonb_canonical_equiv: "jsonb_storable v \<Longrightarrow> json_equiv v (jsonb_canonical v)"
proof (induction v rule: jsonb_canonical.induct)
  case (1 vs)
  then show ?case by (auto simp: list_all2_conv_all_nth)
next
  case (2 d)
  let ?d = "map (\<lambda>(k, v). (k, jsonb_canonical v)) d"
  have "map fst ?d = map fst d" by auto
  moreover have "distinct (map fst d)" using 2(2) by simp
  ultimately have d: "distinct (map fst ?d)" by (simp only:)
  have "rel_option json_equiv (map_of d k) (map_of ?d k)" for k
  proof (cases "map_of d k")
    case (Some v)
    then have "(k, v) \<in> set d" by (rule map_of_SomeD)
    then have "json_equiv v (jsonb_canonical v)" using 2 by auto
    then show ?thesis using Some by (simp add: map_of_map)
  qed (simp add: map_of_map)
  then show ?case
    unfolding jsonb_canonical.simps by (intro json_equiv.Obj) (simp only: map_of_sort_key [OF d])
qed (auto intro: json_equiv_refl)

text \<open>A validator library whose times are decimal microseconds.\<close>

definition demo_pydantic :: pydantic where
  "demo_pydantic = \<lparr>
     lax_int = (\<lambda>v. case v of JInt i \<Rightarrow> Some i | JBool b \<Rightarrow> Some (of_bool b)
       | JFloat s \<Rightarrow> if integral_float s then Some (parse_int (take (length s - 2) s)) else None
       | _ \<Rightarrow> None),
     lax_bool = (\<lambda>v. case v of JBool b \<Rightarrow> Some b
       | JInt i \<Rightarrow> if i = 0 then Some False else if i = 1 then Some True else None | _ \<Rightarrow> None),
     lax_float = (\<lambda>v. case v of JFloat s \<Rightarrow> Some s | JInt i \<Rightarrow> Some (int_str i @ ''.0'') | _ \<Rightarrow> None),
     lax_datetime = (\<lambda>v. case v of JStr s \<Rightarrow> Some (parse_int s) | _ \<Rightarrow> None),
     json_datetime = int_str,
     refuses_field = (\<lambda>k. k \<in> {''model_dump'', ''model_validate'', ''model_fields'', ''model_copy''})\<rparr>"

lemma demo_pydantic_ok: "pydantic_ok demo_pydantic"
  by (simp add: pydantic_ok_def demo_pydantic_def)

lemma demo_postgres_ok: "postgres_ok demo_postgres"
  by (simp add: postgres_ok_def demo_postgres_def jsonb_canonical_equiv)

interpretation demo_server: postgres_server demo_pydantic demo_postgres
  by unfold_locales (rule demo_pydantic_ok demo_postgres_ok)+


subsection \<open>A connected adapter\<close>

text \<open>After \<open>connect(create_schema=True)\<close> on an empty database.\<close>

definition pg_fresh :: pg_repo where
  "pg_fresh = \<lparr>pool = True, pg_table = Some []\<rparr>"

lemma connect_fresh: "pg_connect None True pg_init = Inr pg_fresh"
  by (simp add: pg_connect_def pg_init_def apply_schema_def create_table_def pg_fresh_def)

lemma pg_fresh_facts:
  "pg_invar P D pg_fresh" "pg_lookup P pg_fresh = dict_get mem_empty"
  by (simp_all add: pg_fresh_def pg_invar_def pg_lookup_def select_by_id_def mem_empty_def fun_eq_iff)

context postgres_server
begin

lemma fresh_runs_like_memory:
  assumes "ops_fit (pg_storable P D) ops"
  shows "fst (repo_run (pg_port P D) ops pg_fresh) =
    fst (repo_run mem_port (map (map_op (pg_stored P D)) ops) mem_empty)"
proof -
  have "mem_invar mem_empty" "pg.identities_agree pg_fresh (concat (map op_tasks ops))"
    by (simp_all add: mem_empty_def mem_invar_def dict_wf_def pg.identities_agree_def pg_fresh_facts)
  from pg.runs_like_memory [OF pg_fresh_facts(1) this(1) pg_fresh_facts(2) assms this(2)]
  show ?thesis by blast
qed

end

text \<open>Connecting twice changes nothing; a closed adapter refuses every operation.\<close>

lemma connect_idempotent: "pool r \<Longrightarrow> pg_connect outcome c r = Inr r"
  by (simp add: pg_connect_def)

lemma closed_refuses:
  "repo_get (pg_port P D) i (pg_aclose r) =
     Inl (RuntimeError ''repository is not connected; call connect() first'')"
  by (simp add: pg_get_def acquire_def pg_aclose_def)

text \<open>A refused update changes nothing itself, whatever moved between its two statements.\<close>

lemma refused_update_writes_nothing:
  assumes "pg_update P D between t v r = (Inl e, r')"
  shows "r' = r \<or> (\<exists>rows. pg_table r = Some rows \<and> r' = r\<lparr>pg_table := Some (between rows)\<rparr>)"
proof -
  have none: "rows' = rows" if "update_if_version_matches D i x f rows = Inr (None, rows')" for i x f rows rows'
  proof -
    have "List.find (\<lambda>row. row_id row = i \<and> row_version row = x) rows = None"
        "rows' = map (\<lambda>row. if row_id row = i \<and> row_version row = x then f row else row) rows"
      using that by (auto simp: update_if_version_matches_def Let_def split: if_splits)
    then show ?thesis by (auto simp: find_None_iff intro!: map_idI)
  qed
  from assms show ?thesis
    by (auto simp: pg_update_def Let_def and_then_Inr acquire_def
             split: sum.splits prod.splits option.splits if_splits) (drule none, simp)+
qed

text \<open>
  What other connections do between the two statements of a refused update might as well have happened
  before it: they run at the \<open>await\<close> of the call then, and \<open>pg_port\<close> leaves the suspension out. Versions
  only grow, so the rows that moved on do not come back to the one that was refused.
\<close>

lemma update_suspension_absorbed:
  assumes "pg_table r = Some rows" "pg_update P D between t v r = (Inl e, r')"
    and "\<forall>row \<in> set rows. row_id row = task_id t \<longrightarrow> row_version row \<noteq> v"
    and "\<forall>row \<in> set (between rows). row_id row = task_id t \<longrightarrow> row_version row \<noteq> v"
    and "r' \<noteq> r"
  shows "pg_update P D (\<lambda>rows. rows) t v (r\<lparr>pg_table := Some (between rows)\<rparr>) = (Inl e, r')"
proof -
  have miss: "update_if_version_matches D (task_id t) v f rows' = Inr (None, rows')"
    if "\<forall>row \<in> set rows'. row_id row = task_id t \<longrightarrow> row_version row \<noteq> v" for f rows'
  proof -
    have "List.find (\<lambda>row. row_id row = task_id t \<and> row_version row = v) rows' = None"
      using that by (auto simp: find_None_iff)
    moreover have "map (\<lambda>row. if row_id row = task_id t \<and> row_version row = v then f row else row) rows' = rows'"
      using that by (intro map_idI) auto
    ultimately show ?thesis
      using that by (auto simp: update_if_version_matches_def Let_def list_ex_iff)
  qed
  have e: "bind_int4 D v = Inr x \<Longrightarrow> x = v" for x by (auto simp: bind_int4_def split: if_splits)
  from assms(1,2,5) show ?thesis
    by (auto simp: pg_update_def Let_def and_then_Inr acquire_def miss [OF assms(3)] miss [OF assms(4)]
             dest!: e split: sum.splits prod.splits option.splits if_splits)
qed

end
