(* ===== verification/MCP_Transport.thy ===== *)
theory MCP_Transport
  imports MCP_Protocol
begin

section \<open>The stdio transport (\<open>mcp/transport.py\<close>)\<close>

text \<open>
  The transport multiplexes concurrent requests over one pipe: each registers a future under a
  fresh id, the reader task hands a reply to the future waiting on its id, and a request that ends,
  however it ends, retires its id. The state and each method's effect on it are functions; the
  interleaving of requests, reader, deadlines and shutdown is the step relation \<open>channel_step\<close>.
  Processes and pipes are the operating system's: whether a write succeeds and what the reader
  gets from the pipe are inputs of the steps. \<open>json.loads\<close> of a line is such an input too, \<open>None\<close>
  where it raises.
\<close>

datatype future = Waiting | Done "exn + json_object"

record transport_state =
  tp_started :: bool
  tp_pending :: "(int, future) dict"
  tp_next_id :: int
  tp_closed :: bool

definition transport_init :: transport_state where
  "transport_init = \<lparr>tp_started = False, tp_pending = [], tp_next_id = 0, tp_closed = False\<rparr>"

abbreviation transport_error :: "string \<Rightarrow> exn" where
  "transport_error m \<equiv> MCP (MCPTransportError m)"

text \<open>\<open>start\<close>; whether the process could be created is \<open>spawned\<close>.\<close>

definition transport_start :: "string \<Rightarrow> bool \<Rightarrow> transport_state \<Rightarrow> exn + transport_state" where
  "transport_start command spawned st =
     (if tp_started st then Inl (RuntimeError ''transport already started'')
      else if \<not> spawned
      then Inl (transport_error (''could not start MCP server '' @ quoted command))
      else Inr (st\<lparr>tp_started := True\<rparr>))"


subsection \<open>Sending\<close>

definition request_message :: "int \<Rightarrow> string \<Rightarrow> json_object option \<Rightarrow> json_object" where
  "request_message i method params =
     [(''jsonrpc'', JStr JSONRPC_VERSION), (''id'', JInt i), (''method'', JStr method)] @
     (case params of None \<Rightarrow> [] | Some p \<Rightarrow> [(''params'', JObj p)])"

definition notify_message :: "string \<Rightarrow> json_object option \<Rightarrow> json_object" where
  "notify_message method params =
     [(''jsonrpc'', JStr JSONRPC_VERSION), (''method'', JStr method)] @
     (case params of None \<Rightarrow> [] | Some p \<Rightarrow> [(''params'', JObj p)])"

text \<open>\<open>_write\<close>: \<open>accepted\<close> says whether the pipe took the line.\<close>

definition write_outcome :: "bool \<Rightarrow> transport_state \<Rightarrow> exn + unit" where
  "write_outcome accepted st =
     (if tp_closed st \<or> \<not> tp_started st then Inl (transport_error ''MCP transport is not connected'')
      else if \<not> accepted then Inl (transport_error ''MCP server closed its input stream'')
      else Inr ())"

definition begin_request :: "transport_state \<Rightarrow> int \<times> transport_state" where
  "begin_request st =
     (let i = tp_next_id st + 1 in
      (i, st\<lparr>tp_next_id := i, tp_pending := dict_set i Waiting (tp_pending st)\<rparr>))"

text \<open>The \<open>finally\<close> of \<open>request\<close>.\<close>

definition retire :: "int \<Rightarrow> transport_state \<Rightarrow> transport_state" where
  "retire i st = st\<lparr>tp_pending := AList.delete i (tp_pending st)\<rparr>"


subsection \<open>Receiving\<close>

text \<open>\<open>isinstance(message_id, int)\<close>, with Python's \<open>True\<close> and \<open>False\<close> for 1 and 0.\<close>

definition int_value :: "json \<Rightarrow> int option" where
  "int_value v = (case v of JInt i \<Rightarrow> Some i | JBool b \<Rightarrow> Some (of_bool b) | _ \<Rightarrow> None)"

text \<open>The code of an error: \<open>code if isinstance(code, int) else -32000\<close>.\<close>

definition error_code :: "json \<Rightarrow> py_int" where
  "error_code v = (case v of JInt i \<Rightarrow> PyInt i | JBool b \<Rightarrow> PyBool b | _ \<Rightarrow> PyInt (- 32000))"

definition reply_value :: "json_object \<Rightarrow> exn + json_object" where
  "reply_value message =
     (case get_or_null message ''error'' of
        JObj error \<Rightarrow>
          let detail = get_or_null error ''message'' in
          Inl (MCP (MCPRemoteError (error_code (get_or_null error ''code''))
            (if detail \<noteq> JNull then py_str detail else ''unspecified'')))
      | _ \<Rightarrow>
          (case get_or_null message ''result'' of
             JObj result \<Rightarrow> Inr result
           | _ \<Rightarrow> Inl (MCP (MCPProtocolError ''MCP response carried no result object''))))"

definition dispatch :: "json option \<Rightarrow> transport_state \<Rightarrow> transport_state" where
  "dispatch raw st =
     (case raw of
        Some (JObj message) \<Rightarrow>
          (case int_value (get_or_null message ''id'') of
             None \<Rightarrow> st
           | Some message_id \<Rightarrow>
               (case dict_get (tp_pending st) message_id of
                  Some Waiting \<Rightarrow>
                    st\<lparr>tp_pending := dict_set message_id (Done (reply_value message)) (tp_pending st)\<rparr>
                | _ \<Rightarrow> st))
      | _ \<Rightarrow> st)"

definition fail_pending :: "exn \<Rightarrow> transport_state \<Rightarrow> transport_state" where
  "fail_pending e st = st\<lparr>tp_pending :=
     map (\<lambda>(i, f). (i, if f = Waiting then Done (Inl e) else f)) (tp_pending st)\<rparr>"

text \<open>
  What \<open>readline\<close> gave the reader, and whether the reader goes on. \<open>LoadFails\<close> is a line on which
  \<open>json.loads\<close> raises something else than \<open>JSONDecodeError\<close>, with the \<open>repr\<close> of what it raised: the
  reader's last handler turns it into the end of the channel.
\<close>

datatype frame = Line "json option" | Blank | TooLarge | LoadFails string | EndOfStream

definition MAX_FRAME_BYTES :: int where "MAX_FRAME_BYTES = 4 * 1024 * 1024"

definition read_frame :: "frame \<Rightarrow> transport_state \<Rightarrow> bool \<times> transport_state" where
  "read_frame f st =
     (case f of
        Line raw \<Rightarrow> (True, dispatch raw st)
      | Blank \<Rightarrow> (True, st)
      | TooLarge \<Rightarrow> (False, fail_pending (transport_error
          (''MCP server sent a frame larger than '' @ int_str MAX_FRAME_BYTES @ '' bytes'')) st)
      | LoadFails e \<Rightarrow> (False, fail_pending (transport_error (''MCP transport failed: '' @ e)) st)
      | EndOfStream \<Rightarrow> (False, fail_pending (transport_error ''MCP server closed its output stream'') st))"


subsection \<open>Closing\<close>

text \<open>
  How the child is brought down: closing its input, then two signals, each only if it has not
  exited within the grace period before.
\<close>

datatype shutdown_action = CloseStdin | Terminate | Kill | Wait

definition shutdown_actions :: "bool \<Rightarrow> bool \<Rightarrow> bool \<Rightarrow> bool \<Rightarrow> shutdown_action list" where
  "shutdown_actions running stdin_open exits_when_asked exits_on_term =
     (if \<not> running then []
      else (if stdin_open then [CloseStdin] else []) @ [Wait] @
        (if exits_when_asked then []
         else [Terminate, Wait] @ (if exits_on_term then [] else [Kill, Wait])))"

definition transport_aclose :: "transport_state \<Rightarrow> transport_state" where
  "transport_aclose st =
     (if tp_closed st then st
      else if \<not> tp_started st then st\<lparr>tp_closed := True\<rparr>
      else fail_pending (transport_error ''MCP transport closed'') (st\<lparr>tp_closed := True\<rparr>))"

lemma kill_is_last_resort:
  "Kill \<in> set (shutdown_actions r s a t) \<longleftrightarrow> r \<and> \<not> a \<and> \<not> t"
  by (simp add: shutdown_actions_def)

lemma aclose_idempotent: "transport_aclose (transport_aclose st) = transport_aclose st"
  by (simp add: transport_aclose_def fail_pending_def)


subsection \<open>Requests, reader, deadlines and shutdown interleaved\<close>

text \<open>
  The channel records what happened, in order. A request is \<open>Issued\<close> when it has registered its future
  and passed the check of \<open>_write\<close>; it then queues for the write lock, hands its line to the pipe
  (\<open>Sent\<close>) and drains. \<open>ch_writing\<close> are the requests whose \<open>_write\<close> has not finished, the holder of
  the lock first. The reader runs at any time, so a future may be resolved before its request is
  written; the request still returns only after its \<open>_write\<close>.
\<close>

datatype channel_event =
    Issued int
  | Sent int
  | Received json_object
  | Returned int "exn + json_object"
  | Abandoned int

record channel =
  ch_state :: transport_state
  ch_reading :: bool
  ch_writing :: "int list"
  ch_log :: "channel_event list"

abbreviation input_closed :: exn where
  "input_closed \<equiv> transport_error ''MCP server closed its input stream''"

inductive channel_step :: "channel \<Rightarrow> channel \<Rightarrow> bool" where
  Issue: "begin_request (ch_state c) = (i, st) \<Longrightarrow> write_outcome True st = Inr () \<Longrightarrow>
    channel_step c (c\<lparr>ch_state := st, ch_writing := ch_writing c @ [i], ch_log := ch_log c @ [Issued i]\<rparr>)"
| Refuse: "begin_request (ch_state c) = (i, st) \<Longrightarrow> write_outcome True st = Inl e \<Longrightarrow>
    channel_step c (c\<lparr>ch_state := retire i st, ch_log := ch_log c @ [Issued i, Returned i (Inl e)]\<rparr>)"
| Write: "ch_writing c = i # waiting \<Longrightarrow> Sent i \<notin> set (ch_log c) \<Longrightarrow>
    channel_step c (c\<lparr>ch_log := ch_log c @ [Sent i]\<rparr>)"
| Drain: "ch_writing c = i # waiting \<Longrightarrow> Sent i \<in> set (ch_log c) \<Longrightarrow>
    channel_step c (c\<lparr>ch_writing := waiting\<rparr>)"
| WriteFails: "ch_writing c = i # waiting \<Longrightarrow>
    channel_step c (c\<lparr>ch_state := retire i (ch_state c), ch_writing := waiting,
      ch_log := ch_log c @ [Returned i (Inl input_closed)]\<rparr>)"
| Return: "dict_get (tp_pending (ch_state c)) i = Some (Done r) \<Longrightarrow> i \<notin> set (ch_writing c) \<Longrightarrow>
    channel_step c (c\<lparr>ch_state := retire i (ch_state c), ch_log := ch_log c @ [Returned i r]\<rparr>)"
| Abandon: "dict_get (tp_pending (ch_state c)) i = Some f \<Longrightarrow>
    channel_step c (c\<lparr>ch_state := retire i (ch_state c), ch_writing := removeAll i (ch_writing c),
      ch_log := ch_log c @ [Abandoned i]\<rparr>)"
| Read: "ch_reading c \<Longrightarrow> read_frame f (ch_state c) = (goes_on, st) \<Longrightarrow>
    channel_step c (c\<lparr>ch_state := st, ch_reading := goes_on,
      ch_log := ch_log c @ (case f of Line (Some (JObj m)) \<Rightarrow> [Received m] | _ \<Rightarrow> [])\<rparr>)"
| Close: "channel_step c (c\<lparr>ch_state := transport_aclose (ch_state c), ch_reading := False\<rparr>)"

inductive_cases channel_stepE: "channel_step c c'"

abbreviation channel_reaches :: "channel \<Rightarrow> channel \<Rightarrow> bool" where
  "channel_reaches \<equiv> channel_step\<^sup>*\<^sup>*"

definition channel_open :: channel where
  "channel_open = \<lparr>ch_state = transport_init\<lparr>tp_started := True\<rparr>, ch_reading = True, ch_writing = [], ch_log = []\<rparr>"

text \<open>
  \<open>replied\<close>: a message that answers \<open>i\<close> with \<open>r\<close> was received after \<open>i\<close> was issued; \<open>answered\<close>: after the
  request was written, which holds where no other request contends for the lock.
\<close>

definition answer_for :: "json_object \<Rightarrow> int \<Rightarrow> json_object \<Rightarrow> bool" where
  "answer_for m i r \<longleftrightarrow> int_value (get_or_null m ''id'') = Some i \<and> reply_value m = Inr r"

definition replied :: "channel_event list \<Rightarrow> int \<Rightarrow> json_object \<Rightarrow> bool" where
  "replied log i r \<longleftrightarrow> (\<exists>a b c m. log = a @ Issued i # b @ Received m # c \<and> answer_for m i r)"

definition answered :: "channel_event list \<Rightarrow> int \<Rightarrow> json_object \<Rightarrow> bool" where
  "answered log i r \<longleftrightarrow> (\<exists>a b c m. log = a @ Sent i # b @ Received m # c \<and> answer_for m i r)"

fun ended :: "channel_event \<Rightarrow> int list" where
  "ended (Returned i _) = [i]"
| "ended (Abandoned i) = [i]"
| "ended _ = []"

definition ended_ids :: "channel_event list \<Rightarrow> int list" where
  "ended_ids log = concat (map ended log)"

lemma ended_ids_append [simp]: "ended_ids (xs @ ys) = ended_ids xs @ ended_ids ys"
  by (simp add: ended_ids_def)

lemma ended_ids_Cons [simp]: "ended_ids (x # xs) = ended x @ ended_ids xs" "ended_ids [] = []"
  by (simp_all add: ended_ids_def)

lemma replied_append: "replied log i r \<Longrightarrow> replied (log @ rest) i r"
  unfolding replied_def by (metis append.assoc append_Cons)

lemma replied_received:
  assumes "Issued i \<in> set log" "Received m \<in> set rest" "answer_for m i r"
  shows "replied (log @ rest) i r"
proof -
  obtain a b c d where "log = a @ Issued i # b" "rest = c @ Received m # d"
    using assms(1,2) by (meson split_list)
  then show ?thesis
    unfolding replied_def using assms(3) by (intro exI [of _ a] exI [of _ "b @ c"] exI [of _ d] exI [of _ m]) simp
qed

lemma answered_received:
  assumes "Sent i \<in> set log" "Received m \<in> set rest" "answer_for m i r"
  shows "answered (log @ rest) i r"
proof -
  obtain a b c d where "log = a @ Sent i # b" "rest = c @ Received m # d"
    using assms(1,2) by (meson split_list)
  then show ?thesis
    unfolding answered_def using assms(3) by (intro exI [of _ a] exI [of _ "b @ c"] exI [of _ d] exI [of _ m]) simp
qed

text \<open>Every result was returned after the request was written and a message had answered it.\<close>

definition returned_ok :: "channel_event list \<Rightarrow> bool" where
  "returned_ok log \<longleftrightarrow>
     (\<forall>a b i r. log = a @ Returned i (Inr r) # b \<longrightarrow> Sent i \<in> set a \<and> replied a i r)"

lemma returned_ok_Nil [simp]: "returned_ok []"
  by (simp add: returned_ok_def)

lemma returned_ok_snoc:
  "returned_ok (log @ [x]) \<longleftrightarrow>
   returned_ok log \<and> (\<forall>i r. x = Returned i (Inr r) \<longrightarrow> Sent i \<in> set log \<and> replied log i r)"
proof -
  have split: "log @ [x] = a @ y # b \<longleftrightarrow> (b = [] \<and> a = log \<and> x = y) \<or> (\<exists>b'. b = b' @ [x] \<and> log = a @ y # b')" for a y b
    by (cases b rule: rev_cases) auto
  show ?thesis unfolding returned_ok_def split by auto
qed

definition pending_ok :: "transport_state \<Rightarrow> channel_event list \<Rightarrow> bool" where
  "pending_ok st log \<longleftrightarrow>
     (\<forall>i f. dict_get (tp_pending st) i = Some f \<longrightarrow>
        i \<le> tp_next_id st \<and> Issued i \<in> set log \<and> i \<notin> set (ended_ids log) \<and>
        (\<forall>r. f = Done (Inr r) \<longrightarrow> replied log i r))"

text \<open>The requests that are still writing are pending ones, and every other pending one has been written.\<close>

definition writing_ok :: "channel \<Rightarrow> bool" where
  "writing_ok c \<longleftrightarrow> distinct (ch_writing c) \<and>
     (\<forall>i \<in> set (ch_writing c). dict_get (tp_pending (ch_state c)) i \<noteq> None) \<and>
     (\<forall>i. dict_get (tp_pending (ch_state c)) i \<noteq> None \<longrightarrow> i \<in> set (ch_writing c) \<or> Sent i \<in> set (ch_log c))"

definition channel_inv :: "channel \<Rightarrow> bool" where
  "channel_inv c \<longleftrightarrow>
     pending_ok (ch_state c) (ch_log c) \<and> writing_ok c \<and>
     (\<forall>i \<in> set (ended_ids (ch_log c)). i \<le> tp_next_id (ch_state c)) \<and>
     distinct (ended_ids (ch_log c)) \<and> returned_ok (ch_log c)"

text \<open>The dictionary of pending requests after each method.\<close>

lemma begin_request_eq:
  "begin_request st = (i, st') \<longleftrightarrow> i = tp_next_id st + 1 \<and>
     st' = st\<lparr>tp_next_id := i, tp_pending := dict_set i Waiting (tp_pending st)\<rparr>"
  by (auto simp: begin_request_def Let_def)

lemma retire_sel [simp]:
  "dict_get (tp_pending (retire i st)) = (dict_get (tp_pending st))(i := None)"
  "tp_next_id (retire i st) = tp_next_id st" "tp_started (retire i st) = tp_started st"
  "tp_closed (retire i st) = tp_closed st"
  by (simp_all add: retire_def delete_conv' fun_eq_iff)

lemma fail_pending_sel [simp]:
  "dict_get (tp_pending (fail_pending e st)) i =
     map_option (\<lambda>f. if f = Waiting then Done (Inl e) else f) (dict_get (tp_pending st) i)"
  "tp_next_id (fail_pending e st) = tp_next_id st" "tp_started (fail_pending e st) = tp_started st"
  "tp_closed (fail_pending e st) = tp_closed st"
  by (simp_all add: fail_pending_def map_of_map)

lemma dispatch_cases:
  "dispatch raw st = st \<or>
   (\<exists>m i. raw = Some (JObj m) \<and> int_value (get_or_null m ''id'') = Some i \<and>
      dict_get (tp_pending st) i = Some Waiting \<and>
      dispatch raw st = st\<lparr>tp_pending := dict_set i (Done (reply_value m)) (tp_pending st)\<rparr>)"
  by (auto simp: dispatch_def split: option.split json.split future.split)

text \<open>A reply for an id nobody waits on is dropped.\<close>

lemma late_reply_dropped:
  "int_value (get_or_null m ''id'') = Some i \<Longrightarrow> dict_get (tp_pending st) i = None \<Longrightarrow>
   dispatch (Some (JObj m)) st = st"
  by (simp add: dispatch_def)

text \<open>A message whose id is the JSON value true answers request 1.\<close>

lemma true_answers_first_request:
  "dict_get (tp_pending st) 1 = Some Waiting \<Longrightarrow>
   dict_get (tp_pending (dispatch (Some (JObj [(''id'', JBool True), (''result'', JObj r)])) st)) 1 =
     Some (Done (Inr r))"
  by (simp add: dispatch_def get_or_null_def int_value_def reply_value_def dict_get_set)

text \<open>Once the stream ends or the transport is closed, nobody waits for ever.\<close>

lemma nobody_waits_after_failure:
  "dict_get (tp_pending (fail_pending e st)) i \<noteq> Some Waiting"
  by auto


subsection \<open>The invariant\<close>

lemma pending_ok_log:
  "pending_ok st log \<Longrightarrow> (\<And>i f. dict_get (tp_pending st) i = Some f \<Longrightarrow> i \<notin> set (ended_ids rest)) \<Longrightarrow>
   pending_ok st (log @ rest)"
  by (auto simp: pending_ok_def replied_append)

lemma pending_ok_fail: "pending_ok st log \<Longrightarrow> pending_ok (fail_pending e st) log"
  by (auto simp: pending_ok_def split: if_splits)

text \<open>A request that ends retires its id and is logged once.\<close>

lemma pending_ok_retire:
  assumes "pending_ok st log" "ended x = [i]"
  shows "pending_ok (retire i st) (log @ [x])"
proof -
  have "pending_ok (retire i st) log" using assms(1) by (auto simp: pending_ok_def)
  then show ?thesis using assms(2) by (intro pending_ok_log) (auto split: if_splits)
qed

lemma pending_ok_received:
  assumes "pending_ok st log"
  shows "pending_ok (dispatch (Some (JObj m)) st) (log @ [Received m])"
proof -
  have base: "pending_ok st (log @ [Received m])"
    using assms by (rule pending_ok_log) simp
  from dispatch_cases [of "Some (JObj m)" st] show ?thesis
  proof (elim disjE exE conjE)
    assume "dispatch (Some (JObj m)) st = st"
    with base show ?thesis by simp
  next
    fix m' i
    assume m': "Some (JObj m) = Some (JObj m')" "int_value (get_or_null m' ''id'') = Some i"
      and w: "dict_get (tp_pending st) i = Some Waiting"
      and d: "dispatch (Some (JObj m)) st = st\<lparr>tp_pending := dict_set i (Done (reply_value m')) (tp_pending st)\<rparr>"
    have mm: "m' = m" using m'(1) by simp
    note m' = m'(2) [unfolded mm] and d = d [unfolded mm]
    have "Issued i \<in> set log" using assms w by (simp add: pending_ok_def)
    then have "replied (log @ [Received m]) i r" if "reply_value m = Inr r" for r
      using that m' by (intro replied_received) (auto simp: answer_for_def)
    then show ?thesis
      using base m' w by (auto simp: d pending_ok_def dict_get_set split: if_splits)
  qed
qed

lemma dispatch_domain: "dict_get (tp_pending (dispatch raw st)) i = None \<longleftrightarrow> dict_get (tp_pending st) i = None"
  using dispatch_cases [of raw st] by (auto simp: dict_get_set split: if_splits)

lemma dispatch_next_id: "tp_next_id (dispatch raw st) = tp_next_id st"
  using dispatch_cases [of raw st] by auto

lemma read_frame_domain:
  "read_frame f st = (goes_on, st') \<Longrightarrow>
   tp_next_id st' = tp_next_id st \<and> (dict_get (tp_pending st') i = None \<longleftrightarrow> dict_get (tp_pending st) i = None)"
  by (auto simp: read_frame_def dispatch_domain dispatch_next_id split: frame.splits)

lemma read_frame_pending:
  assumes "pending_ok st log" "read_frame f st = (goes_on, st')"
  shows "pending_ok st' (log @ (case f of Line (Some (JObj m)) \<Rightarrow> [Received m] | _ \<Rightarrow> []))"
proof (cases "\<exists>m. f = Line (Some (JObj m))")
  case True
  then show ?thesis
    using assms pending_ok_received by (auto simp: read_frame_def)
next
  case False
  have same: "dispatch raw st = st" if "\<nexists>m. raw = Some (JObj m)" for raw
    using that dispatch_cases [of raw st] by blast
  have "(case f of Line (Some (JObj m)) \<Rightarrow> [Received m] | _ \<Rightarrow> []) = []"
    using False by (auto split: frame.splits option.splits json.splits)
  moreover have "st' = st \<or> (\<exists>e. st' = fail_pending e st)"
    using assms(2) False same by (auto simp: read_frame_def split: frame.splits)
  ultimately show ?thesis using assms(1) pending_ok_fail [OF assms(1)] by auto
qed

text \<open>A new id: nothing pending, ended or writing has it.\<close>

lemma fresh_id:
  assumes "channel_inv c" "begin_request (ch_state c) = (i, st)"
  shows "i \<notin> set (ended_ids (ch_log c))" "dict_get (tp_pending (ch_state c)) i = None" "i \<notin> set (ch_writing c)"
proof -
  have i: "i = tp_next_id (ch_state c) + 1" using assms(2) by (simp add: begin_request_eq)
  then show "i \<notin> set (ended_ids (ch_log c))" using assms(1) by (force simp: channel_inv_def)
  show none: "dict_get (tp_pending (ch_state c)) i = None"
  proof (cases "dict_get (tp_pending (ch_state c)) i")
    case (Some f)
    then have "i \<le> tp_next_id (ch_state c)" using assms(1) unfolding channel_inv_def pending_ok_def by blast
    then show ?thesis using i by simp
  qed simp
  then show "i \<notin> set (ch_writing c)" using assms(1) unfolding channel_inv_def writing_ok_def by blast
qed

text \<open>A pending request leaves, whether it returns or is abandoned.\<close>

lemma channel_inv_leave:
  assumes inv: "channel_inv c" and i: "dict_get (tp_pending (ch_state c)) i \<noteq> None" and x: "ended x = [i]"
    and result: "\<And>r. x = Returned i (Inr r) \<Longrightarrow> Sent i \<in> set (ch_log c) \<and> replied (ch_log c) i r"
  shows "channel_inv (c\<lparr>ch_state := retire i (ch_state c), ch_writing := removeAll i (ch_writing c),
    ch_log := ch_log c @ [x]\<rparr>)"
proof -
  obtain f where f: "dict_get (tp_pending (ch_state c)) i = Some f" using i by blast
  have p: "pending_ok (ch_state c) (ch_log c)" and w: "writing_ok c" using inv by (simp_all add: channel_inv_def)
  have "i \<le> tp_next_id (ch_state c)" "i \<notin> set (ended_ids (ch_log c))"
    using p f by (auto simp: pending_ok_def)
  moreover have "returned_ok (ch_log c @ [x])"
    using inv x result by (cases x) (auto simp: returned_ok_snoc channel_inv_def)
  moreover have "writing_ok (c\<lparr>ch_state := retire i (ch_state c), ch_writing := removeAll i (ch_writing c),
      ch_log := ch_log c @ [x]\<rparr>)"
    using w by (auto simp: writing_ok_def distinct_removeAll)
  ultimately show ?thesis
    using inv pending_ok_retire [OF p x] x by (simp add: channel_inv_def)
qed

lemma channel_inv_step: "channel_step c c' \<Longrightarrow> channel_inv c \<Longrightarrow> channel_inv c'"
proof (induction rule: channel_step.induct)
  case (Issue c i st)
  note new = fresh_id [OF Issue.prems Issue.hyps(1)]
  have i: "i = tp_next_id (ch_state c) + 1"
      "st = (ch_state c)\<lparr>tp_next_id := i, tp_pending := dict_set i Waiting (tp_pending (ch_state c))\<rparr>"
    using Issue.hyps(1) by (simp_all add: begin_request_eq)
  have "pending_ok (ch_state c) (ch_log c @ [Issued i])"
    using Issue.prems by (intro pending_ok_log) (simp_all add: channel_inv_def)
  then have "pending_ok st (ch_log c @ [Issued i])"
    using new i by (fastforce simp: pending_ok_def dict_get_set split: if_splits)
  moreover have "\<forall>j \<in> set (ended_ids (ch_log c)). j \<le> tp_next_id st"
    using Issue.prems i by (force simp: channel_inv_def)
  moreover have "writing_ok (c\<lparr>ch_state := st, ch_writing := ch_writing c @ [i], ch_log := ch_log c @ [Issued i]\<rparr>)"
    using Issue.prems new(3) i(2) by (auto simp: channel_inv_def writing_ok_def dict_get_set)
  ultimately show ?case
    using Issue.prems by (simp add: channel_inv_def returned_ok_snoc)
next
  case (Refuse c i st e)
  note new = fresh_id [OF Refuse.prems Refuse.hyps(1)]
  have i: "i = tp_next_id (ch_state c) + 1"
      "st = (ch_state c)\<lparr>tp_next_id := i, tp_pending := dict_set i Waiting (tp_pending (ch_state c))\<rparr>"
    using Refuse.hyps(1) by (simp_all add: begin_request_eq)
  have same: "dict_get (tp_pending (retire i st)) = dict_get (tp_pending (ch_state c))"
    using new(2) by (auto simp: i(2) dict_get_set)
  let ?log = "ch_log c @ [Issued i, Returned i (Inl e)]"
  have "pending_ok (ch_state c) ?log"
    using Refuse.prems new(2) by (intro pending_ok_log) (auto simp: channel_inv_def)
  then have "pending_ok (retire i st) ?log"
    unfolding pending_ok_def same using i by fastforce
  moreover have "\<forall>j \<in> set (ended_ids ?log). j \<le> tp_next_id (retire i st)"
    using Refuse.prems i by (force simp: channel_inv_def)
  moreover have "writing_ok (c\<lparr>ch_state := retire i st, ch_log := ?log\<rparr>)"
    using Refuse.prems unfolding channel_inv_def writing_ok_def by (auto simp: same simp del: retire_sel)
  moreover have "returned_ok ?log"
    using Refuse.prems returned_ok_snoc [of "ch_log c @ [Issued i]" "Returned i (Inl e)"]
    by (simp add: channel_inv_def returned_ok_snoc)
  ultimately show ?case
    using Refuse.prems new(1) by (simp add: channel_inv_def)
next
  case (Write c i waiting)
  then have "pending_ok (ch_state c) (ch_log c @ [Sent i])"
    by (intro pending_ok_log) (simp_all add: channel_inv_def)
  then show ?case
    using Write by (auto simp: channel_inv_def writing_ok_def returned_ok_snoc)
next
  case (Drain c i waiting)
  then show ?case by (auto simp: channel_inv_def writing_ok_def)
next
  case (WriteFails c i waiting)
  then have w: "distinct (i # waiting)" "dict_get (tp_pending (ch_state c)) i \<noteq> None"
    by (auto simp: channel_inv_def writing_ok_def)
  then have "removeAll i (ch_writing c) = waiting"
    using WriteFails.hyps by (simp add: removeAll_id)
  then show ?case
    using channel_inv_leave [OF WriteFails.prems w(2), of "Returned i (Inl input_closed)"] by simp
next
  case (Return c i r)
  have "Sent i \<in> set (ch_log c)" "\<And>x. r = Inr x \<Longrightarrow> replied (ch_log c) i x"
    using Return.prems Return.hyps by (auto simp: channel_inv_def writing_ok_def pending_ok_def)
  then show ?case
    using channel_inv_leave [OF Return.prems, of i "Returned i r"] Return.hyps by (simp add: removeAll_id)
next
  case (Abandon c i f)
  then show ?case using channel_inv_leave [OF Abandon.prems, of i "Abandoned i"] by simp
next
  case (Read c f goes_on st)
  let ?rest = "case f of Line (Some (JObj m)) \<Rightarrow> [Received m] | _ \<Rightarrow> []"
  have "pending_ok st (ch_log c @ ?rest)"
    using Read by (intro read_frame_pending) (simp_all add: channel_inv_def)
  moreover have "ended_ids ?rest = []"
    by (auto split: frame.splits option.splits json.splits)
  moreover have "returned_ok (ch_log c @ ?rest)"
    using Read.prems by (auto simp: channel_inv_def returned_ok_snoc split: frame.split option.split json.split)
  moreover have "writing_ok (c\<lparr>ch_state := st, ch_reading := goes_on, ch_log := ch_log c @ ?rest\<rparr>)"
    using Read.prems read_frame_domain [OF Read.hyps(2)] by (auto simp: channel_inv_def writing_ok_def)
  ultimately show ?case
    using Read.prems read_frame_domain [OF Read.hyps(2)] by (simp add: channel_inv_def)
next
  case (Close c)
  then show ?case
    by (auto simp: channel_inv_def transport_aclose_def pending_ok_def writing_ok_def split: if_splits)
qed

lemma channel_open_inv: "channel_inv channel_open"
  by (simp add: channel_inv_def channel_open_def pending_ok_def writing_ok_def transport_init_def)

lemma channel_inv_reaches: "channel_reaches channel_open c \<Longrightarrow> channel_inv c"
  by (induction rule: rtranclp_induct) (auto intro: channel_open_inv channel_inv_step)

text \<open>
  A request ends at most once, and a result it returns came, before it returned, in a message that
  answers it, received after it was issued; by then it had been written.
\<close>

lemma channel_replies:
  "channel_reaches channel_open c \<Longrightarrow> distinct (ended_ids (ch_log c)) \<and> returned_ok (ch_log c)"
  using channel_inv_reaches by (auto simp: channel_inv_def)

text \<open>An id that was used is not above the counter.\<close>

lemma sent_ids_step:
  assumes "channel_step c c'" "channel_inv c"
    and "\<forall>j. Sent j \<in> set (ch_log c) \<longrightarrow> j \<le> tp_next_id (ch_state c)"
  shows "\<forall>j. Sent j \<in> set (ch_log c') \<longrightarrow> j \<le> tp_next_id (ch_state c')"
  using assms
proof (induction rule: channel_step.induct)
  case (Issue c i st)
  then show ?case by (force simp: begin_request_eq)
next
  case (Refuse c i st e)
  then show ?case by (force simp: begin_request_eq)
next
  case (Write c i waiting)
  then have "i \<le> tp_next_id (ch_state c)"
    unfolding channel_inv_def writing_ok_def pending_ok_def by fastforce
  then show ?case using Write by auto
next
  case (Read c f goes_on st)
  then show ?case
    using read_frame_domain [OF Read.hyps(2)] by (auto split: frame.splits option.splits json.splits)
next
  case (Close c)
  then show ?case by (simp add: transport_aclose_def)
qed auto

lemma sent_ids:
  "channel_reaches channel_open c \<Longrightarrow> \<forall>j. Sent j \<in> set (ch_log c) \<longrightarrow> j \<le> tp_next_id (ch_state c)"
proof (induction rule: rtranclp_induct)
  case base
  then show ?case by (simp add: channel_open_def)
next
  case (step c c')
  then show ?case using sent_ids_step channel_inv_reaches by blast
qed

text \<open>Nobody waits on a closed transport.\<close>

definition closed_settled :: "transport_state \<Rightarrow> bool" where
  "closed_settled st \<longleftrightarrow> tp_started st \<and>
     (tp_closed st \<longrightarrow> (\<forall>i. dict_get (tp_pending st) i \<noteq> Some Waiting))"

lemma closed_settled_step: "channel_step c c' \<Longrightarrow> closed_settled (ch_state c) \<Longrightarrow> closed_settled (ch_state c')"
proof (induction rule: channel_step.induct)
  case (Issue c i st)
  then show ?case by (auto simp: closed_settled_def begin_request_eq write_outcome_def split: if_splits)
next
  case (Refuse c i st e)
  then show ?case by (auto simp: closed_settled_def begin_request_eq dict_get_set)
next
  case (Read c f goes_on st)
  have "closed_settled (dispatch raw (ch_state c))" for raw
    using dispatch_cases [of raw "ch_state c"] Read.prems by (auto simp: closed_settled_def dict_get_set)
  moreover have "closed_settled (fail_pending e (ch_state c))" for e
    using Read.prems by (auto simp: closed_settled_def)
  ultimately show ?case
    using Read by (auto simp: read_frame_def split: frame.splits)
qed (auto simp: closed_settled_def transport_aclose_def split: if_splits)

lemma closed_settled_open: "closed_settled (ch_state channel_open)"
  by (simp add: closed_settled_def channel_open_def transport_init_def)

lemma closed_settled_reaches: "channel_reaches channel_open c \<Longrightarrow> closed_settled (ch_state c)"
  by (induction rule: rtranclp_induct) (auto intro: closed_settled_step closed_settled_open)

end
