(* ===== verification/JSON_Roundtrip.thy ===== *)
theory JSON_Roundtrip
  imports JSON_Text "HOL-Library.Multiset"
begin

section \<open>The JSON round trip\<close>

text \<open>
  What \<open>json.dumps\<close> writes, \<open>json.loads\<close> reads back: for every value with distinct keys whose floats are
  numerals, with both separator styles the program uses, and up to the order of the members when the
  keys are sorted. Every value a text decodes to is such a value. \<open>reads\<close> says that the fuel of a text's
  own length is enough to read its value in any context that does not continue a number.
\<close>


subsection \<open>Numbers\<close>

definition json_space :: "char \<Rightarrow> bool" where
  "json_space c \<longleftrightarrow> c = CHR '' '' \<or> c = CHR 0x09 \<or> c = CHR 0x0A \<or> c = CHR 0x0D"

lemma skip_space_Cons: "skip_space (c # cs) = (if json_space c then skip_space cs else c # cs)"
  by (simp add: json_space_def)

lemma json_space_simps [simp]:
  "json_space (CHR '' '')" "\<not> json_space (CHR 0x22)" "\<not> json_space (CHR ''['')" "\<not> json_space (CHR '']'')"
  "\<not> json_space (CHR ''{'')" "\<not> json_space (CHR ''}'')" "\<not> json_space (CHR '','')" "\<not> json_space (CHR '':'')"
  "\<not> json_space (CHR ''-'')" "\<not> json_space (CHR ''n'')" "\<not> json_space (CHR ''t'')" "\<not> json_space (CHR ''f'')"
  "\<not> json_space (CHR ''N'')" "\<not> json_space (CHR ''I'')"
  by (simp_all add: json_space_def)

declare skip_space.simps(2) [simp del] skip_space_Cons [simp]

lemma skip_spaces [simp]: "list_all json_space w \<Longrightarrow> skip_space (w @ cs) = skip_space cs"
  by (induction w) simp_all

lemma hex_value_digit: "d < 16 \<Longrightarrow> hex_value (digit_char d) = Some d"
  by (simp add: hex_value_def digit_char_def of_char_of take_bit_eq_mod Let_def)

lemma digit_char_class: "d < 10 \<Longrightarrow> is_digit (digit_char d)"
  by (simp add: is_digit_def digit_char_def of_char_of take_bit_eq_mod)

lemma nat_str_all_digits: "list_all is_digit (nat_str n)"
proof (induction n rule: nat_str.induct)
  case (1 n)
  then show ?case by (subst nat_str.simps) (simp add: digit_char_class)
qed

lemma nat_str_leading: "1 < length (nat_str n) \<Longrightarrow> hd (nat_str n) \<noteq> CHR ''0''"
proof (induction n rule: nat_str.induct)
  case (1 n)
  have nonzero: "digit_char d \<noteq> CHR ''0''" if "0 < d" "d < 10" for d
  proof
    assume "digit_char d = CHR ''0''"
    then have "Some d = hex_value (CHR ''0'')" using hex_value_digit [of d] that by simp
    then show False using that by (simp add: hex_value_def)
  qed
  show ?case
  proof (cases "n div 10 < 10")
    case True
    then show ?thesis
      using 1 nonzero [of "n div 10"] by (subst nat_str.simps) (auto simp: nat_str.simps [of n] nat_str.simps [of "n div 10"])
  next
    case False
    then have "1 < length (nat_str (n div 10))" by (subst nat_str.simps) (simp add: Suc_lessI)
    moreover have "\<not> n < 10" using False by simp
    ultimately show ?thesis using 1 by (subst nat_str.simps) (simp add: hd_append)
  qed
qed

lemma number_value_int: "number_value (int_str i) = Some (JInt i)"
proof -
  have all: "takeWhile is_digit (nat_str n) = nat_str n" "dropWhile is_digit (nat_str n) = []" for n
    using nat_str_all_digits [of n] by (simp_all add: list_all_iff)
  have "\<not> (1 < length (nat_str n) \<and> hd (nat_str n) = CHR ''0'')" for n using nat_str_leading [of n] by blast
  then show ?thesis
    using hd_nat_str [of "nat i"] unfolding number_value_def int_str_def Let_def
    by (cases "i < 0") (simp_all add: all)
qed

lemma int_str_number: "list_all is_number_char (int_str i)"
  using nat_str_all_digits by (auto simp: int_str_def is_number_char_def list_all_iff)

lemma number_head:
  assumes "number_value tok = Some v"
  obtains c cs where "tok = c # cs" "is_digit c"
  | c cs where "tok = CHR ''-'' # c # cs" "is_digit c"
proof -
  let ?d = "if tok \<noteq> [] \<and> hd tok = CHR ''-'' then tl tok else tok"
  have "takeWhile is_digit ?d \<noteq> []"
    using assms by (auto simp: number_value_def Let_def split: if_splits)
  then obtain c cs where d: "?d = c # cs" "is_digit c"
    by (cases ?d) (auto split: if_splits)
  then show thesis
    using that by (cases "tok \<noteq> [] \<and> hd tok = CHR ''-''") (auto simp: neq_Nil_conv)
qed

definition ends_number :: "string \<Rightarrow> bool" where
  "ends_number r \<longleftrightarrow> r = [] \<or> \<not> is_number_char (hd r)"

lemma read_scalar_number:
  assumes tok: "number_value tok = Some v" "list_all is_number_char tok" and r: "ends_number r"
  shows "read_scalar (tok @ r) = Some (v, r)"
proof -
  have "takeWhile is_number_char r = []" "dropWhile is_number_char r = r"
    using r by (cases r; simp add: ends_number_def)+
  then have split: "takeWhile is_number_char (tok @ r) = tok" "dropWhile is_number_char (tok @ r) = r"
    using tok(2) by (simp_all add: list_all_iff)
  have words: "read_word w (tok @ r) = None"
    if "w \<in> {''null'', ''true'', ''false'', ''NaN'', ''Infinity'', ''-Infinity''}" for w
    using number_head [OF tok(1)]
  proof cases
    case (1 c cs)
    then show ?thesis using that by (auto simp: is_digit_def)
  next
    case (2 c cs)
    then show ?thesis using that by (auto simp: is_digit_def)
  qed
  show ?thesis
    unfolding read_scalar_def split words [of "''null''", simplified] words [of "''true''", simplified]
      words [of "''false''", simplified] words [of "''NaN''", simplified]
      words [of "''Infinity''", simplified] words [of "''-Infinity''", simplified]
    using tok(1) by simp
qed

lemma read_value_scalar:
  assumes "read_scalar (c # cs) = Some (v, r)" and "\<not> json_space c" "c \<notin> {CHR 0x22, CHR ''['', CHR ''{''}"
  shows "read_value (Suc n) (c # cs) = Some (v, r)"
  using assms by simp

lemma read_value_number:
  assumes tok: "number_value tok = Some v" "list_all is_number_char tok" and r: "ends_number r"
  shows "read_value (Suc n) (tok @ r) = Some (v, r)"
proof -
  note s = read_scalar_number [OF assms]
  from tok(1) show ?thesis
  proof (rule number_head)
    fix c cs
    assume "tok = c # cs" "is_digit c"
    then show ?thesis
      using s read_value_scalar [of c "cs @ r"] by (auto simp: is_digit_def json_space_def)
  next
    fix c cs
    assume "tok = CHR ''-'' # c # cs" "is_digit c"
    then show ?thesis
      using s read_value_scalar [of "CHR ''-''" "c # cs @ r"] by (auto simp: json_space_def)
  qed
qed

subsection \<open>Strings\<close>

lemma code_point_char: "char_of_code_point (code_point c) = Some c"
proof (cases "128 \<le> (of_char c :: nat) \<and> of_char c < (160::nat)")
  case True
  let ?i = "of_char c - (128::nat)"
  have i: "?i < 32" using True by arith
  have len: "length code_points_80 = length [128..<160]" by (simp add: code_points_80_def)
  have "list_all (\<lambda>n. \<not> n < 128 \<and> \<not> (160 \<le> n \<and> n < 256)) code_points_80"
    by (simp add: code_points_80_def)
  then have outside: "\<not> (code_points_80 ! ?i < 128 \<or> (160 \<le> code_points_80 ! ?i \<and> code_points_80 ! ?i < 256))"
    using i by (simp add: list_all_length code_points_80_def [THEN arg_cong, of length, simplified])
  have "distinct code_points_80" by (simp add: code_points_80_def)
  from map_of_zip_nth [OF len this, of ?i]
  have z: "map_of (zip code_points_80 [128..<160]) (code_points_80 ! ?i) = Some ([128..<160] ! ?i)"
    using i by simp
  have up: "[128..<160] ! ?i = of_char c"
    by (subst nth_upt) (use True in arith)+
  have "char_of_code_point (code_points_80 ! ?i) = Some c"
    unfolding char_of_code_point_def if_not_P [OF outside] z up by simp
  then show ?thesis using True by (simp add: code_point_def Let_def)
next
  case False
  have "of_char c < (256::nat)" by (rule nat_of_char_less_256)
  then show ?thesis using False by (auto simp: code_point_def char_of_code_point_def Let_def)
qed

lemma code_point_bound: "code_point c < 65536"
proof (cases "128 \<le> (of_char c :: nat) \<and> of_char c < (160::nat)")
  case True
  have "list_all (\<lambda>n. n < 65536) code_points_80" by (simp add: code_points_80_def)
  moreover have "length code_points_80 = 32" by (simp add: code_points_80_def)
  moreover have "of_char c - (128::nat) < 32" using True by arith
  ultimately show ?thesis using True by (simp add: code_point_def Let_def list_all_length)
next
  case False
  have "of_char c < (256::nat)" by (rule nat_of_char_less_256)
  then have "of_char c < (65536::nat)" by linarith
  then show ?thesis using False by (auto simp: code_point_def Let_def)
qed

lemma hex_digits_4: "hex_digits 4 n =
  [digit_char (n div 4096 mod 16), digit_char (n div 256 mod 16), digit_char (n div 16 mod 16), digit_char (n mod 16)]"
  by (simp add: hex_digits_def upt_conv_Cons)

lemma read_unicode:
  assumes "n < 65536" "char_of_code_point n = Some c"
  shows "read_string (unicode_escape n @ cs) = map_option (\<lambda>(s, r). (c # s, r)) (read_string cs)"
proof -
  have d: "n div 256 = n div 16 div 16" "n div 4096 = n div 16 div 16 div 16"
    by (simp_all flip: div_mult2_eq)
  have "n div 4096 < 16" using assms(1) by (simp add: div_less_iff_less_mult)
  then have top: "n div 16 div 16 div 16 mod 16 = n div 16 div 16 div 16" by (simp flip: d(2))
  have "4096 * (n div 4096 mod 16) + 256 * (n div 256 mod 16) + 16 * (n div 16 mod 16) + n mod 16 = n"
    unfolding d top
    using mult_div_mod_eq [of 16 n] mult_div_mod_eq [of 16 "n div 16"] mult_div_mod_eq [of 16 "n div 16 div 16"]
    by linarith
  moreover from this have "4096 * (n div 4096) + 256 * (n div 256 mod 16) + 16 * (n div 16 mod 16) + n mod 16 = n"
    using \<open>n div 4096 < 16\<close> by simp
  ultimately show ?thesis
    using assms(2) by (simp add: unicode_escape_def hex_digits_4 hex_value_digit)
qed

lemma read_escaped:
  "read_string (escape_char c @ cs) = map_option (\<lambda>(s, r). (c # s, r)) (read_string cs)"
proof -
  have char: "c = d" if "(of_char c :: nat) = of_char d" for d using that by simp
  have special: "c \<in> {CHR 0x22, CHR 0x5C, CHR 0x08, CHR 0x09, CHR 0x0A, CHR 0x0C, CHR 0x0D}"
    if "(of_char c :: nat) \<in> {34, 92, 8, 9, 10, 12, 13}"
    using that char [of "CHR 0x22"] char [of "CHR 0x5C"] char [of "CHR 0x08"] char [of "CHR 0x09"]
      char [of "CHR 0x0A"] char [of "CHR 0x0C"] char [of "CHR 0x0D"] by (elim insertE emptyE) simp_all
  consider "(of_char c :: nat) \<in> {34, 92, 8, 9, 10, 12, 13}"
    | "32 \<le> (of_char c :: nat)" "of_char c < (127::nat)" "(of_char c :: nat) \<notin> {34, 92}"
    | "(of_char c :: nat) \<notin> {34, 92, 8, 9, 10, 12, 13}" "\<not> (32 \<le> (of_char c :: nat) \<and> of_char c < (127::nat))"
    by (cases "(of_char c :: nat) \<in> {34, 92, 8, 9, 10, 12, 13}"; cases "32 \<le> (of_char c :: nat) \<and> of_char c < (127::nat)") blast+
  then show ?thesis
  proof cases
    case 1
    from \<open>(of_char c :: nat) \<in> {34, 92, 8, 9, 10, 12, 13}\<close> have
      "c \<in> {CHR 0x22, CHR 0x5C, CHR 0x08, CHR 0x09, CHR 0x0A, CHR 0x0C, CHR 0x0D}" by (rule special)
    then show ?thesis by (elim insertE emptyE) (simp_all add: escape_char_def simple_escape_def)
  next
    case 2
    then show ?thesis by (auto simp: escape_char_def Let_def)
  next
    case 3
    then have "escape_char c = unicode_escape (code_point c)" by (auto simp: escape_char_def Let_def)
    then show ?thesis using read_unicode [OF code_point_bound code_point_char] by simp
  qed
qed

lemma read_quoted: "read_string (concat (map escape_char s) @ CHR 0x22 # r) = Some (s, r)"
  by (induction s) (simp_all add: read_escaped)


subsection \<open>Values\<close>

text \<open>What a decoded text can be: keys differ, and a float is a numeral with a fraction or an exponent.\<close>

fun json_ok :: "json \<Rightarrow> bool" where
  "json_ok (JFloat s) \<longleftrightarrow> s \<in> {''nan'', ''inf'', ''-inf''} \<or>
     (number_value s = Some (JFloat s) \<and> list_all is_number_char s)"
| "json_ok (JList vs) \<longleftrightarrow> list_all json_ok vs"
| "json_ok (JObj d) \<longleftrightarrow> dict_wf d \<and> list_all (\<lambda>(_, v). json_ok v) d"
| "json_ok v \<longleftrightarrow> True"

text \<open>Enough text follows for a value whose reading takes the fuel of its own length.\<close>

definition reads :: "string \<Rightarrow> json \<Rightarrow> bool" where
  "reads t v \<longleftrightarrow> (\<forall>n r w. length t < n \<longrightarrow> ends_number r \<longrightarrow> list_all json_space w \<longrightarrow>
     read_value n (w @ t @ r) = Some (v, r))"

lemma read_value_spaces:
  "list_all json_space w \<Longrightarrow> read_value n (w @ cs) = read_value n cs"
  by (cases n) simp_all

lemma readsI:
  assumes "\<And>n r. length t \<le> n \<Longrightarrow> ends_number r \<Longrightarrow> read_value (Suc n) (t @ r) = Some (v, r)"
  shows "reads t v"
  unfolding reads_def
proof (intro allI impI)
  fix n r w
  assume "length t < n" "ends_number r" "list_all json_space w"
  then show "read_value n (w @ t @ r) = Some (v, r)"
    using assms [of "n - 1" r] by (simp only: read_value_spaces) simp
qed

lemma ends_number_simps [simp]:
  "ends_number (CHR '','' # r)" "ends_number (CHR '']'' # r)" "ends_number (CHR ''}'' # r)" "ends_number []"
  by (simp_all add: ends_number_def is_number_char_def is_digit_def)

lemma ends_number_spaces: "list_all json_space w \<Longrightarrow> ends_number r \<Longrightarrow> ends_number (w @ r)"
  by (cases w) (auto simp: ends_number_def json_space_def is_number_char_def is_digit_def)

lemma read_items_join:
  assumes "list_all2 reads ts vs" "vs \<noteq> []" "list_all json_space w" "list_all json_space w'" "list_all json_space w2"
  shows "length (concat ts) + length ts < n \<Longrightarrow>
    read_items n (w' @ py_join (CHR '','' # w) ts @ w2 @ CHR '']'' # r) = Some (vs, r)"
  using assms
proof (induction ts arbitrary: vs n w')
  case Nil
  then show ?case by simp
next
  case (Cons t ts)
  then obtain v vs' where vs: "vs = v # vs'" "reads t v" "list_all2 reads ts vs'"
    by (auto simp: list_all2_Cons1)
  obtain m where n: "n = Suc m" using Cons.prems(1) by (cases n) simp_all
  show ?case
  proof (cases ts)
    case Nil
    then show ?thesis
      using vs Cons.prems n by (simp add: reads_def ends_number_spaces)
  next
    case (Cons t' ts')
    have "read_value m (w' @ t @ CHR '','' # w @ py_join (CHR '','' # w) ts @ w2 @ CHR '']'' # r) =
        Some (v, CHR '','' # w @ py_join (CHR '','' # w) ts @ w2 @ CHR '']'' # r)"
      using vs(2) Cons.prems n by (simp add: reads_def)
    moreover have "read_items m (w @ py_join (CHR '','' # w) ts @ w2 @ CHR '']'' # r) = Some (vs', r)"
      using Cons.IH [of m vs' w] Cons.prems vs Cons n by auto
    ultimately show ?thesis by (simp add: n vs Cons)
  qed
qed

lemma read_members_join:
  assumes "list_all2 (\<lambda>kt kv. fst kt = fst kv \<and> reads (snd kt) (snd kv)) ts d" "d \<noteq> []"
    and "list_all json_space w" "list_all json_space w1" "list_all json_space w'"
    and "list_all json_space w2"
  shows "length (concat (map snd ts)) + length ts < n \<Longrightarrow>
    read_members n (w' @ py_join (CHR '','' # w) (map (\<lambda>(k, t). quote_json k @ (CHR '':'' # w1) @ t) ts) @
      w2 @ CHR ''}'' # r) = Some (d, r)"
  using assms
proof (induction ts arbitrary: d n w')
  case Nil
  then show ?case by simp
next
  case (Cons kt ts)
  let ?join = "\<lambda>ts. py_join (CHR '','' # w) (map (\<lambda>(k, t). quote_json k @ (CHR '':'' # w1) @ t) ts)"
  obtain k t v d' where d: "kt = (k, t)" "d = (k, v) # d'" "reads t v"
      "list_all2 (\<lambda>kt kv. fst kt = fst kv \<and> reads (snd kt) (snd kv)) ts d'"
    using Cons.prems(2) by (cases kt) (auto simp: list_all2_Cons1)
  obtain m where n: "n = Suc m" using Cons.prems(1) by (cases n) simp_all
  have start: "read_members n (w' @ (quote_json k @ (CHR '':'' # w1) @ t) @ rest) =
      (case skip_space rest of [] \<Rightarrow> None
       | c # r3 \<Rightarrow> if c = CHR ''}'' then Some ([(k, v)], r3)
           else if c = CHR '','' then map_option (\<lambda>(d, r). ((k, v) # d, r)) (read_members m r3) else None)"
    if "ends_number rest" for rest
  proof -
    have "read_value m (w1 @ t @ rest) = Some (v, rest)"
      using d(3) Cons.prems n d(1) that by (simp add: reads_def)
    then show ?thesis using Cons.prems by (simp add: n quote_json_def read_quoted)
  qed
  show ?case
  proof (cases ts)
    case Nil
    then show ?thesis
      using start [of "w2 @ CHR ''}'' # r"] d Cons.prems by (simp add: ends_number_spaces)
  next
    case (Cons kt' ts')
    have "?join (kt # ts) @ w2 @ CHR ''}'' # r =
        (quote_json k @ (CHR '':'' # w1) @ t) @ CHR '','' # w @ ?join ts @ w2 @ CHR ''}'' # r"
      by (simp add: Cons d(1))
    moreover have "read_members m (w @ ?join ts @ w2 @ CHR ''}'' # r) = Some (d', r)"
      using Cons.IH [of m d' w] Cons.prems d Cons n by auto
    ultimately show ?thesis
      using start [of "CHR '','' # w @ ?join ts @ w2 @ CHR ''}'' # r"] by (simp add: d(2))
  qed
qed

lemma py_join_length:
  "length (concat ts) + length ts \<le> Suc (length (py_join (c # w) ts))"
  by (induction "c # w" ts rule: py_join.induct) simp_all

lemma members_length:
  "length (concat (map snd ts)) \<le> length (concat (map (\<lambda>(k, t). quote_json k @ s @ t) ts))"
  by (induction ts) auto

lemma read_words:
  "read_value (Suc n) (''null'' @ r) = Some (JNull, r)"
  "read_value (Suc n) (''true'' @ r) = Some (JBool True, r)"
  "read_value (Suc n) (''false'' @ r) = Some (JBool False, r)"
  "read_value (Suc n) (''NaN'' @ r) = Some (JFloat ''nan'', r)"
  "read_value (Suc n) (''Infinity'' @ r) = Some (JFloat ''inf'', r)"
  "read_value (Suc n) (''-Infinity'' @ r) = Some (JFloat ''-inf'', r)"
  by (simp_all add: read_scalar_def)

lemma py_join_head:
  assumes "\<And>t. t \<in> set ts \<Longrightarrow> \<exists>c cs. t = c # cs \<and> P c" "ts \<noteq> []"
  shows "\<exists>c cs. py_join sep ts = c # cs \<and> P c"
proof (cases ts rule: remdups_adj.cases)
  case (3 x y xs)
  then show ?thesis using assms(1) [of x] by auto
qed (use assms in auto)

lemma number_head_plain:
  "number_value tok = Some v \<Longrightarrow> \<exists>c cs. tok = c # cs \<and> \<not> json_space c \<and> c \<noteq> CHR '']''"
  by (erule number_head) (auto simp: is_digit_def json_space_def)

lemma dumps_head:
  "json_ok v \<Longrightarrow> \<exists>c cs. dumps item key b v = c # cs \<and> \<not> json_space c \<and> c \<noteq> CHR '']''"
proof (cases v)
  case (JFloat s)
  then show "json_ok v \<Longrightarrow> ?thesis" by (auto simp: float_json_def dest: number_head_plain)
qed (use number_head_plain [OF number_value_int] in \<open>auto simp: quote_json_def\<close>)

lemma dumps_reads:
  assumes w: "list_all json_space w" "list_all json_space w1"
  shows "json_ok v \<Longrightarrow> reads (dumps (CHR '','' # w) (CHR '':'' # w1) False v) v"
proof (induction v)
  case (JList vs)
  let ?d = "dumps (CHR '','' # w) (CHR '':'' # w1) False"
  show ?case
  proof (rule readsI)
    fix n r
    assume n: "length (?d (JList vs)) \<le> n" and r: "ends_number r"
    have all: "list_all2 reads (map ?d vs) vs"
      using JList by (auto simp: list_all2_conv_all_nth list_all_length)
    show "read_value (Suc n) (?d (JList vs) @ r) = Some (JList vs, r)"
    proof (cases "vs = []")
      case False
      have "length (concat (map ?d vs)) + length (map ?d vs) < n"
        using n py_join_length [of "map ?d vs" "CHR '',''" w] by simp
      from read_items_join [OF all False w(1) _ _ this, of "[]" "[]" r]
      have items: "read_items n (py_join (CHR '','' # w) (map ?d vs) @ CHR '']'' # r) = Some (vs, r)" by simp
      have "\<exists>c cs. py_join (CHR '','' # w) (map ?d vs) = c # cs \<and> (\<not> json_space c \<and> c \<noteq> CHR '']'')"
        using False JList.prems dumps_head by (intro py_join_head) (force simp: list_all_iff)+
      then show ?thesis using items by auto
    qed simp
  qed
next
  case (JObj d)
  let ?d = "dumps (CHR '','' # w) (CHR '':'' # w1) False"
  let ?ts = "map (\<lambda>(k, v). (k, ?d v)) d"
  let ?join = "py_join (CHR '','' # w) (map (\<lambda>(k, t). quote_json k @ (CHR '':'' # w1) @ t) ?ts)"
  show ?case
  proof (rule readsI)
    fix n r
    assume n: "length (?d (JObj d)) \<le> n" and r: "ends_number r"
    have all: "list_all2 (\<lambda>kt kv. fst kt = fst kv \<and> reads (snd kt) (snd kv)) ?ts d"
      using JObj by (fastforce simp: list.rel_map list_all_iff intro: list.rel_refl_strong)
    show "read_value (Suc n) (?d (JObj d) @ r) = Some (JObj d, r)"
    proof (cases "d = []")
      case False
      have "length (concat (map snd ?ts)) + length ?ts < n"
        using n py_join_length [of "map (\<lambda>(k, t). quote_json k @ (CHR '':'' # w1) @ t) ?ts" "CHR '',''" w]
          members_length [of ?ts "CHR '':'' # w1"] by simp
      from read_members_join [OF all False w _ _ this, of "[]" "[]" r]
      have members: "read_members n (?join @ CHR ''}'' # r) = Some (d, r)" by simp
      have "\<exists>c cs. ?join = c # cs \<and> c = CHR 0x22"
        using False by (intro py_join_head) (auto simp: quote_json_def)
      then show ?thesis using members by auto
    qed simp
  qed
next
  case (JStr s)
  show ?case by (rule readsI) (simp add: quote_json_def read_quoted)
next
  case (JInt i)
  show ?case
    by (rule readsI) (use read_value_number [OF number_value_int int_str_number] in simp)
next
  case (JFloat s)
  show ?case
  proof (rule readsI)
    fix n r
    assume "ends_number r"
    then have "number_value s = Some (JFloat s) \<Longrightarrow> list_all is_number_char s \<Longrightarrow>
        read_value (Suc n) (s @ r) = Some (JFloat s, r)"
      using read_value_number by blast
    then show "read_value (Suc n) (dumps (CHR '','' # w) (CHR '':'' # w1) False (JFloat s) @ r) = Some (JFloat s, r)"
      using JFloat read_words [of n r] unfolding dumps.simps float_json_def json_ok.simps by (auto simp only: if_True if_False split: if_splits)
  qed
next
  case (JBool b)
  show ?case by (rule readsI) (use read_words in simp)
next
  case JNull
  show ?case by (rule readsI) (use read_words in simp)
qed

lemma line_break_space [simp]: "list_all json_space (line_break k)"
  by (auto simp: line_break_def list_all_iff json_space_def)

lemma dumps_indent_head:
  "json_ok v \<Longrightarrow> \<exists>c cs. dumps_indent k v = c # cs \<and> \<not> json_space c \<and> c \<noteq> CHR '']''"
  using dumps_head [of v "'', ''" "'': ''" False] by (cases v) (auto simp: json_dumps_def)

lemma json_dumps_reads: "json_ok v \<Longrightarrow> reads (json_dumps v) v"
  unfolding json_dumps_def by (rule dumps_reads) simp_all

lemma dumps_indent_reads: "json_ok v \<Longrightarrow> reads (dumps_indent k v) v"
proof (induction v arbitrary: k)
  case (JList vs)
  let ?d = "dumps_indent (k + 2)" and ?w = "line_break (k + 2)"
  show ?case
  proof (cases "vs = []")
    case False
    show ?thesis
    proof (rule readsI)
      fix n r
      assume n: "length (dumps_indent k (JList vs)) \<le> n" and r: "ends_number r"
      have all: "list_all2 reads (map ?d vs) vs"
        using JList by (auto simp: list_all2_conv_all_nth list_all_length)
      have "length (concat (map ?d vs)) + length (map ?d vs) < n"
        using n False py_join_length [of "map ?d vs" "CHR '',''" ?w] by simp
      from read_items_join [OF all False _ _ _ this, of ?w ?w "line_break k" r]
      have items: "read_items n (?w @ py_join (CHR '','' # ?w) (map ?d vs) @ line_break k @ CHR '']'' # r) = Some (vs, r)"
        by simp
      have "\<exists>c cs. py_join (CHR '','' # ?w) (map ?d vs) = c # cs \<and> (\<not> json_space c \<and> c \<noteq> CHR '']'')"
        using False JList.prems dumps_indent_head by (intro py_join_head) (force simp: list_all_iff)+
      then show "read_value (Suc n) (dumps_indent k (JList vs) @ r) = Some (JList vs, r)"
        using items False by auto
    qed
  qed (auto intro: readsI)
next
  case (JObj d)
  let ?d = "dumps_indent (k + 2)" and ?w = "line_break (k + 2)"
  let ?ts = "map (\<lambda>(i, v). (i, ?d v)) d"
  let ?join = "py_join (CHR '','' # ?w) (map (\<lambda>(i, t). quote_json i @ (CHR '':'' # '' '') @ t) ?ts)"
  show ?case
  proof (cases "d = []")
    case False
    show ?thesis
    proof (rule readsI)
      fix n r
      assume n: "length (dumps_indent k (JObj d)) \<le> n" and r: "ends_number r"
      have join: "?join = py_join (CHR '','' # ?w) (map (\<lambda>(i, v). quote_json i @ '': '' @ ?d v) d)"
        by (rule arg_cong [where f = "py_join _"]) (auto simp: split_beta)
      have all: "list_all2 (\<lambda>kt kv. fst kt = fst kv \<and> reads (snd kt) (snd kv)) ?ts d"
        using JObj by (fastforce simp: list.rel_map list_all_iff intro: list.rel_refl_strong)
      have "Suc (length ?join) < n" using n False unfolding join by simp
      then have "length (concat (map snd ?ts)) + length ?ts < n"
        using py_join_length [of "map (\<lambda>(i, t). quote_json i @ (CHR '':'' # '' '') @ t) ?ts" "CHR '',''" ?w]
          members_length [of ?ts "CHR '':'' # '' ''"] unfolding length_map by linarith
      from read_members_join [OF all False _ _ _ _ this, of ?w "'' ''" ?w "line_break k" r]
      have members: "read_members n (?w @ ?join @ line_break k @ CHR ''}'' # r) = Some (d, r)" by simp
      have "\<exists>c cs. ?join = c # cs \<and> c = CHR 0x22"
        using False by (intro py_join_head) (auto simp: quote_json_def)
      then show "read_value (Suc n) (dumps_indent k (JObj d) @ r) = Some (JObj d, r)"
        using members False unfolding join by auto
    qed
  qed (auto intro: readsI)
qed (simp_all only: dumps_indent.simps json_dumps_reads)


subsection \<open>The round trip\<close>

lemma foldl_update_wf:
  "dict_wf (acc @ d) \<Longrightarrow> foldl (\<lambda>acc (k, v). AList.update k v acc) acc d = acc @ d"
proof (induction d arbitrary: acc)
  case (Cons kv d)
  then have "AList.update (fst kv) (snd kv) acc = acc @ [kv]"
    by (simp add: dict_wf_def dict_set_new)
  then show ?case using Cons by (cases kv) simp
qed simp

lemma merge_members_ok: "json_ok v \<Longrightarrow> merge_members v = v"
proof (induction v)
  case (JList vs)
  then show ?case by (simp add: list_all_iff map_idI)
next
  case (JObj d)
  then have "map (\<lambda>(k, v). (k, merge_members v)) d = d"
    by (intro map_idI) (fastforce simp: list_all_iff)
  then show ?case using JObj.prems foldl_update_wf [of "[]" d] by simp
qed simp_all

text \<open>\<open>sort_keys\<close> reorders the members at every level.\<close>

fun sort_json :: "json \<Rightarrow> json" where
  "sort_json (JList vs) = JList (map sort_json vs)"
| "sort_json (JObj d) = JObj (sort_members (map (\<lambda>(k, v). (k, sort_json v)) d))"
| "sort_json v = v"

lemma sort_members_map:
  "sort_members (map (\<lambda>(k, v). (k, f v)) d) = map (\<lambda>(k, v). (k, f v)) (sort_members d)"
proof -
  have ins: "insert_member (k, f v) (map (\<lambda>(k, v). (k, f v)) d) = map (\<lambda>(k, v). (k, f v)) (insert_member (k, v) d)"
    for k v d by (induction d) auto
  show ?thesis by (induction d) (auto simp: sort_members_def ins)
qed

lemma dumps_sorted: "dumps item key True v = dumps item key False (sort_json v)"
proof (induction v)
  case (JList vs)
  then have "map (dumps item key True) vs = map (dumps item key False) (map sort_json vs)" by simp
  then show ?case by (simp only: dumps.simps sort_json.simps)
next
  case (JObj d)
  have "map (\<lambda>(k, v). (k, dumps item key True v)) d =
      map (\<lambda>(k, v). (k, dumps item key False v)) (map (\<lambda>(k, v). (k, sort_json v)) d)"
    using JObj by fastforce
  then show ?case by (simp only: dumps.simps sort_json.simps if_True if_False sort_members_map)
qed simp_all

lemma sort_members_mset: "mset (sort_members d) = mset d"
proof -
  have "mset (insert_member kv xs) = add_mset kv (mset xs)" for kv :: "string \<times> 'a" and xs
    by (induction kv xs rule: insert_member.induct) auto
  then show ?thesis by (induction d) (simp_all add: sort_members_def)
qed

lemma sort_json_ok: "json_ok v \<Longrightarrow> json_ok (sort_json v)"
proof (induction v)
  case (JObj d)
  let ?d = "map (\<lambda>(k, v). (k, sort_json v)) d"
  have same: "set (sort_members ?d) = set ?d" "mset (map fst (sort_members ?d)) = mset (map fst ?d)"
    by (metis sort_members_mset set_mset_mset, metis sort_members_mset mset_map)
  have "list_all (\<lambda>(_, v). json_ok v) ?d"
    using JObj by (fastforce simp: list_all_iff)
  then have "list_all (\<lambda>(_, v). json_ok v) (sort_members ?d)" by (simp only: list_all_iff same(1))
  moreover have "map fst ?d = map fst d" by auto
  then have "distinct (map fst (sort_members ?d))"
    using mset_eq_imp_distinct_iff [OF same(2)] JObj.prems by (simp only: json_ok.simps dict_wf_def)
  ultimately show ?case by (simp only: sort_json.simps json_ok.simps dict_wf_def)
qed (auto simp: list_all_iff)

lemma loads_reads:
  assumes "reads t v" "json_ok v"
  shows "json_loads t = Some v"
proof -
  have "length t < 2 * length t + 2 \<longrightarrow> ends_number [] \<longrightarrow> list_all json_space [] \<longrightarrow>
      read_value (2 * length t + 2) ([] @ t @ []) = Some (v, [])"
    using assms(1) unfolding reads_def by blast
  then have "read_value (2 * length t + 2) t = Some (v, [])" by (simp del: read_value.simps)
  then show ?thesis using merge_members_ok [OF assms(2)] by (simp add: json_loads_def del: read_value.simps)
qed

lemma loads_indent: "json_ok v \<Longrightarrow> json_loads (dumps_indent k v) = Some v"
  by (rule loads_reads [OF dumps_indent_reads])

lemma loads_dumps:
  assumes "list_all json_space w" "list_all json_space w1" "json_ok v"
  shows "json_loads (dumps (CHR '','' # w) (CHR '':'' # w1) by_key v) = Some (if by_key then sort_json v else v)"
proof -
  have plain: "json_loads (dumps (CHR '','' # w) (CHR '':'' # w1) False v) = Some v" if "json_ok v" for v
    using dumps_reads [OF assms(1,2) that] that by (rule loads_reads)
  show ?thesis
    using plain [of "if by_key then sort_json v else v"] assms(3) sort_json_ok by (cases by_key) (simp_all add: dumps_sorted)
qed

text \<open>What is decoded can be encoded: a text that decodes at all means its value's encoding.\<close>

lemma foldl_update_dict_wf:
  "dict_wf acc \<Longrightarrow> dict_wf (foldl (\<lambda>acc (k, v). AList.update k v acc) acc d)"
  by (induction d arbitrary: acc) (auto simp: dict_wf_set)

lemma foldl_update_values:
  "snd ` set (foldl (\<lambda>acc (k, v). AList.update k v acc) acc d) \<subseteq> snd ` set acc \<union> snd ` set d"
proof (induction d arbitrary: acc)
  case (Cons kv d)
  have "snd ` set (AList.update k v acc) \<subseteq> insert v (snd ` set acc)" for k v
    by (induction acc) auto
  then have "snd ` set (AList.update (fst kv) (snd kv) acc) \<subseteq> insert (snd kv) (snd ` set acc)" .
  then show ?case using Cons [of "AList.update (fst kv) (snd kv) acc"] by (simp add: split_beta) blast
qed simp

lemma list_all_values: "\<forall>v \<in> snd ` set d. P v \<Longrightarrow> list_all (\<lambda>(_, v). P v) d"
  by (force simp: list_all_iff)

fun floats_ok :: "json \<Rightarrow> bool" where
  "floats_ok (JFloat s) \<longleftrightarrow> json_ok (JFloat s)"
| "floats_ok (JList vs) \<longleftrightarrow> list_all floats_ok vs"
| "floats_ok (JObj d) \<longleftrightarrow> list_all (\<lambda>(_, v). floats_ok v) d"
| "floats_ok v \<longleftrightarrow> True"

lemma merge_members_json_ok: "floats_ok v \<Longrightarrow> json_ok (merge_members v)"
proof (induction v)
  case (JObj d)
  let ?d = "map (\<lambda>(k, v). (k, merge_members v)) d"
  have "json_ok (merge_members v)" if "(k, v) \<in> set d" for k v
    using JObj.IH [OF that, of v] JObj.prems that by (auto simp: list_all_iff)
  then have "\<forall>v \<in> snd ` set ?d. json_ok v" by auto
  then have "list_all (\<lambda>(_, v). json_ok v) (foldl (\<lambda>acc (k, v). AList.update k v acc) [] ?d)"
    proof (intro list_all_values ballI)
    fix v
    assume "v \<in> snd ` set (foldl (\<lambda>acc (k, v). AList.update k v acc) [] ?d)"
    then have "v \<in> snd ` set ?d" using subsetD [OF foldl_update_values [of "[]" ?d]] by simp
    with \<open>\<forall>v \<in> snd ` set ?d. json_ok v\<close> show "json_ok v" by (rule bspec)
  qed
  moreover have "dict_wf (foldl (\<lambda>acc (k, v). AList.update k v acc) [] ?d)"
    using dict_wf_empty by (rule foldl_update_dict_wf)
  ultimately show ?case by (simp only: json_ok.simps merge_members.simps)
qed (auto simp: list_all_iff)

lemma read_scalar_floats:
  "read_scalar cs = Some (v, r) \<Longrightarrow> floats_ok v"
  by (auto simp: read_scalar_def number_value_def Let_def list_all_iff dest: set_takeWhileD
      split: option.splits if_splits)

lemma read_value_Some:
  assumes "read_value (Suc n) cs = Some (v, r)"
  obtains s where "v = JStr s" | vs cs' where "v = JList vs" "read_items n cs' = Some (vs, r)"
  | "v = JList []" | d cs' where "v = JObj d" "read_members n cs' = Some (d, r)" | "v = JObj []"
  | cs' where "read_scalar cs' = Some (v, r)"
  using assms by (auto split: list.splits if_splits)

lemma read_items_Some:
  assumes "read_items (Suc n) cs = Some (vs, r)"
  obtains v r' where "read_value n cs = Some (v, r')" "vs = [v]"
  | v r' cs' vs' where "read_value n cs = Some (v, r')" "read_items n cs' = Some (vs', r)" "vs = v # vs'"
  using assms by (auto split: list.splits if_splits option.splits)

lemma read_members_Some:
  assumes "read_members (Suc n) cs = Some (d, r)"
  obtains k v cs' r' where "read_value n cs' = Some (v, r')" "d = [(k, v)]"
  | k v cs' r' cs'' d' where "read_value n cs' = Some (v, r')" "read_members n cs'' = Some (d', r)" "d = (k, v) # d'"
  using assms by (auto split: list.splits if_splits option.splits)

lemma read_floats:
  "(\<forall>cs v r. read_value n cs = Some (v, r) \<longrightarrow> floats_ok v) \<and>
   (\<forall>cs vs r. read_items n cs = Some (vs, r) \<longrightarrow> list_all floats_ok vs) \<and>
   (\<forall>cs d r. read_members n cs = Some (d, r) \<longrightarrow> list_all (\<lambda>(_, v). floats_ok v) d)"
proof (induction n)
  case 0
  then show ?case by simp
next
  case (Suc n)
  have ih: "\<And>cs v r. read_value n cs = Some (v, r) \<Longrightarrow> floats_ok v"
      "\<And>cs vs r. read_items n cs = Some (vs, r) \<Longrightarrow> list_all floats_ok vs"
      "\<And>cs d r. read_members n cs = Some (d, r) \<Longrightarrow> list_all (\<lambda>(_, v). floats_ok v) d"
    using Suc by blast+
  have of_value: "floats_ok v" if "read_value (Suc n) cs = Some (v, r)" for cs v r
    using that by (rule read_value_Some) (auto dest: read_scalar_floats ih)
  have items: "list_all floats_ok vs" if "read_items (Suc n) cs = Some (vs, r)" for cs vs r
    using that by (rule read_items_Some) (auto dest: ih)
  have members: "list_all (\<lambda>(_, v). floats_ok v) d" if "read_members (Suc n) cs = Some (d, r)" for cs d r
    using that by (rule read_members_Some) (auto dest: ih)
  show ?case using of_value items members by blast
qed

lemma loads_ok:
  assumes "json_loads text = Some v"
  shows "json_ok v"
proof (cases "read_value (2 * length text + 2) text")
  case None
  then show ?thesis using assms by (simp only: json_loads_def option.simps)
next
  case (Some vr)
  obtain u r where u: "vr = (u, r)" by (metis surj_pair)
  have "v = merge_members u"
    using assms unfolding json_loads_def Some u by (simp split: if_splits)
  then show ?thesis using read_floats Some u merge_members_json_ok by blast
qed

end
