(* ===== verification/Request_Context.thy ===== *)
theory Request_Context
  imports JSON_Roundtrip Auth
begin

section \<open>Request context and logs (\<open>request_context.py\<close>, \<open>auth/context.py\<close>, \<open>logging.py\<close>)\<close>

text \<open>
  The two context variables of a request as a record that a block of code gets and gives back; the
  middleware around an ASGI application, which is a function of the context that sends messages and
  ends somehow; the filter that stamps log records with the context and the formatter that prints
  them. Durations and tracebacks are left out, and what a response's headers are beyond the one the
  middleware sets is the application's.
\<close>


subsection \<open>Context variables\<close>

record request_context =
  ctx_request_id :: "string option"
  ctx_principal :: "principal option"

text \<open>\<open>bind_request_id\<close> and \<open>bind_principal\<close> around a block, however it ends.\<close>

definition bind_request_id ::
  "string option \<Rightarrow> (request_context \<Rightarrow> 'a \<times> request_context) \<Rightarrow> request_context \<Rightarrow> 'a \<times> request_context" where
  "bind_request_id request_id block c =
     (case request_id of
        None \<Rightarrow> block c
      | Some i \<Rightarrow> (case block (c\<lparr>ctx_request_id := Some i\<rparr>) of
          (r, c') \<Rightarrow> (r, c'\<lparr>ctx_request_id := ctx_request_id c\<rparr>)))"

definition bind_principal ::
  "principal \<Rightarrow> (request_context \<Rightarrow> 'a \<times> request_context) \<Rightarrow> request_context \<Rightarrow> 'a \<times> request_context" where
  "bind_principal p block c =
     (case block (c\<lparr>ctx_principal := Some p\<rparr>) of
        (r, c') \<Rightarrow> (r, c'\<lparr>ctx_principal := ctx_principal c\<rparr>))"

definition is_request_id_char :: "char \<Rightarrow> bool" where
  "is_request_id_char c \<longleftrightarrow> is_alnum_ascii c \<or> c \<in> set ''._:-''"

definition valid_request_id :: "string \<Rightarrow> bool" where
  "valid_request_id s \<longleftrightarrow> matches_class is_request_id_char 1 128 s"

text \<open>\<open>fresh\<close> stands for \<open>uuid4()\<close>.\<close>

definition resolve_request_id :: "uuid \<Rightarrow> string option \<Rightarrow> string" where
  "resolve_request_id fresh candidate =
     (case candidate of
        Some s \<Rightarrow> if valid_request_id s then s else uuid_str fresh
      | None \<Rightarrow> uuid_str fresh)"


subsection \<open>Log records\<close>

record log_record =
  lr_timestamp :: string
  lr_level :: string
  lr_logger :: string
  lr_message :: string
  lr_attributes :: json_object \<comment> \<open>the \<open>extra\<close> fields, in order\<close>
  lr_exc_info :: "string option"

text \<open>\<open>RequestContextFilter.filter\<close>.\<close>

definition context_filter :: "request_context \<Rightarrow> log_record \<Rightarrow> log_record" where
  "context_filter c r =
     (let with_id = (case ctx_request_id c of None \<Rightarrow> lr_attributes r
                     | Some i \<Rightarrow> dict_set ''request_id'' (JStr i) (lr_attributes r))
      in r\<lparr>lr_attributes := (case ctx_principal c of None \<Rightarrow> with_id
                     | Some p \<Rightarrow> dict_set ''principal'' (JStr (subject p)) with_id)\<rparr>)"

definition RESERVED :: "string list" where
  "RESERVED = [''name'', ''msg'', ''args'', ''levelname'', ''levelno'', ''pathname'', ''filename'',
     ''module'', ''exc_info'', ''exc_text'', ''stack_info'', ''lineno'', ''funcName'', ''created'', ''msecs'',
     ''relativeCreated'', ''thread'', ''threadName'', ''processName'', ''process'', ''taskName'']"

definition promoted :: "string \<Rightarrow> bool" where
  "promoted k \<longleftrightarrow> k \<notin> set RESERVED \<and> take 1 k \<noteq> ''_''"

text \<open>\<open>JsonFormatter.format\<close>.\<close>

definition log_payload :: "log_record \<Rightarrow> json_object" where
  "log_payload r =
     (let base = [(''timestamp'', JStr (lr_timestamp r)), (''level'', JStr (lr_level r)),
                  (''logger'', JStr (lr_logger r)), (''message'', JStr (lr_message r))];
          all = foldl (\<lambda>d (k, v). dict_set k v d) base (filter (\<lambda>(k, _). promoted k) (lr_attributes r))
      in case lr_exc_info r of None \<Rightarrow> all | Some e \<Rightarrow> dict_set ''exc_info'' (JStr e) all)"

definition format_record :: "log_record \<Rightarrow> string" where
  "format_record r = json_dumps (JObj (log_payload r))"

record root_logger =
  root_handlers :: "string list"
  root_level :: string

definition upper_char :: "char \<Rightarrow> char" where
  "upper_char c = (if is_lower c then char_of (of_char c - (32 :: nat)) else c)"

definition configure_logging :: "string \<Rightarrow> root_logger \<Rightarrow> root_logger" where
  "configure_logging level root = \<lparr>root_handlers = [''json''], root_level = map upper_char level\<rparr>"


subsection \<open>The middleware\<close>

datatype asgi_message = ResponseStart int "(string, string) dict" | ResponseBody string

text \<open>
  How the application's call ends; an exception carries the traceback that \<open>formatException\<close> writes.
\<close>

datatype ending = AppReturned | AppRaised exn string | AppCancelled

type_synonym asgi_app = "request_context \<Rightarrow> (asgi_message list \<times> ending) \<times> request_context"

definition REQUEST_ID_HEADER :: string where "REQUEST_ID_HEADER = ''x-request-id''"

fun with_request_id :: "string \<Rightarrow> asgi_message \<Rightarrow> asgi_message" where
  "with_request_id i (ResponseStart code headers) = ResponseStart code (dict_set REQUEST_ID_HEADER i headers)"
| "with_request_id i (ResponseBody b) = ResponseBody b"

fun started_status :: "int option \<Rightarrow> asgi_message list \<Rightarrow> int option" where
  "started_status st [] = st"
| "started_status st (ResponseStart code _ # ms) = started_status (Some code) ms"
| "started_status st (ResponseBody _ # ms) = started_status st ms"

definition internal_server_error :: "asgi_message list" where
  "internal_server_error =
     [ResponseStart 500 [(''content-length'', ''34''), (''content-type'', ''application/json'')],
      ResponseBody (json_dumps_compact (JObj [(''detail'', JStr ''Internal Server Error'')]))]"

definition completed_record :: "string \<Rightarrow> string \<Rightarrow> int option \<Rightarrow> log_record" where
  "completed_record verb path st =
     \<lparr>lr_timestamp = [], lr_level = ''INFO'', lr_logger = ''enterprise_agent_platform.request_context'',
      lr_message = ''request.completed'',
      lr_attributes = [(''method'', JStr verb), (''path'', JStr path),
        (''status_code'', case st of None \<Rightarrow> JNull | Some n \<Rightarrow> JInt n)],
      lr_exc_info = None\<rparr>"

definition failed_record :: "string \<Rightarrow> log_record" where
  "failed_record traceback =
     \<lparr>lr_timestamp = [], lr_level = ''ERROR'', lr_logger = ''enterprise_agent_platform.request_context'',
      lr_message = ''request.failed'', lr_attributes = [], lr_exc_info = Some traceback\<rparr>"

text \<open>
  \<open>RequestContextMiddleware.__call__\<close> on an HTTP scope: what is sent, how the call ends, what is
  logged, and the context afterwards.
\<close>

definition middleware ::
  "uuid \<Rightarrow> string option \<Rightarrow> string \<Rightarrow> string \<Rightarrow> asgi_app \<Rightarrow> request_context
   \<Rightarrow> asgi_message list \<times> ending \<times> log_record list \<times> request_context" where
  "middleware fresh header verb path app c =
     (let i = resolve_request_id fresh header in
      case app (c\<lparr>ctx_request_id := Some i\<rparr>) of
        ((sent, e), c1) \<Rightarrow>
          let sent1 = map (with_request_id i) sent;
              st = started_status None sent1;
              replaced = (case e of AppRaised _ _ \<Rightarrow> st = None | _ \<Rightarrow> False);
              sent2 = sent1 @ (if replaced then map (with_request_id i) internal_server_error else []);
              failed = (case e of AppRaised _ traceback \<Rightarrow> [context_filter c1 (failed_record traceback)] | _ \<Rightarrow> [])
          in (sent2, if replaced then AppReturned else e,
              failed @ [context_filter c1 (completed_record verb path (started_status None sent2))],
              c1\<lparr>ctx_request_id := ctx_request_id c\<rparr>))"

definition call_middleware ::
  "bool \<Rightarrow> uuid \<Rightarrow> string option \<Rightarrow> string \<Rightarrow> string \<Rightarrow> asgi_app \<Rightarrow> request_context
   \<Rightarrow> asgi_message list \<times> ending \<times> log_record list \<times> request_context" where
  "call_middleware is_http fresh header verb path app c =
     (if is_http then middleware fresh header verb path app c
      else (case app c of ((sent, e), c1) \<Rightarrow> (sent, e, [], c1)))"


subsection \<open>The identifier is safe, and every response carries it\<close>

definition printable :: "char \<Rightarrow> bool" where
  "printable c \<longleftrightarrow> (let n = of_char c in 32 \<le> n \<and> n < (127::nat))"

lemma digit_char_hex:
  assumes "n < 16"
  shows "is_request_id_char (digit_char n) \<and> printable (digit_char n)"
  using assms
  by (auto simp: is_request_id_char_def printable_def char_class_defs digit_char_def of_char_of take_bit_eq_mod)

lemma hex_digits_safe: "c \<in> set (hex_digits k n) \<Longrightarrow> is_request_id_char c \<and> printable c"
  by (auto simp: hex_digits_def digit_char_hex)

lemma uuid_str_valid: "valid_request_id (uuid_str u)"
proof -
  have len: "length (hex_digits 32 (unat u)) = 32" by (simp add: hex_digits_def)
  have "is_request_id_char (CHR ''-'')" by code_simp
  moreover have "is_request_id_char c" if "c \<in> set (hex_digits 32 (unat u))" for c
    using hex_digits_safe [OF that] by blast
  ultimately have "\<forall>c \<in> set (uuid_str u). is_request_id_char c"
    by (auto simp: uuid_str_def Let_def dest!: in_set_takeD in_set_dropD)
  moreover have "length (uuid_str u) = 36" by (simp add: uuid_str_def Let_def len)
  ultimately show ?thesis by (simp add: valid_request_id_def matches_class_def list_all_iff)
qed

lemma resolve_valid: "valid_request_id (resolve_request_id fresh candidate)"
  by (simp add: resolve_request_id_def uuid_str_valid split: option.split)

lemma with_request_id_start:
  "m \<in> set (map (with_request_id i) ms) \<Longrightarrow> m = ResponseStart code headers \<Longrightarrow>
   dict_get headers REQUEST_ID_HEADER = Some i"
proof (induction ms)
  case (Cons a ms)
  then show ?case by (cases a) (auto simp: dict_get_set)
qed simp

lemma started_status_append: "started_status st (xs @ ys) = started_status (started_status st xs) ys"
  by (induction st xs rule: started_status.induct) simp_all

lemma internal_server_error_status: "started_status st (map (with_request_id i) internal_server_error) = Some 500"
  by (simp add: internal_server_error_def)

lemma middleware_cases:
  assumes "middleware fresh header verb path app c = (sent, e, log, c')"
  obtains i sent0 e0 c1 where "i = resolve_request_id fresh header"
    "app (c\<lparr>ctx_request_id := Some i\<rparr>) = ((sent0, e0), c1)"
    "sent = map (with_request_id i) (sent0 @
       (if (\<exists>x tb. e0 = AppRaised x tb) \<and> started_status None (map (with_request_id i) sent0) = None
        then internal_server_error else []))"
    "e = (if (\<exists>x tb. e0 = AppRaised x tb) \<and> started_status None (map (with_request_id i) sent0) = None
          then AppReturned else e0)"
    "c' = c1\<lparr>ctx_request_id := ctx_request_id c\<rparr>"
    "\<exists>failed. log = failed @ [context_filter c1 (completed_record verb path (started_status None sent))]"
proof -
  obtain sent0 e0 c1 where app:
      "app (c\<lparr>ctx_request_id := Some (resolve_request_id fresh header)\<rparr>) = ((sent0, e0), c1)"
    by (metis surj_pair)
  show thesis
    by (rule that [OF refl app]) (use assms app in \<open>cases e0; clarsimp simp: middleware_def Let_def split: if_splits\<close>)+
qed

text \<open>
  Every response that starts carries the request's identifier; a call raises only when its response
  had started or it was cancelled; and the context is as before, as far as the identifier goes.
\<close>

lemma middleware_correct:
  assumes "middleware fresh header verb path app c = (sent, e, log, c')"
  shows "\<forall>code headers. ResponseStart code headers \<in> set sent \<longrightarrow>
      dict_get headers REQUEST_ID_HEADER = Some (resolve_request_id fresh header)"
    and "e = AppRaised x tb \<Longrightarrow> \<exists>code headers. ResponseStart code headers \<in> set sent"
    and "ctx_request_id c' = ctx_request_id c"
proof -
  obtain i sent0 e0 c1 where m: "i = resolve_request_id fresh header"
    "sent = map (with_request_id i) (sent0 @
       (if (\<exists>x tb. e0 = AppRaised x tb) \<and> started_status None (map (with_request_id i) sent0) = None
        then internal_server_error else []))"
    "e = (if (\<exists>x tb. e0 = AppRaised x tb) \<and> started_status None (map (with_request_id i) sent0) = None
          then AppReturned else e0)"
    "c' = c1\<lparr>ctx_request_id := ctx_request_id c\<rparr>"
    using assms by (rule middleware_cases) blast
  show "\<forall>code headers. ResponseStart code headers \<in> set sent \<longrightarrow>
      dict_get headers REQUEST_ID_HEADER = Some (resolve_request_id fresh header)"
    unfolding m(2) using with_request_id_start m(1) by blast
  show "ctx_request_id c' = ctx_request_id c" by (simp add: m(4))
  have started: "\<exists>code headers. ResponseStart code headers \<in> set ms" if "started_status None ms \<noteq> None" for ms
    using that by (induction "None :: int option" ms rule: started_status.induct) auto
  assume "e = AppRaised x tb"
  then have "started_status None sent \<noteq> None"
    using m(2,3) by (auto split: if_splits)
  then show "\<exists>code headers. ResponseStart code headers \<in> set sent" by (rule started)
qed


subsection \<open>A log line is one line\<close>

text \<open>Every character of the formatted record is printable ASCII, whatever is logged.\<close>

fun floats_printable :: "json \<Rightarrow> bool" where
  "floats_printable (JFloat s) \<longleftrightarrow> list_all printable s"
| "floats_printable (JList vs) \<longleftrightarrow> list_all floats_printable vs"
| "floats_printable (JObj d) \<longleftrightarrow> list_all (\<lambda>(_, v). floats_printable v) d"
| "floats_printable v \<longleftrightarrow> True"

lemma escape_char_printable: "list_all printable (escape_char c)"
proof -
  have unicode: "list_all printable (unicode_escape n)" for n
  proof -
    show ?thesis using hex_digits_safe by (auto simp: unicode_escape_def list_all_iff printable_def)
  qed
  show ?thesis
    using unicode by (auto simp: escape_char_def Let_def printable_def)
qed

lemma printable_syntax [simp]:
  "printable (CHR ''['')" "printable (CHR '']'')" "printable (CHR ''{'')" "printable (CHR ''}'')"
  "printable (CHR ''-'')" "printable (CHR '','')" "printable (CHR '':'')" "printable (CHR '' '')"
  "printable (CHR ''n'')" "printable (CHR ''u'')" "printable (CHR ''l'')" "printable (CHR ''t'')"
  "printable (CHR ''r'')" "printable (CHR ''e'')" "printable (CHR ''f'')" "printable (CHR ''a'')"
  "printable (CHR ''s'')" "printable (CHR 0x22)"
  by (simp_all add: printable_def)

lemma int_str_printable: "list_all printable (int_str i)"
proof -
  have "list_all printable (nat_str n)" for n
  proof (induction n rule: nat_str.induct)
    case (1 n)
    then show ?case using digit_char_hex [of n] digit_char_hex [of "n mod 10"]
      by (subst nat_str.simps) simp
  qed
  then show ?thesis by (simp add: int_str_def)
qed

lemma quote_json_printable: "list_all printable (quote_json s)"
  using escape_char_printable by (auto simp: quote_json_def list_all_iff)

lemma py_join_printable: "list_all printable sep \<Longrightarrow> list_all (list_all printable) xs \<Longrightarrow> list_all printable (py_join sep xs)"
  by (induction sep xs rule: py_join.induct) simp_all

lemma sort_members_set: "set (sort_members d) = set d"
proof -
  have "set (insert_member kv xs) = insert kv (set xs)" for kv :: "string \<times> 'a" and xs
    by (induction kv xs rule: insert_member.induct) auto
  then show ?thesis by (induction d) (simp_all add: sort_members_def)
qed

lemma members_printable:
  "\<forall>(k, t) \<in> set ms. list_all printable t \<Longrightarrow> list_all printable key \<Longrightarrow>
   list_all (list_all printable) (map (\<lambda>(k, t). quote_json k @ key @ t) ms)"
  using quote_json_printable by (induction ms) auto

lemma float_json_printable: "list_all printable s \<Longrightarrow> list_all printable (float_json s)"
  by (simp add: float_json_def) (simp add: printable_def)

lemma dumps_printable:
  assumes "list_all printable item" "list_all printable key" "floats_printable v"
  shows "list_all printable (dumps item key by_key v)"
  using assms(3)
proof (induction v)
  case (JBool b)
  then show ?case by simp
next
  case (JList vs)
  then have "list_all (list_all printable) (map (dumps item key by_key) vs)"
    by (auto simp: list_all_iff)
  then show ?case
    using py_join_printable [OF assms(1)] by simp
next
  case (JObj d)
  let ?members = "map (\<lambda>(k, v). (k, dumps item key by_key v)) d"
  have "\<forall>(k, t) \<in> set ?members. list_all printable t"
    using JObj by (fastforce simp: list_all_iff)
  moreover have "set ((if by_key then sort_members else (\<lambda>x. x)) ?members) = set ?members"
    by (cases by_key) (simp_all only: sort_members_set if_True if_False)
  ultimately have "\<forall>(k, t) \<in> set ((if by_key then sort_members else (\<lambda>x. x)) ?members). list_all printable t"
    by (simp only:)
  then have "list_all (list_all printable) (map (\<lambda>(k, t). quote_json k @ key @ t)
      ((if by_key then sort_members else (\<lambda>x. x)) ?members))"
    using assms(2) by (rule members_printable)
  then show ?case
    using py_join_printable [OF assms(1)] by simp
qed (simp_all add: int_str_printable quote_json_printable float_json_printable)

lemma format_record_printable:
  assumes "list_all (\<lambda>(_, v). floats_printable v) (lr_attributes r)"
  shows "list_all printable (format_record r)"
proof -
  have keep: "list_all (\<lambda>(_, v). floats_printable v) (dict_set k v d)"
    if "floats_printable v" "list_all (\<lambda>(_, v). floats_printable v) d" for k v d
    using that by (induction d) auto
  have fold: "list_all (\<lambda>(_, v). floats_printable v) (foldl (\<lambda>d (k, v). dict_set k v d) base xs)"
    if "list_all (\<lambda>(_, v). floats_printable v) base" "list_all (\<lambda>(_, v). floats_printable v) xs" for base xs
    using that
  proof (induction xs arbitrary: base)
    case (Cons kv xs)
    then show ?case by (cases kv) (simp add: keep)
  qed simp
  moreover have "list_all (\<lambda>(_, v). floats_printable v) (filter (\<lambda>(k, _). promoted k) (lr_attributes r))"
    using assms by (auto simp: list_all_iff)
  ultimately have "floats_printable (JObj (log_payload r))"
    by (auto simp: log_payload_def Let_def split: option.split intro!: keep fold)
  then show ?thesis
    unfolding format_record_def json_dumps_def by (intro dumps_printable) simp_all
qed

text \<open>What the middleware logs stays on its lines, whatever the caller sent.\<close>

lemma context_filter_printable:
  assumes "list_all (\<lambda>(_, v). floats_printable v) (lr_attributes r)"
  shows "list_all printable (format_record (context_filter c r))"
proof (rule format_record_printable)
  have keep: "list_all (\<lambda>(_, v). floats_printable v) (dict_set k v d)"
    if "floats_printable v" "list_all (\<lambda>(_, v). floats_printable v) d" for k v d
    using that by (induction d) auto
  show "list_all (\<lambda>(_, v). floats_printable v) (lr_attributes (context_filter c r))"
    using assms by (simp add: context_filter_def Let_def keep split: option.split)
qed

lemma middleware_log_printable:
  assumes "middleware fresh header verb path app c = (sent, e, log, c')"
  shows "\<forall>r \<in> set log. list_all printable (format_record r)"
proof -
  have "list_all printable (format_record (context_filter c1 (completed_record verb path st)))" for c1 st
    by (rule context_filter_printable) (simp add: completed_record_def split: option.split)
  moreover have "list_all printable (format_record (context_filter c1 (failed_record tb)))" for c1 tb
    by (rule context_filter_printable) (simp add: failed_record_def)
  ultimately show ?thesis
    using assms by (auto simp: middleware_def Let_def split: prod.splits ending.splits)
qed

text \<open>A log line decodes to the record's fields.\<close>

lemma dict_set_values: "list_all (\<lambda>(_, v). P v) d \<Longrightarrow> P v \<Longrightarrow> list_all (\<lambda>(_, v). P v) (dict_set k v d)"
  by (induction d) auto

lemma foldl_set_ok:
  "dict_wf base \<Longrightarrow> list_all (\<lambda>(_, v). json_ok v) base \<Longrightarrow> list_all (\<lambda>(_, v). json_ok v) xs \<Longrightarrow>
   json_ok (JObj (foldl (\<lambda>d (k, v). dict_set k v d) base xs))"
proof (induction xs arbitrary: base)
  case (Cons kv xs)
  then show ?case
    by (cases kv) (simp only: foldl_Cons prod.case list.pred_inject dict_wf_set dict_set_values)
qed simp

lemma format_record_decodes:
  assumes "list_all (\<lambda>(_, v). json_ok v) (lr_attributes r)"
  shows "json_loads (format_record r) = Some (JObj (log_payload r))"
proof -
  let ?base = "[(''timestamp'', JStr (lr_timestamp r)), (''level'', JStr (lr_level r)),
    (''logger'', JStr (lr_logger r)), (''message'', JStr (lr_message r))]"
  let ?all = "foldl (\<lambda>d (k, v). dict_set k v d) ?base (filter (\<lambda>(k, _). promoted k) (lr_attributes r))"
  have "json_ok (JObj ?all)"
    by (rule foldl_set_ok) (use assms in \<open>auto simp: dict_wf_def list_all_iff\<close>)
  then have "json_ok (JObj (log_payload r))"
    by (cases "lr_exc_info r") (simp_all add: log_payload_def Let_def dict_wf_set dict_set_values)
  then show ?thesis
    using loads_dumps [of "'' ''" "'' ''" "JObj (log_payload r)" False]
    by (simp only: format_record_def json_dumps_def json_space_simps list.pred_inject if_False simp_thms)
qed

lemma context_filter_ok:
  "list_all (\<lambda>(_, v). json_ok v) (lr_attributes r) \<Longrightarrow>
   list_all (\<lambda>(_, v). json_ok v) (lr_attributes (context_filter c r))"
  by (simp add: context_filter_def Let_def dict_set_values split: option.split)

lemma middleware_log_decodes:
  assumes "middleware fresh header verb path app c = (sent, e, log, c')"
  shows "\<forall>r \<in> set log. json_loads (format_record r) = Some (JObj (log_payload r))"
proof -
  have "json_loads (format_record (context_filter c1 (completed_record verb path st))) =
      Some (JObj (log_payload (context_filter c1 (completed_record verb path st))))" for c1 st
    by (intro format_record_decodes context_filter_ok) (simp add: completed_record_def split: option.split)
  moreover have "json_loads (format_record (context_filter c1 (failed_record tb))) =
      Some (JObj (log_payload (context_filter c1 (failed_record tb))))" for c1 tb
    by (intro format_record_decodes context_filter_ok) (simp add: failed_record_def)
  ultimately show ?thesis
    using assms by (auto simp: middleware_def Let_def split: prod.splits ending.splits)
qed

text \<open>A record made inside a request names it, and its caller.\<close>

lemma filtered_record_names_request:
  assumes "ctx_request_id c = Some i"
  shows "dict_get (lr_attributes (context_filter c r)) ''request_id'' = Some (JStr i)"
  using assms by (simp add: context_filter_def Let_def dict_get_set split: option.split)

lemma configure_logging_idempotent:
  "configure_logging level (configure_logging level' root) = configure_logging level root"
  by (simp add: configure_logging_def)

lemma bindings_restored:
  "ctx_request_id (snd (bind_request_id (Some i) block c)) = ctx_request_id c"
  "ctx_principal (snd (bind_principal p block' c)) = ctx_principal c"
  by (simp_all add: bind_request_id_def bind_principal_def split: prod.split)

end
