(* ===== verification/Service_Logs.thy ===== *)
theory Service_Logs
  imports Request_Context Agent_Runner Task_Router
begin

section \<open>What the services log\<close>

text \<open>
  The record each call of \<open>llm/client.py\<close>, \<open>tools/registry.py\<close>, \<open>tasks/service.py\<close>,
  \<open>agent/runner.py\<close> and \<open>auth/dependencies.py\<close> emits, as a function of what the call had and how it
  ended; \<open>client_logs\<close> and \<open>tool_logs\<close> put it beside the call itself. A record's logger, times and
  durations are left out. The client promises that prompts and answers are never logged, only their
  sizes; the theorems say what a record determines of a call.
\<close>

definition service_record :: "string \<Rightarrow> string \<Rightarrow> json_object \<Rightarrow> log_record" where
  "service_record level event extra =
     \<lparr>lr_timestamp = [], lr_level = level, lr_logger = [], lr_message = event,
      lr_attributes = extra, lr_exc_info = None\<rparr>"

abbreviation jint :: "nat \<Rightarrow> json" where
  "jint n \<equiv> JInt (int n)"

fun stop_reason_value :: "stop_reason \<Rightarrow> string" where
  "stop_reason_value END_TURN = ''end_turn''"
| "stop_reason_value MAX_TOKENS = ''max_tokens''"
| "stop_reason_value STOP_SEQUENCE = ''stop_sequence''"
| "stop_reason_value REFUSAL = ''refusal''"
| "stop_reason_value TOOL_USE = ''tool_use''"

fun risk_value :: "risk_level \<Rightarrow> string" where
  "risk_value READ = ''read''"
| "risk_value WRITE = ''write''"
| "risk_value CRITICAL = ''critical''"

text \<open>\<open>type(error).__name__\<close>.\<close>

fun class_name :: "exn \<Rightarrow> string" where
  "class_name (ValueError _) = ''ValueError''"
| "class_name (ValidationError _) = ''ValidationError''"
| "class_name (RuntimeError _) = ''RuntimeError''"
| "class_name TimeoutError = ''TimeoutError''"
| "class_name (InvalidTransitionError _ _) = ''InvalidTransitionError''"
| "class_name (TaskNotFoundError _) = ''TaskNotFoundError''"
| "class_name (ConcurrentUpdateError _ _ _) = ''ConcurrentUpdateError''"
| "class_name (NotResumableError _) = ''NotResumableError''"
| "class_name (LLM e) = llm_error_name e"
| "class_name (ToolExecutionError _) = ''ToolExecutionError''"
| "class_name (MCP e) = (case e of MCPTransportError _ \<Rightarrow> ''MCPTransportError''
     | MCPProtocolError _ \<Rightarrow> ''MCPProtocolError'' | MCPRemoteError _ _ \<Rightarrow> ''MCPRemoteError'')"
| "class_name (LedgerError _) = ''LedgerError''"
| "class_name (OtherError cls _) = cls"

definition is_retryable :: "exn \<Rightarrow> bool" where
  "is_retryable x = (case x of LLM e \<Rightarrow> retryable e | _ \<Rightarrow> False)"


subsection \<open>Model calls (\<open>llm/client.py\<close>)\<close>

definition prompt_chars :: "completion_request \<Rightarrow> nat" where
  "prompt_chars req = sum_list (map (length \<circ> msg_content) (req_messages req))"

definition log_fields :: "string \<Rightarrow> completion_request \<Rightarrow> string \<Rightarrow> json_object" where
  "log_fields provider req operation =
     [(''provider'', JStr provider), (''operation'', JStr operation),
      (''message_count'', jint (length (req_messages req))), (''prompt_chars'', jint (prompt_chars req)),
      (''tool_count'', jint (length (req_tools req)))]"

definition log_failure :: "exn \<Rightarrow> json_object \<Rightarrow> log_record" where
  "log_failure e extra = service_record ''WARNING'' ''llm.call.failed''
     (extra @ [(''error_type'', JStr (class_name e)), (''retryable'', JBool (is_retryable e))])"

definition log_completed :: "completion \<Rightarrow> json_object \<Rightarrow> log_record" where
  "log_completed c extra = service_record ''INFO'' ''llm.call.completed''
     (extra @ [(''model'', JStr (comp_model c)), (''stop_reason'', JStr (stop_reason_value (comp_stop_reason c))),
       (''input_tokens'', JInt (input_tokens (comp_usage c))),
       (''output_tokens'', JInt (output_tokens (comp_usage c))),
       (''response_chars'', jint (length (comp_text c))),
       (''tool_calls'', JList (map (JStr \<circ> call_name) (comp_tool_calls c)))])"

definition client_log :: "'x llm_client \<Rightarrow> completion_request \<Rightarrow> string \<Rightarrow> exn + completion \<Rightarrow> log_record" where
  "client_log C req operation out =
     (let extra = log_fields (provider_name (client_provider C)) req operation in
      case out of Inl e \<Rightarrow> log_failure e extra | Inr c \<Rightarrow> log_completed c extra)"

definition client_logs ::
  "'x llm_client \<Rightarrow> completion_request \<Rightarrow> string \<Rightarrow> ('x, 'm) outside_scheme
   \<Rightarrow> (exn + completion) \<times> ('x, 'm) outside_scheme \<times> log_record list" where
  "client_logs C req operation w =
     (case llm_complete C req w of (out, w') \<Rightarrow> (out, w', [client_log C req operation out]))"

text \<open>The further record of a structured call whose answer does not validate.\<close>

definition structured_log :: "'a response_schema \<Rightarrow> string \<Rightarrow> completion \<Rightarrow> log_record list" where
  "structured_log S operation c =
     (if comp_stop_reason c \<in> {REFUSAL, MAX_TOKENS} then []
      else (case schema_validate S (comp_text c) of
              Inr _ \<Rightarrow> []
            | Inl n \<Rightarrow> [service_record ''WARNING'' ''llm.structured_output.invalid''
                [(''operation'', JStr operation), (''schema'', JStr (schema_name S)), (''error_count'', jint n)]]))"

text \<open>What a record of a call determines: sizes, counts, the model's own metadata, an error's class.\<close>

definition request_shape :: "completion_request \<Rightarrow> nat \<times> nat \<times> nat" where
  "request_shape req = (length (req_messages req), prompt_chars req, length (req_tools req))"

definition answer_shape ::
  "exn + completion \<Rightarrow> (string \<times> bool) + (string \<times> stop_reason \<times> int \<times> int \<times> nat \<times> string list)" where
  "answer_shape out = map_sum (\<lambda>e. (class_name e, is_retryable e))
     (\<lambda>c. (comp_model c, comp_stop_reason c, input_tokens (comp_usage c), output_tokens (comp_usage c),
            length (comp_text c), map call_name (comp_tool_calls c))) out"

lemma stop_reason_value_inject [simp]: "stop_reason_value a = stop_reason_value b \<longleftrightarrow> a = b"
  by (cases a; cases b) simp_all

lemma map_JStr_inject: "map (JStr \<circ> f) xs = map (JStr \<circ> g) ys \<longleftrightarrow> map f xs = map g ys"
proof -
  have "inj JStr" by (simp add: inj_def)
  moreover have "map (JStr \<circ> f) xs = map JStr (map f xs)" "map (JStr \<circ> g) ys = map JStr (map g ys)" by simp_all
  ultimately show ?thesis by (metis inj_map_eq_map)
qed

lemma client_log_shape:
  "client_log C req op out = client_log C req' op out' \<longleftrightarrow>
     request_shape req = request_shape req' \<and> answer_shape out = answer_shape out'"
  by (cases out; cases out')
     (auto simp: client_log_def log_failure_def log_completed_def log_fields_def service_record_def Let_def
        request_shape_def answer_shape_def map_JStr_inject)


subsection \<open>Tool calls (\<open>tools/registry.py\<close>)\<close>

definition log_rejected :: "tool_call \<Rightarrow> risk_level option \<Rightarrow> string \<Rightarrow> log_record" where
  "log_rejected call risk outcome = service_record ''WARNING'' ''tool.call.rejected''
     [(''tool'', JStr (call_name call)),
      (''risk'', case risk of None \<Rightarrow> JNull | Some r \<Rightarrow> JStr (risk_value r)),
      (''outcome'', JStr outcome)]"

text \<open>The branch of \<open>execute\<close> a call takes, with what its record may show of it.\<close>

datatype tool_end = UnknownTool | InvalidArguments | ToolError | TimedOut | Failed exn | Answered nat

definition tool_ending :: "'x registry \<Rightarrow> tool_call \<Rightarrow> ('x, 'm) outside_scheme \<Rightarrow> tool_end" where
  "tool_ending reg call w =
     (case get_tool reg (call_name call) of
        None \<Rightarrow> UnknownTool
      | Some t \<Rightarrow>
          (case tool_validate t (call_arguments call) of
             Inl _ \<Rightarrow> InvalidArguments
           | Inr arguments \<Rightarrow>
               (case fst (tool_handler t arguments (ext_state w)) of
                  Inl (ToolExecutionError _) \<Rightarrow> ToolError
                | Inl TimeoutError \<Rightarrow> TimedOut
                | Inl e \<Rightarrow> Failed e
                | Inr text \<Rightarrow> Answered (length (truncate_result reg text)))))"

text \<open>A tool is registered under its own name, so \<open>tool.name\<close> is the call's.\<close>

definition tool_log :: "'x registry \<Rightarrow> tool_call \<Rightarrow> ('x, 'm) outside_scheme \<Rightarrow> log_record" where
  "tool_log reg call w =
     (let risk = map_option tool_risk (get_tool reg (call_name call));
          known = [(''tool'', JStr (call_name call)),
                   (''risk'', case risk of None \<Rightarrow> JNull | Some r \<Rightarrow> JStr (risk_value r))]
      in case tool_ending reg call w of
           UnknownTool \<Rightarrow> log_rejected call risk ''unknown_tool''
         | InvalidArguments \<Rightarrow> log_rejected call risk ''invalid_arguments''
         | ToolError \<Rightarrow> log_rejected call risk ''tool_error''
         | TimedOut \<Rightarrow> log_rejected call risk ''timeout''
         | Failed e \<Rightarrow> (service_record ''ERROR'' ''tool.call.failed'' (known @ [(''outcome'', JStr ''error'')]))
             \<lparr>lr_exc_info := Some (exn_str e)\<rparr>
         | Answered n \<Rightarrow> service_record ''INFO'' ''tool.call.completed''
             (known @ [(''outcome'', JStr ''ok''), (''result_chars'', jint n)]))"

definition tool_logs ::
  "'x registry \<Rightarrow> tool_call \<Rightarrow> ('x, 'm) outside_scheme
   \<Rightarrow> tool_result \<times> ('x, 'm) outside_scheme \<times> log_record" where
  "tool_logs reg call w = (case execute reg call w of (r, w') \<Rightarrow> (r, w', tool_log reg call w))"

text \<open>
  The record says what happened, and hides the arguments and the text unless the handler fails in a
  way nobody planned.
\<close>

lemma tool_ending_execute:
  "res_is_error (fst (execute reg call w)) \<longleftrightarrow> (\<forall>n. tool_ending reg call w \<noteq> Answered n)"
proof (cases "get_tool reg (call_name call)")
  case None
  then show ?thesis by (simp add: execute_def tool_ending_def failure_def)
next
  case t: (Some t)
  show ?thesis
  proof (cases "tool_validate t (call_arguments call)")
    case Inl
    then show ?thesis using t by (simp add: execute_def tool_ending_def failure_def)
  next
    case args: (Inr args)
    obtain out x where h: "tool_handler t args (ext_state w) = (out, x)" by (metis surj_pair)
    show ?thesis
    proof (cases out)
      case (Inl e)
      then show ?thesis using t args h
        by (cases e) (simp_all add: execute_def tool_ending_def failure_def Let_def)
    next
      case (Inr s)
      then show ?thesis using t args h by (simp add: execute_def tool_ending_def Let_def)
    qed
  qed
qed

lemma tool_log_ending:
  assumes "call_name c = call_name c'" "tool_ending reg c w = tool_ending reg c' w'"
  shows "tool_log reg c w = tool_log reg c' w'"
  using assms by (simp add: tool_log_def log_rejected_def Let_def split: tool_end.split)


subsection \<open>Transitions and runs (\<open>tasks/service.py\<close>, \<open>agent/runner.py\<close>)\<close>

definition transition_log :: "agent_task \<Rightarrow> agent_task \<Rightarrow> log_record" where
  "transition_log current updated = service_record ''INFO'' ''task.transitioned''
     [(''task_id'', JStr (uuid_str (task_id current))),
      (''from_status'', JStr (status_value (status current))),
      (''to_status'', JStr (status_value (status updated))), (''version'', JInt (version updated))]"

definition decision_log :: "bool \<Rightarrow> uuid \<Rightarrow> string \<Rightarrow> tool_call list \<Rightarrow> log_record" where
  "decision_log approved i who calls =
     service_record ''INFO'' (if approved then ''agent.run.approved'' else ''agent.run.rejected'')
       [(''task_id'', JStr (uuid_str i)),
        (if approved then ''approved_by'' else ''rejected_by'', JStr who),
        (''tools'', JList (map (JStr \<circ> call_name) calls))]"

text \<open>The routes' own records (\<open>tasks/router.py\<close>).\<close>

definition created_log :: "agent_task \<Rightarrow> log_record" where
  "created_log t = service_record ''INFO'' ''task.created'' [(''task_id'', JStr (uuid_str (task_id t)))]"

definition approval_refused_log :: "approval_policy \<Rightarrow> principal \<Rightarrow> agent_task \<Rightarrow> log_record list" where
  "approval_refused_log policy p t =
     (if may_approve policy p (requested_by t) then []
      else [service_record ''WARNING'' ''task.approval.refused''
        [(''task_id'', JStr (uuid_str (task_id t))), (''reason'', JStr ''requester_is_approver'')]])"

definition run_log :: "string \<Rightarrow> string \<Rightarrow> uuid \<Rightarrow> task_status \<Rightarrow> run_state \<Rightarrow> log_record" where
  "run_log level event i st s = service_record level event
     [(''task_id'', JStr (uuid_str i)), (''status'', JStr (status_value st)), (''steps'', JInt (rs_steps s)),
      (''tool_calls'', JInt (rs_tool_calls s)), (''input_tokens'', JInt (rs_input_tokens s)),
      (''output_tokens'', JInt (rs_output_tokens s))]"


subsection \<open>Refused credentials (\<open>auth/dependencies.py\<close>)\<close>

definition refusal_log ::
  "(string \<Rightarrow> string) \<Rightarrow> authenticator \<Rightarrow> scope list \<Rightarrow> string option \<Rightarrow> log_record list" where
  "refusal_log digest a accepted credentials =
     (case credentials of
        None \<Rightarrow> [service_record ''WARNING'' ''auth.rejected'' [(''reason'', JStr ''missing_bearer_credentials'')]]
      | Some token \<Rightarrow>
          (case authenticate digest a token of
             None \<Rightarrow> [service_record ''WARNING'' ''auth.rejected'' [(''reason'', JStr ''unknown_token'')]]
           | Some p \<Rightarrow>
               if holds_any p accepted then []
               else [service_record ''WARNING'' ''auth.rejected''
                 [(''reason'', JStr ''insufficient_scope''), (''principal'', JStr (subject p)),
                  (''required_scopes'', JList (map JStr (sorted_scopes accepted)))]]))"

text \<open>A refusal is logged exactly once, and its record depends on whom the token names, not on the token.\<close>

lemma refusal_logged_once:
  "length (refusal_log digest a accepted cred) =
     (case authorised digest a accepted cred of Inl _ \<Rightarrow> 1 | Inr _ \<Rightarrow> 0)"
  by (simp add: refusal_log_def authorised_def current_principal_def requires_def split: option.split)

lemma refusal_log_hides_token:
  "authenticate digest a token = authenticate digest a token' \<Longrightarrow>
   refusal_log digest a accepted (Some token) = refusal_log digest a accepted (Some token')"
  by (simp add: refusal_log_def)


subsection \<open>Printed\<close>

lemma service_record_printable:
  assumes "list_all (\<lambda>(_, v). floats_printable v) extra"
  shows "list_all printable (format_record (context_filter ctx (service_record level event extra)))"
  by (rule context_filter_printable) (simp add: service_record_def assms)

lemma client_log_printable:
  "list_all printable (format_record (context_filter ctx (client_log C req operation out)))"
proof (cases out)
  case (Inl e)
  then show ?thesis
    unfolding client_log_def Let_def Inl sum.case log_failure_def
    by (intro service_record_printable) (simp add: log_fields_def)
next
  case (Inr c)
  then show ?thesis
    unfolding client_log_def Let_def Inr sum.case log_completed_def
    by (intro service_record_printable) (simp add: log_fields_def list_all_iff)
qed

end
