(* ===== verification/Evaluation.thy ===== *)
theory Evaluation
  imports JSON_Text
begin

section \<open>Code equations\<close>

text \<open>
  The classes of characters, the digits of a numeral and the JSON escapes are defined on natural
  numbers, on which evaluation in the kernel is unary. The equations below compute the same
  functions on integers, which are binary, so that the concrete runs evaluate.
\<close>

lemma of_char_int: "(of_char c :: int) = int (of_char c)"
  by (simp only: of_nat_of_char)

lemma is_space_code [code]:
  "is_space c \<longleftrightarrow> (let n = of_char c in (9 \<le> n \<and> n \<le> (13::int)) \<or> (28 \<le> n \<and> n \<le> 32) \<or> n = 160)"
  unfolding is_space_def Let_def of_char_int by linarith

lemma is_white_code [code]:
  "is_white c \<longleftrightarrow> (let n = of_char c in (9 \<le> n \<and> n \<le> (13::int)) \<or> n = 32 \<or> n = 160)"
  unfolding is_white_def Let_def of_char_int by linarith

lemma is_digit_code [code]: "is_digit c \<longleftrightarrow> (let n = of_char c in 48 \<le> n \<and> n \<le> (57::int))"
  unfolding is_digit_def Let_def of_char_int by linarith

lemma is_lower_code [code]: "is_lower c \<longleftrightarrow> (let n = of_char c in 97 \<le> n \<and> n \<le> (122::int))"
  unfolding is_lower_def Let_def of_char_int by linarith

lemma is_upper_code [code]: "is_upper c \<longleftrightarrow> (let n = of_char c in 65 \<le> n \<and> n \<le> (90::int))"
  unfolding is_upper_def Let_def of_char_int by linarith


subsection \<open>Numerals\<close>

function digits_of :: "int \<Rightarrow> string" where
  "digits_of i =
     (if i < 10 then [''0123456789'' ! nat i] else digits_of (i div 10) @ [''0123456789'' ! nat (i mod 10)])"
  by pat_completeness auto

termination digits_of
  by (relation "measure nat") auto

lemma digit_char_nth:
  assumes "n < 10"
  shows "digit_char n = ''0123456789'' ! n"
proof -
  have "list_all (\<lambda>n. digit_char n = ''0123456789'' ! n) [0..<10]" by code_simp
  moreover have "n \<in> set [0..<10]" using assms by simp
  ultimately show ?thesis unfolding list_all_iff by (rule bspec)
qed

lemma nat_str_digits: "nat_str n = digits_of (int n)"
proof (induction n rule: nat_str.induct)
  case (1 n)
  show ?case
  proof (cases "n < 10")
    case True
    then show ?thesis by (subst nat_str.simps, subst digits_of.simps) (simp add: digit_char_nth)
  next
    case False
    have "nat_str (n div 10) = digits_of (int n div 10)"
      using 1 False by (simp add: zdiv_int)
    moreover have "digit_char (n mod 10) = ''0123456789'' ! nat (int n mod 10)"
      by (simp add: digit_char_nth nat_mod_distrib)
    ultimately show ?thesis
      using False by (subst nat_str.simps, subst digits_of.simps) simp
  qed
qed

lemma int_str_code [code]:
  "int_str i = (if i < 0 then ''-'' @ digits_of (- i) else digits_of i)"
  by (simp add: int_str_def nat_str_digits)

definition digits_value :: "string \<Rightarrow> int" where
  "digits_value s = foldl (\<lambda>a c. 10 * a + max 0 (of_char c - 48)) 0 s"

lemma int_parse_digits [code_unfold]: "int (parse_digits s) = digits_value s"
proof -
  have "int (foldl (\<lambda>a c. 10 * a + (of_char c - 48)) k s) =
      foldl (\<lambda>a c. 10 * a + max 0 (of_char c - 48)) (int k) s" for k
  proof (induction s arbitrary: k)
    case (Cons c s)
    have "max 0 (of_char c - 48 :: int) = int (of_char c - 48)"
      unfolding of_char_int by linarith
    then show ?case using Cons by simp
  qed simp
  from this [of 0] show ?thesis by (simp add: parse_digits_def digits_value_def)
qed


subsection \<open>JSON text\<close>

lemma escape_char_code [code]:
  "escape_char c =
     (let n = of_char c :: int in
      if n = 34 \<or> n = 92 then [CHR 0x5C, c]
      else if n = 8 then [CHR 0x5C, CHR ''b''] else if n = 9 then [CHR 0x5C, CHR ''t'']
      else if n = 10 then [CHR 0x5C, CHR ''n''] else if n = 12 then [CHR 0x5C, CHR ''f'']
      else if n = 13 then [CHR 0x5C, CHR ''r'']
      else if 32 \<le> n \<and> n < 127 then [c]
      else unicode_escape (code_point c))"
proof -
  have "(of_char c = (k::int)) \<longleftrightarrow> of_char c = nat k" if "0 \<le> k" for k
    using that unfolding of_char_int by linarith
  moreover have "32 \<le> (of_char c :: int) \<and> of_char c < (127::int) \<longleftrightarrow>
      32 \<le> (of_char c :: nat) \<and> of_char c < (127::nat)"
    unfolding of_char_int by linarith
  ultimately show ?thesis unfolding escape_char_def Let_def by simp
qed

text \<open>Below 0x80 a character is its code point.\<close>

definition code_point_int :: "char \<Rightarrow> int" where
  "code_point_int c = (let n = of_char c in if 128 \<le> n \<and> n < 160 then int (code_point c) else n)"

lemma code_point_int: "int (code_point c) = code_point_int c"
  unfolding code_point_int_def code_point_def Let_def of_char_int by simp

lemma str_le_code [code]:
  "str_le [] ys = True"
  "str_le (x # xs) [] = False"
  "str_le (x # xs) (y # ys) =
     (code_point_int x < code_point_int y \<or> (code_point_int x = code_point_int y \<and> str_le xs ys))"
  by (simp_all flip: code_point_int)

end
