(* ===== verification/Scenario_Adapters.thy ===== *)
theory Scenario_Adapters
  imports Scenario Application Demo_Books Repository_Equivalence MCP_Connections MCP_Transport
    Request_Context Service_Logs Evaluation
begin

section \<open>Concrete adapters and deployments\<close>

text \<open>
  The parameters instantiated: a remote server that publishes three tools, a channel on which one request was answered, a clerk's deployment
  holding a payment, and the operations two writers issue to a repository.
\<close>


subsection \<open>Operations on a repository\<close>

definition written_ops :: "repo_op list" where
  "written_ops = [Add demo_task, Get 7, Update started_task 1, Update started_task 1,
     ListTasks None 10, Add demo_task]"

lemma demo_texts:
  "trim ''Pay invoice 7'' = ''Pay invoice 7'' \<and> trim ''ana'' = ''ana'' \<and>
   \<not> has_nul ''Pay invoice 7'' \<and> \<not> has_nul ''ana''"
  by code_simp

lemma started_task_fields:
  "started_task = demo_task\<lparr>status := RUNNING, version := 2, updated_at := 1000,
     history := [\<lparr>from_status = PENDING, to_status = RUNNING, at_time = 1000, reason = Some ''agent run started''\<rparr>]\<rparr>"
  using started_task_eq(1) by (simp add: transition_to_eq demo_task_def)

lemma started_entry_storable:
  "jsonb_storable (dump_transition demo_pydantic
     \<lparr>from_status = PENDING, to_status = RUNNING, at_time = 1000, reason = Some ''agent run started''\<rparr>)"
  by code_simp

lemma demo_tasks_storable:
  "pg_storable demo_pydantic demo_postgres demo_task" "pg_storable demo_pydantic demo_postgres started_task"
  using demo_texts started_entry_storable unfolding started_task_fields
  by (simp_all add: pg_storable_def demo_task_def task_object_def mk_agent_task_eq demo_postgres_def history_of_def)

lemma written_ops_fit: "ops_fit (pg_storable demo_pydantic demo_postgres) written_ops"
  using demo_tasks_storable
  by (simp add: written_ops_def ops_fit_def one_identity_def)
     (simp add: started_task_fields same_identity_def demo_task_def)


subsection \<open>A remote server\<close>

definition billing_config :: mcp_server_config where
  "billing_config = (default_mcp_server_config ''billing'' ''billing-mcp'')
     \<lparr>tool_risk_overrides := [(''list_bills'', READ)]\<rparr>"

definition ledger_config :: mcp_server_config where
  "ledger_config = default_mcp_server_config ''ledger'' ''ledger-mcp''"

definition bill_tools :: "mcp_tool_declaration list" where
  "bill_tools = map (\<lambda>n. \<lparr>decl_name = n, decl_description = ''Bills.'', decl_input_schema = []\<rparr>)
     [''list_bills'', ''void_bill'', ''no such name'']"

definition void_schema :: json_object where
  "void_schema = [(''type'', JStr ''object''),
     (''properties'', JObj [(''bill_id'', JObj [(''type'', JStr ''string'')]),
        (''notify'', JObj [(''type'', JStr ''boolean'')])]),
     (''required'', JList [JStr ''bill_id'']), (''additionalProperties'', JBool False)]"

definition void_arguments :: json_object where
  "void_arguments = [(''bill_id'', JStr ''B-7'')]"

lemma void_model:
  "map_sum (\<lambda>_. ()) (\<lambda>_. ()) (arguments_model demo_pydantic ''billing__void_bill'' void_schema) = Inr ()"
  by code_simp

text \<open>A stub of its transport within the process; the outside is a list of process numbers.\<close>

definition billing_transport :: "nat \<Rightarrow> nat list mcp_transport" where
  "billing_transport pid = \<lparr>
     tr_request = (\<lambda>m p x. (Inr (if m = ''initialize''
       then [(''protocolVersion'', JStr PROTOCOL_VERSION), (''capabilities'', JObj [(''tools'', JObj [])])]
       else [(''tools'', JList [])]), x)),
     tr_notify = (\<lambda>m p x. (Inr (), x)),
     tr_aclose = (\<lambda>x. (Inr (), removeAll pid x))\<rparr>"

definition billing_client :: "nat list mcp_client" where
  "billing_client = \<lparr>cl_transport = billing_transport 1, cl_name = ''billing'', cl_timeout_ms = 30000,
     cl_server_info = None\<rparr>"

definition empty_registry :: "nat list registry" where
  "empty_registry = \<lparr>registered_tools = [], registry_timeout_ms = 30000, max_result_chars = 20000\<rparr>"

definition void_call :: tool_call where
  "void_call = \<lparr>call_id = ''v1'', call_name = ''billing__void_bill'', call_arguments = void_arguments\<rparr>"

definition billing_runner :: "(nat list, mem_repo) agent_runner" where
  "billing_runner = \<lparr>
     runner_llm = \<lparr>client_provider = \<lparr>provider_name = ''silent'',
       provider_complete = (\<lambda>req x. (Inl TimeoutError, x))\<rparr>, client_timeout_ms = 60000\<rparr>,
     runner_tools = snd (register_mcp_tools demo_pydantic empty_registry billing_client billing_config bill_tools),
     runner_repo = mem_port, max_steps = 8, max_tokens = 4096, auto_approve_up_to = READ,
     system_prompt = DEFAULT_SYSTEM_PROMPT\<rparr>"

lemma billing_registered:
  "fst (register_mcp_tools demo_pydantic empty_registry billing_client billing_config bill_tools) =
     Inr [''billing__list_bills'', ''billing__void_bill'']"
  by code_simp


subsection \<open>A channel with one answered request\<close>

definition ping_reply :: json_object where
  "ping_reply = [(''jsonrpc'', JStr ''2.0''), (''id'', JInt 1), (''result'', JObj [(''ok'', JBool True)])]"

definition answered_channel :: channel where
  "answered_channel = \<lparr>ch_state = (transport_init\<lparr>tp_started := True, tp_next_id := 1\<rparr>), ch_reading = True,
     ch_writing = [],
     ch_log = [Issued 1, Sent 1, Received ping_reply, Returned 1 (Inr [(''ok'', JBool True)])]\<rparr>"

lemma answered_channel_reached: "channel_reaches channel_open answered_channel"
proof -
  let ?s1 = "transport_init\<lparr>tp_started := True, tp_next_id := 1, tp_pending := [(1, Waiting)]\<rparr>"
  let ?r = "[(''ok'', JBool True)]"
  let ?s2 = "?s1\<lparr>tp_pending := [(1, Done (Inr ?r))]\<rparr>"
  let ?c1 = "\<lparr>ch_state = ?s1, ch_reading = True, ch_writing = [1], ch_log = [Issued 1]\<rparr>"
  let ?c2 = "\<lparr>ch_state = ?s1, ch_reading = True, ch_writing = [1], ch_log = [Issued 1, Sent 1]\<rparr>"
  let ?c3 = "\<lparr>ch_state = ?s1, ch_reading = True, ch_writing = [], ch_log = [Issued 1, Sent 1]\<rparr>"
  let ?c4 = "\<lparr>ch_state = ?s2, ch_reading = True, ch_writing = [], ch_log = [Issued 1, Sent 1, Received ping_reply]\<rparr>"
  have "channel_step channel_open ?c1"
    using channel_step.Issue [of channel_open 1 ?s1]
    by (simp add: channel_open_def begin_request_def transport_init_def write_outcome_def)
  moreover have "channel_step ?c1 ?c2" using channel_step.Write [of ?c1 1 "[]"] by simp
  moreover have "channel_step ?c2 ?c3" using channel_step.Drain [of ?c2 1 "[]"] by simp
  moreover have "channel_step ?c3 ?c4"
    using channel_step.Read [of ?c3 "Line (Some (JObj ping_reply))" True ?s2]
    by (simp add: read_frame_def dispatch_def ping_reply_def int_value_def get_or_null_def reply_value_def)
  moreover have "channel_step ?c4 answered_channel"
    using channel_step.Return [of ?c4 1 "Inr ?r"]
    by (simp add: answered_channel_def retire_def transport_init_def AList.delete_eq)
  ultimately show ?thesis by (blast intro: converse_rtranclp_into_rtranclp)
qed


definition polite_answer :: sdk_message where
  "polite_answer = \<lparr>sdk_content = [TextBlock ''Hello.''], sdk_model = ''m'', sdk_stop_reason = Some ''end_turn'',
     sdk_input_tokens = 1, sdk_output_tokens = 1\<rparr>"

definition asking_about :: "string \<Rightarrow> completion_request" where
  "asking_about s = \<lparr>req_messages = [\<lparr>msg_role = USER, msg_content = s, msg_tool_calls = [], msg_tool_results = []\<rparr>],
     req_system = None, req_max_tokens = 100, req_output_schema = None, req_tools = []\<rparr>"


subsection \<open>A production deployment\<close>

definition production_settings :: settings where
  "production_settings = default_settings\<lparr>deployed_to := production, llm_provider_named := AnthropicLLM,
     demo_tools_enabled := False, task_store := PostgresStore, database_url := Some ''postgresql://db/eap'',
     api_clients := demo_clients\<rparr>"


subsection \<open>A text the database refuses\<close>

text \<open>
  A tool call whose argument holds a NUL character, which JSON allows and \<open>jsonb\<close> does not: the
  checkpoint of the pause cannot be written, the driver's error leaves \<open>run\<close>, and the task stays
  running, from where it cannot be started again.
\<close>

definition database_runner :: "(fake_state, pg_repo) agent_runner" where
  "database_runner =
     \<lparr>runner_llm = \<lparr>client_provider = fake_provider ''fake-1'', client_timeout_ms = 60000\<rparr>,
      runner_tools = demo_registry, runner_repo = pg_port demo_pydantic demo_postgres, max_steps = 8,
      max_tokens = 4096, auto_approve_up_to = READ, system_prompt = DEFAULT_SYSTEM_PROMPT\<rparr>"

definition database_env :: "pg_repo env" where
  "database_env = \<lparr>others = (\<lambda>n r. r), clock = (\<lambda>n. 1000 + int n), finish_priority = (\<lambda>n i. i)\<rparr>"

definition nul_call :: tool_call where
  "nul_call = \<lparr>call_id = ''c3'', call_name = ''pay_invoice'', call_arguments = [(''invoice_id'', JStr [CHR 0x00])]\<rparr>"

definition database_world :: "(fake_state, pg_repo) world" where
  "database_world =
     \<lparr>ext_state = \<lparr>fake_script = [ScriptCompletion (asking ''Paying.'' [nul_call])], fake_requests = []\<rparr>,
      event_trace = [], store = projr (repo_add (pg_port demo_pydantic demo_postgres) demo_task pg_fresh),
      await_count = 0\<rparr>"

lemma nul_argument_strands_task:
  "(case run database_runner database_env 7 database_world of
      (out, w) \<Rightarrow> (map_sum id (\<lambda>_. ()) out, map_sum id status (repo_get (runner_repo database_runner) 7 (store w)),
        map_sum id (\<lambda>_. ()) (fst (run database_runner database_env 7 w)))) =
   (Inl (data_error demo_postgres), Inr RUNNING, Inl (InvalidTransitionError RUNNING RUNNING))"
  by code_simp


subsection \<open>A clerk's deployment\<close>

definition clerk_llm :: "ledger llm_provider" where
  "clerk_llm = \<lparr>provider_name = ''clerk'', provider_complete = (\<lambda>req L. (Inr
     \<lparr>comp_text = ''Paid.'', comp_model = ''clerk-1'', comp_stop_reason = END_TURN,
      comp_usage = \<lparr>input_tokens = 3, output_tokens = 1\<rparr>, comp_tool_calls = []\<rparr>, L))\<rparr>"

definition clerk_runner :: "(ledger, mem_repo) agent_runner" where
  "clerk_runner = \<lparr>runner_llm = \<lparr>client_provider = clerk_llm, client_timeout_ms = 60000\<rparr>,
     runner_tools = projr (default_registry (build_demo_tools demo_pydantic (\<lambda>_. []))),
     runner_repo = mem_port, max_steps = 8, max_tokens = 4096, auto_approve_up_to = WRITE,
     system_prompt = DEFAULT_SYSTEM_PROMPT\<rparr>"

definition settle_call :: tool_call where
  "settle_call = \<lparr>call_id = ''p1'', call_name = ''pay_invoice'',
     call_arguments = [(''invoice_id'', JStr ''INV-1043''), (''amount_eur'', JStr ''1284.50'')]\<rparr>"

definition payment_task :: agent_task where
  "payment_task = demo_task\<lparr>status := AWAITING_APPROVAL, version := 3, checkpoint := Some
     \<lparr>cp_messages =
        [\<lparr>msg_role = USER, msg_content = ''Pay'', msg_tool_calls = [], msg_tool_results = []\<rparr>,
         \<lparr>msg_role = ASSISTANT, msg_content = [], msg_tool_calls = [settle_call], msg_tool_results = []\<rparr>],
      cp_steps = 1, cp_tool_calls = 0, cp_usage = \<lparr>input_tokens = 3, output_tokens = 1\<rparr>\<rparr>\<rparr>"

definition payment_world :: "(ledger, mem_repo) world" where
  "payment_world = \<lparr>ext_state = new_ledger, event_trace = [], store = [(7, payment_task)], await_count = 0\<rparr>"

lemma clerk_registry_built:
  "map_sum (\<lambda>_. ()) (\<lambda>_. ()) (default_registry (build_demo_tools demo_pydantic (\<lambda>_. []))) = Inr ()"
  by code_simp

lemma clerk_deployment: "demo_deployment demo_pydantic (\<lambda>_. []) clerk_runner" "auto_approve_up_to clerk_runner \<noteq> CRITICAL"
proof -
  obtain reg where reg: "default_registry (build_demo_tools demo_pydantic (\<lambda>_. [])) = Inr reg"
    using clerk_registry_built by (cases "default_registry (build_demo_tools demo_pydantic (\<lambda>_. []))") auto
  then show "demo_deployment demo_pydantic (\<lambda>_. []) clerk_runner"
    using mk_registry_get [OF reg [unfolded default_registry_def]]
    by (simp add: demo_deployment_def clerk_runner_def clerk_llm_def)
  show "auto_approve_up_to clerk_runner \<noteq> CRITICAL" by (simp add: clerk_runner_def)
qed

lemma clerk_pays:
  "map (\<lambda>(i, p). (i, pay_amount p)) (payments (ext_state (snd (resume clerk_runner demo_env 7 ''bo'' None payment_world)))) =
     [(''INV-1043'', 128450)]"
  by code_simp

end
