(* ===== verification/MCP_Stdio.thy ===== *)
theory MCP_Stdio
  imports MCP_Transport MCP_Connections Service_Logs
begin

section \<open>Child processes and their pipes (\<open>mcp/transport.py\<close>)\<close>

text \<open>
  The stdio transport on the processes it starts. What a server program does is the parameter
  \<open>server\<close>: it keeps a memory, reacts to a line on its standard input by writing to its two outputs
  and perhaps exiting, and may or may not exit when its input is closed or it is sent SIGTERM. A
  \<open>child\<close> is such a program running, with what is unread in its pipes and the transport that talks to it;
  a \<open>host\<close> holds the children and the records the transport logged. A line is delivered, answered and
  read at once, and a request whose reply has not come then is ended by its caller's deadline: what a
  server answers too late it writes at its next reaction.

  A stream is a sequence of characters, where \<open>BadByte\<close> stands for a byte that belongs to no UTF-8
  encoded character and carries the \<open>repr\<close> of the decoder's complaint.
\<close>


subsection \<open>Lines\<close>

datatype stream_item = Char char | BadByte string

type_synonym stream = "stream_item list"

abbreviation newline :: char where
  "newline \<equiv> CHR 0x0A"

fun item_bytes :: "stream_item \<Rightarrow> int" where
  "item_bytes (BadByte e) = 1"
| "item_bytes (Char c) = (let n = code_point c in if n < 128 then 1 else if n < 2048 then 2 else 3)"

definition stream_bytes :: "stream \<Rightarrow> int" where
  "stream_bytes s = sum_list (map item_bytes s)"

text \<open>\<open>bytes.strip\<close> removes ASCII white space.\<close>

fun is_byte_space :: "stream_item \<Rightarrow> bool" where
  "is_byte_space (BadByte e) = False"
| "is_byte_space (Char c) = (let n = of_char c in (9 \<le> n \<and> n \<le> (13::nat)) \<or> n = 32)"

definition bytes_strip :: "stream \<Rightarrow> stream" where
  "bytes_strip s = rev (dropWhile is_byte_space (rev (dropWhile is_byte_space s)))"

text \<open>Decoding a line as UTF-8, or the complaint about its first bad byte.\<close>

fun decode_utf8 :: "stream \<Rightarrow> string + string" where
  "decode_utf8 [] = Inr []"
| "decode_utf8 (Char c # s) = map_sum id (Cons c) (decode_utf8 s)"
| "decode_utf8 (BadByte e # s) = Inl e"

text \<open>The loop of \<open>_read_stdout\<close> on one line, which \<open>readline\<close> refuses beyond the limit.\<close>

definition line_frame :: "stream \<Rightarrow> frame" where
  "line_frame line =
     (if MAX_FRAME_BYTES < stream_bytes line then TooLarge
      else
        let stripped = bytes_strip line in
        if stripped = [] then Blank
        else (case decode_utf8 stripped of
                Inl e \<Rightarrow> LoadFails e
              | Inr text \<Rightarrow> Line (json_loads text)))"

fun split_lines :: "'a \<Rightarrow> 'a list \<Rightarrow> 'a list list \<times> 'a list" where
  "split_lines nl [] = ([], [])"
| "split_lines nl (c # cs) =
     (case split_lines nl cs of (ls, rest) \<Rightarrow>
        if c = nl then ([] # ls, rest)
        else (case ls of [] \<Rightarrow> ([], c # rest) | l # ls' \<Rightarrow> ((c # l) # ls', rest)))"

text \<open>
  What \<open>readline\<close> makes of a pipe's content: the complete lines; a rest that is already too long; at
  the end of the stream the unterminated rest, then the end.
\<close>

definition stream_frames :: "bool \<Rightarrow> stream \<Rightarrow> frame list \<times> stream" where
  "stream_frames at_end s =
     (case split_lines (Char newline) s of (ls, rest) \<Rightarrow>
        (map line_frame ls @
           (if MAX_FRAME_BYTES < stream_bytes rest then [TooLarge]
            else if at_end then (if rest = [] then [] else [line_frame rest]) @ [EndOfStream]
            else []),
         rest))"

definition channel_read :: "frame \<Rightarrow> channel \<Rightarrow> channel" where
  "channel_read f c =
     (case read_frame f (ch_state c) of (goes_on, st) \<Rightarrow>
        c\<lparr>ch_state := st, ch_reading := goes_on,
          ch_log := ch_log c @ (case f of Line (Some (JObj m)) \<Rightarrow> [Received m] | _ \<Rightarrow> [])\<rparr>)"

text \<open>\<open>_dispatch\<close> logs a line that is no JSON object.\<close>

definition frame_log :: "string \<Rightarrow> frame \<Rightarrow> log_record list" where
  "frame_log command f =
     (case f of
        Line (Some (JObj m)) \<Rightarrow> []
      | Line _ \<Rightarrow> [service_record ''WARNING'' ''mcp.frame.invalid'' [(''command'', JStr command)]]
      | _ \<Rightarrow> [])"

fun read_frames :: "string \<Rightarrow> frame list \<Rightarrow> channel \<Rightarrow> channel \<times> log_record list" where
  "read_frames command [] c = (c, [])"
| "read_frames command (f # fs) c =
     (if ch_reading c
      then (case read_frames command fs (channel_read f c) of (c', logs) \<Rightarrow> (c', frame_log command f @ logs))
      else (c, []))"

text \<open>\<open>_drain_stderr\<close>, which stops at the end of the stream or at a line beyond the limit.\<close>

definition stderr_record :: "string \<Rightarrow> string \<Rightarrow> log_record" where
  "stderr_record command line = service_record ''WARNING'' ''mcp.server.stderr''
     [(''command'', JStr command), (''output'', JStr (py_rstrip line))]"

definition line_too_long :: "string \<Rightarrow> bool" where
  "line_too_long line \<longleftrightarrow> MAX_FRAME_BYTES < stream_bytes (map Char line)"

definition drain_stderr :: "string \<Rightarrow> bool \<Rightarrow> string \<Rightarrow> log_record list \<times> bool \<times> string" where
  "drain_stderr command at_end s =
     (case split_lines newline s of (ls, rest) \<Rightarrow>
        let read = takeWhile (\<lambda>l. \<not> line_too_long l) ls;
            stops = read \<noteq> ls \<or> line_too_long rest;
            last = (if at_end \<and> \<not> stops \<and> rest \<noteq> [] then [rest] else [])
        in (map (stderr_record command) (read @ last), \<not> stops \<and> \<not> at_end, rest))"


subsection \<open>Programs and processes\<close>

record 'm reaction =
  re_memory :: 'm
  re_stdout :: stream
  re_stderr :: string
  re_exits :: bool

record 'm server =
  sv_start :: 'm
  sv_reacts :: "'m \<Rightarrow> string \<Rightarrow> 'm reaction" \<comment> \<open>to a line on its standard input\<close>
  sv_exits_on_eof :: "'m \<Rightarrow> bool"
  sv_exits_on_term :: "'m \<Rightarrow> bool"

record 'm child =
  pr_server :: "'m server"
  pr_memory :: 'm
  pr_environment :: "(string, string) dict"
  pr_running :: bool
  pr_stdin_open :: bool
  pr_unread :: stream
  pr_unread_err :: string
  pr_draining :: bool
  pr_channel :: channel

record 'm host =
  h_children :: "(nat, 'm child) dict"
  h_logs :: "log_record list"

text \<open>The child's environment: what the deployment passes, with the platform's own \<open>PATH\<close>.\<close>

definition child_environment :: "string option \<Rightarrow> (string, string) dict \<Rightarrow> (string, string) dict" where
  "child_environment platform_path env =
     dict_set ''PATH'' (case platform_path of None \<Rightarrow> [] | Some p \<Rightarrow> p) env"

text \<open>The bytes of a message on the server's standard input, without the newline that ends them.\<close>

definition message_line :: "json_object \<Rightarrow> string" where
  "message_line m = dumps '','' '':'' False (JObj m)"

definition message_bytes :: "json_object \<Rightarrow> string" where
  "message_bytes m = message_line m @ [newline]"

text \<open>The server reads the line, and the two reader tasks read what it wrote.\<close>

definition deliver :: "string \<Rightarrow> string \<Rightarrow> 'm child \<Rightarrow> 'm child \<times> log_record list" where
  "deliver command line c =
     (let r = sv_reacts (pr_server c) (pr_memory c) line;
          (fs, unread) = stream_frames (re_exits r) (pr_unread c @ re_stdout r);
          (ch, logs) = read_frames command fs (pr_channel c);
          err = pr_unread_err c @ re_stderr r;
          (err_logs, draining, unread_err) =
            (if pr_draining c then drain_stderr command (re_exits r) err else ([], False, err))
      in (c\<lparr>pr_memory := re_memory r, pr_running := \<not> re_exits r, pr_unread := unread,
            pr_unread_err := unread_err, pr_draining := draining, pr_channel := ch\<rparr>,
          logs @ err_logs))"

text \<open>\<open>_write\<close>; \<open>sent\<close> is what the channel records of the line when it is written.\<close>

definition note_events :: "channel_event list \<Rightarrow> 'm child \<Rightarrow> 'm child" where
  "note_events evs c = c\<lparr>pr_channel := (pr_channel c)\<lparr>ch_log := ch_log (pr_channel c) @ evs\<rparr>\<rparr>"

definition child_write ::
  "string \<Rightarrow> channel_event list \<Rightarrow> json_object \<Rightarrow> 'm child \<Rightarrow> (exn + unit) \<times> 'm child \<times> log_record list" where
  "child_write command sent message c =
     (case write_outcome (pr_running c \<and> pr_stdin_open c) (ch_state (pr_channel c)) of
        Inl e \<Rightarrow> (Inl e, c, [])
      | Inr _ \<Rightarrow> (Inr (), deliver command (message_line message) (note_events sent c)))"

text \<open>\<open>request\<close>; \<open>Inl TimeoutError\<close> is the caller's deadline.\<close>

definition child_request ::
  "string \<Rightarrow> string \<Rightarrow> json_object option \<Rightarrow> 'm child
   \<Rightarrow> (exn + json_object) \<times> 'm child \<times> log_record list" where
  "child_request command method params c =
     (let (i, st) = begin_request (ch_state (pr_channel c));
          issued = note_events [Issued i] (c\<lparr>pr_channel := (pr_channel c)\<lparr>ch_state := st\<rparr>\<rparr>);
          finally = (\<lambda>event c1. note_events [event]
            (c1\<lparr>pr_channel := (pr_channel c1)\<lparr>ch_state := retire i (ch_state (pr_channel c1))\<rparr>\<rparr>))
      in case child_write command [Sent i] (request_message i method params) issued of
           (Inl e, c1, logs) \<Rightarrow> (Inl e, finally (Returned i (Inl e)) c1, logs)
         | (Inr _, c1, logs) \<Rightarrow>
             (case dict_get (tp_pending (ch_state (pr_channel c1))) i of
                Some (Done r) \<Rightarrow> (r, finally (Returned i r) c1, logs)
              | _ \<Rightarrow> (Inl TimeoutError, finally (Abandoned i) c1, logs)))"

definition child_notify ::
  "string \<Rightarrow> string \<Rightarrow> json_object option \<Rightarrow> 'm child \<Rightarrow> (exn + unit) \<times> 'm child \<times> log_record list" where
  "child_notify command method params c = child_write command [] (notify_message method params) c"

text \<open>
  What an action does to the process: a program that exits at the end of its input does so while it is
  waited for, SIGTERM can be ignored, SIGKILL cannot.
\<close>

fun act :: "shutdown_action \<Rightarrow> 'm child \<Rightarrow> 'm child" where
  "act CloseStdin c = c\<lparr>pr_stdin_open := False\<rparr>"
| "act Wait c = c\<lparr>pr_running := pr_running c \<and> (pr_stdin_open c \<or> \<not> sv_exits_on_eof (pr_server c) (pr_memory c))\<rparr>"
| "act Terminate c = c\<lparr>pr_running := pr_running c \<and> \<not> sv_exits_on_term (pr_server c) (pr_memory c)\<rparr>"
| "act Kill c = c\<lparr>pr_running := False\<rparr>"

text \<open>
  The escalation of \<open>aclose\<close>: each wait but the last is bounded by the grace period, and a process that
  still runs when it is over is sent the next signal.
\<close>

definition child_shutdown :: "'m child \<Rightarrow> shutdown_action list \<times> 'm child" where
  "child_shutdown c =
     (if \<not> pr_running c then ([], c)
      else
        let asked = (if pr_stdin_open c then [CloseStdin] else []) @ [Wait];
            c1 = fold act asked c
        in if \<not> pr_running c1 then (asked, c1)
           else
             let c2 = fold act [Terminate, Wait] c1
             in if \<not> pr_running c2 then (asked @ [Terminate, Wait], c2)
                else (asked @ [Terminate, Wait, Kill, Wait], fold act [Kill, Wait] c2))"

definition child_aclose :: "'m child \<Rightarrow> 'm child" where
  "child_aclose c =
     (if tp_closed (ch_state (pr_channel c)) then c
      else
        let c1 = snd (child_shutdown c) in
        c1\<lparr>pr_channel := (pr_channel c1)\<lparr>ch_state := transport_aclose (ch_state (pr_channel c1)), ch_reading := False\<rparr>,
           pr_draining := False\<rparr>)"


subsection \<open>Starting and talking to a server\<close>

definition on_child ::
  "nat \<Rightarrow> 'r \<Rightarrow> ('m child \<Rightarrow> 'r \<times> 'm child \<times> log_record list) \<Rightarrow> 'm host \<Rightarrow> 'r \<times> 'm host" where
  "on_child pid absent f h =
     (case dict_get (h_children h) pid of
        None \<Rightarrow> (absent, h)
      | Some c \<Rightarrow>
          (case f c of (r, c', logs) \<Rightarrow>
             (r, h\<lparr>h_children := dict_set pid c' (h_children h), h_logs := h_logs h @ logs\<rparr>)))"

text \<open>A started \<open>StdioTransport\<close> as the client sees it.\<close>

definition stdio_transport :: "string \<Rightarrow> nat \<Rightarrow> 'm host mcp_transport" where
  "stdio_transport command pid = \<lparr>
     tr_request = (\<lambda>method params. on_child pid (Inl (transport_error ''MCP transport is not connected''))
       (child_request command method params)),
     tr_notify = (\<lambda>method params. on_child pid (Inl (transport_error ''MCP transport is not connected''))
       (child_notify command method params)),
     tr_aclose = on_child pid (Inr ()) (\<lambda>c. (Inr (), child_aclose c, []))\<rparr>"

type_synonym 'm launcher =
  "string \<Rightarrow> string list \<Rightarrow> (string, string) dict \<Rightarrow> string option \<Rightarrow> 'm server option"

definition free_pid :: "'m host \<Rightarrow> nat" where
  "free_pid h = Suc (foldr (\<lambda>(pid, c). max pid) (h_children h) 0)"

definition new_child :: "'m server \<Rightarrow> (string, string) dict \<Rightarrow> transport_state \<Rightarrow> 'm child" where
  "new_child server env st =
     \<lparr>pr_server = server, pr_memory = sv_start server, pr_environment = env, pr_running = True,
      pr_stdin_open = True, pr_unread = [], pr_unread_err = [], pr_draining = True,
      pr_channel = \<lparr>ch_state = st, ch_reading = True, ch_writing = [], ch_log = []\<rparr>\<rparr>"

text \<open>\<open>StdioTransport(...)\<close> and its \<open>start\<close>; \<open>launch\<close> is the operating system, \<open>None\<close> an \<open>OSError\<close>.\<close>

definition stdio_spawn ::
  "'m launcher \<Rightarrow> string option \<Rightarrow> mcp_server_config \<Rightarrow> 'm host \<Rightarrow> (exn + 'm host mcp_transport) \<times> 'm host" where
  "stdio_spawn launch platform_path config h =
     (let command = mcp_command config; env = child_environment platform_path (mcp_env config);
          launched = launch command (mcp_args config) env (mcp_cwd config)
      in case (transport_start command (launched \<noteq> None) transport_init, launched) of
           (Inr st, Some server) \<Rightarrow>
             (Inr (stdio_transport command (free_pid h)),
              h\<lparr>h_children := dict_set (free_pid h) (new_child server env st) (h_children h)\<rparr>)
         | (Inl e, _) \<Rightarrow> (Inl e, h)
         | (Inr _, None) \<Rightarrow> (Inl (transport_error (''could not start MCP server '' @ quoted command)), h))"


subsection \<open>The text on the pipes\<close>

lemma number_char_printable: "is_number_char c \<Longrightarrow> printable c"
  by (auto simp: is_number_char_def is_digit_def printable_def Let_def)

lemma json_ok_printable: "json_ok v \<Longrightarrow> floats_printable v"
proof (induction v)
  case (JFloat s)
  then show ?case by (auto simp: list_all_iff number_char_printable) (simp_all add: printable_def)
next
  case (JObj d)
  have "floats_printable v" if "(k, v) \<in> set d" for k v
    using JObj.IH [OF that, of v] JObj.prems that by (auto simp: list_all_iff)
  then show ?case by (auto simp: list_all_iff)
qed (auto simp: list_all_iff)

lemma message_line_printable: "json_ok (JObj m) \<Longrightarrow> list_all printable (message_line m)"
  unfolding message_line_def by (intro dumps_printable json_ok_printable) simp_all

lemma message_line_round_trip: "json_ok (JObj m) \<Longrightarrow> json_loads (message_line m) = Some (JObj m)"
  using loads_dumps [of "[]" "[]" "JObj m" False] by (simp add: message_line_def)

lemma split_lines_append:
  "nl \<notin> set xs \<Longrightarrow> split_lines nl (xs @ nl # ys) = (case split_lines nl ys of (ls, rest) \<Rightarrow> (xs # ls, rest))"
  by (induction xs) (auto split: prod.split)

text \<open>The messages on the server's input are separate lines that decode to themselves, in order.\<close>

lemma framing_round_trip:
  assumes "list_all (\<lambda>m. json_ok (JObj m)) ms"
  shows "split_lines newline (concat (map message_bytes ms)) = (map message_line ms, []) \<and>
    map json_loads (map message_line ms) = map (\<lambda>m. Some (JObj m)) ms"
proof -
  have "newline \<notin> set (message_line m)" if "json_ok (JObj m)" for m
    using message_line_printable [OF that] by (auto simp: list_all_iff printable_def)
  then show ?thesis
    using assms by (induction ms) (auto simp: message_bytes_def split_lines_append message_line_round_trip)
qed

lemma printable_bytes: "list_all printable t \<Longrightarrow> stream_bytes (map Char t) = int (length t)"
proof (induction t)
  case (Cons c t)
  then have "of_char c < (128 :: nat)" by (simp add: printable_def Let_def)
  then have "code_point c < 128" by (simp add: code_point_def Let_def)
  then show ?case using Cons by (simp add: stream_bytes_def)
qed (simp add: stream_bytes_def)

lemma message_line_ends: "\<exists>t. message_line m = CHR ''{'' # t @ ''}''"
  by (simp add: message_line_def)

lemma message_line_strip: "bytes_strip (map Char (message_line m)) = map Char (message_line m)"
proof -
  obtain t where t: "message_line m = CHR ''{'' # t @ ''}''" using message_line_ends by blast
  show ?thesis unfolding t by (simp add: bytes_strip_def)
qed

lemma decode_text: "decode_utf8 (map Char t) = Inr t"
  by (induction t) simp_all


subsection \<open>A request and its reply\<close>

lemma dispatch_reply:
  assumes "dict_get (tp_pending st) i = Some Waiting" "int_value (get_or_null m ''id'') = Some i"
  shows "dict_get (tp_pending (dispatch (Some (JObj m)) st)) i = Some (Done (reply_value m))"
  using assms by (simp add: dispatch_def dict_get_set)

text \<open>A transport that is up: its process runs, and its reader reads.\<close>

definition connected :: "'m child \<Rightarrow> bool" where
  "connected c \<longleftrightarrow> pr_running c \<and> pr_stdin_open c \<and> ch_reading (pr_channel c) \<and>
     tp_started (ch_state (pr_channel c)) \<and> \<not> tp_closed (ch_state (pr_channel c))"

text \<open>
  A server that answers a request with one line is heard: any line the reader accepts that decodes to
  an object with the request's id ends the request as the object says.
\<close>

lemma json_loads_Nil: "json_loads [] = None"
  by (simp add: json_loads_def read_scalar_def number_value_def)

lemma answer_frames:
  assumes "Char newline \<notin> set line" "stream_bytes line \<le> MAX_FRAME_BYTES"
    and "decode_utf8 (bytes_strip line) = Inr text" "json_loads text = Some (JObj reply)"
  shows "stream_frames at_end (line @ [Char newline]) =
    (Line (Some (JObj reply)) # (if at_end then [EndOfStream] else []), [])"
proof -
  have "bytes_strip line \<noteq> []" using assms(3,4) json_loads_Nil by auto
  then have "line_frame line = Line (Some (JObj reply))"
    using assms(2-4) by (simp add: line_frame_def Let_def)
  moreover have "split_lines (Char newline) (line @ [Char newline]) = ([line], [])"
    using assms(1) by (subst split_lines_append) auto
  ultimately show ?thesis
    by (simp add: stream_frames_def) (simp add: stream_bytes_def MAX_FRAME_BYTES_def)
qed

lemma note_events_sel [simp]:
  "ch_state (pr_channel (note_events evs c)) = ch_state (pr_channel c)"
  "ch_reading (pr_channel (note_events evs c)) = ch_reading (pr_channel c)"
  "ch_writing (pr_channel (note_events evs c)) = ch_writing (pr_channel c)"
  "ch_log (pr_channel (note_events evs c)) = ch_log (pr_channel c) @ evs"
  "pr_server (note_events evs c) = pr_server c" "pr_memory (note_events evs c) = pr_memory c"
  "pr_running (note_events evs c) = pr_running c" "pr_stdin_open (note_events evs c) = pr_stdin_open c"
  "pr_unread (note_events evs c) = pr_unread c"
  by (simp_all add: note_events_def)

lemma request_answered:
  assumes c: "connected c" "pr_unread c = []" and i: "i = tp_next_id (ch_state (pr_channel c)) + 1"
    and out: "re_stdout (sv_reacts (pr_server c) (pr_memory c) (message_line (request_message i method params))) =
      line @ [Char newline]"
    and line: "Char newline \<notin> set line" "stream_bytes line \<le> MAX_FRAME_BYTES"
      "decode_utf8 (bytes_strip line) = Inr text" "json_loads text = Some (JObj reply)"
    and id: "int_value (get_or_null reply ''id'') = Some i"
  shows "fst (child_request command method params c) = reply_value reply"
proof -
  let ?ch = "pr_channel c" and ?r = "sv_reacts (pr_server c) (pr_memory c) (message_line (request_message i method params))"
  let ?st = "(ch_state ?ch)\<lparr>tp_next_id := i, tp_pending := dict_set i Waiting (tp_pending (ch_state ?ch))\<rparr>"
  let ?issued = "note_events [Issued i] (c\<lparr>pr_channel := ?ch\<lparr>ch_state := ?st\<rparr>\<rparr>)"
  obtain c1 logs where d: "deliver command (message_line (request_message i method params)) (note_events [Sent i] ?issued) =
      (c1, logs)"
    by (metis surj_pair)
  have first: "begin_request (ch_state ?ch) = (i, ?st)"
    by (simp add: begin_request_eq i)
  have wrote: "child_write command [Sent i] (request_message i method params) ?issued = (Inr (), c1, logs)"
    using c(1) d by (simp add: child_write_def write_outcome_def connected_def)
  have frames: "stream_frames (re_exits ?r) (re_stdout ?r) =
      (Line (Some (JObj reply)) # (if re_exits ?r then [EndOfStream] else []), [])"
    unfolding out by (rule answer_frames [OF line])
  have got: "dict_get (tp_pending (dispatch (Some (JObj reply)) ?st)) i = Some (Done (reply_value reply))"
    using id by (intro dispatch_reply) (simp_all add: dict_get_set)
  have "dict_get (tp_pending (ch_state (pr_channel c1))) i = Some (Done (reply_value reply))"
    using d frames got c
    by (auto simp: deliver_def Let_def connected_def channel_read_def read_frame_def split: prod.splits if_splits)
  then show ?thesis by (simp add: child_request_def Let_def first wrote)
qed

text \<open>
  Once the reader has ended while the server runs on, nobody resolves a request any more: it waits
  for as long as its caller lets it.
\<close>

lemma read_frames_ended: "\<not> ch_reading c \<Longrightarrow> read_frames command fs c = (c, [])"
  by (cases fs) simp_all

lemma unread_request_waits:
  assumes "pr_running c" "pr_stdin_open c" "tp_started (ch_state (pr_channel c))"
    "\<not> tp_closed (ch_state (pr_channel c))" "\<not> ch_reading (pr_channel c)"
  shows "fst (child_request command method params c) = Inl TimeoutError"
  using assms
  by (simp add: child_request_def child_write_def write_outcome_def deliver_def begin_request_def Let_def
      read_frames_ended dict_get_set split: prod.split)


subsection \<open>The children stay what the channel and the host allow\<close>

text \<open>Every operation on a child is a run of its channel.\<close>

lemma channel_read_step: "ch_reading c \<Longrightarrow> channel_step c (channel_read f c)"
  by (cases "read_frame f (ch_state c)") (auto simp: channel_read_def intro: channel_step.Read)

lemma read_frames_reach: "read_frames command fs c = (c', logs) \<Longrightarrow> channel_reaches c c'"
proof (induction fs arbitrary: c logs)
  case (Cons f fs)
  show ?case
  proof (cases "ch_reading c")
    case True
    then obtain logs' where "read_frames command fs (channel_read f c) = (c', logs')"
      using Cons.prems by (auto split: prod.splits)
    then show ?thesis
      using Cons.IH channel_read_step [OF True] by (blast intro: converse_rtranclp_into_rtranclp)
  qed (use Cons.prems in simp)
qed simp

lemma deliver_reach:
  assumes "deliver command line c = (c', logs)"
  shows "channel_reaches (pr_channel c) (pr_channel c')"
proof -
  obtain fs unread where fs: "stream_frames (re_exits (sv_reacts (pr_server c) (pr_memory c) line))
      (pr_unread c @ re_stdout (sv_reacts (pr_server c) (pr_memory c) line)) = (fs, unread)"
    by (metis surj_pair)
  obtain ch log where "read_frames command fs (pr_channel c) = (ch, log)" by (metis surj_pair)
  then show ?thesis
    using assms fs read_frames_reach by (fastforce simp: deliver_def Let_def split: prod.splits)
qed

lemma channel_read_pending:
  "dict_get (tp_pending (ch_state (channel_read f c))) i = None \<longleftrightarrow> dict_get (tp_pending (ch_state c)) i = None"
  by (simp add: channel_read_def read_frame_def dispatch_domain split: frame.split)

lemma read_frames_pending:
  "read_frames command fs c = (c', logs) \<Longrightarrow>
   dict_get (tp_pending (ch_state c')) i = None \<longleftrightarrow> dict_get (tp_pending (ch_state c)) i = None"
  by (induction fs arbitrary: c logs) (auto simp: channel_read_pending split: if_splits prod.splits)

lemma deliver_channel:
  assumes "deliver command line c = (c', logs)"
  obtains fs log where "read_frames command fs (pr_channel c) = (pr_channel c', log)"
proof -
  obtain fs unread where fs: "stream_frames (re_exits (sv_reacts (pr_server c) (pr_memory c) line))
      (pr_unread c @ re_stdout (sv_reacts (pr_server c) (pr_memory c) line)) = (fs, unread)"
    by (metis surj_pair)
  obtain ch log where r: "read_frames command fs (pr_channel c) = (ch, log)" by (metis surj_pair)
  have "pr_channel c' = ch"
    using assms fs r by (auto simp: deliver_def Let_def split: prod.splits)
  then show thesis using that r by blast
qed

lemma read_frames_log: "read_frames command fs c = (c', logs) \<Longrightarrow> \<exists>rest. ch_log c' = ch_log c @ rest"
proof (induction fs arbitrary: c logs)
  case (Cons f fs)
  have "\<exists>rest. ch_log (channel_read f c) = ch_log c @ rest"
    by (simp add: channel_read_def split: prod.split)
  then show ?case using Cons by (fastforce split: if_splits prod.splits)
qed simp

lemma channel_read_future:
  assumes "dict_get (tp_pending (ch_state c)) i = Some f"
  shows "dict_get (tp_pending (ch_state (channel_read frame c))) i = Some f \<or>
    f = Waiting \<and> (\<exists>x. dict_get (tp_pending (ch_state (channel_read frame c))) i = Some (Done x) \<and>
      (\<forall>r. x = Inr r \<longrightarrow> (\<exists>m. ch_log (channel_read frame c) = ch_log c @ [Received m] \<and> answer_for m i r)))"
proof (cases frame)
  case (Line raw)
  from dispatch_cases [of raw "ch_state c"] show ?thesis
  proof (elim disjE exE conjE)
    fix m j
    assume m: "raw = Some (JObj m)" "int_value (get_or_null m ''id'') = Some j"
        "dict_get (tp_pending (ch_state c)) j = Some Waiting"
        "dispatch raw (ch_state c) = (ch_state c)\<lparr>tp_pending := dict_set j (Done (reply_value m)) (tp_pending (ch_state c))\<rparr>"
    then show ?thesis
      using assms Line by (cases "i = j") (auto simp: channel_read_def read_frame_def dict_get_set answer_for_def)
  qed (use assms Line in \<open>simp add: channel_read_def read_frame_def\<close>)
qed (use assms in \<open>auto simp: channel_read_def read_frame_def\<close>)

lemma read_frames_done:
  "read_frames command fs c = (c', logs) \<Longrightarrow> dict_get (tp_pending (ch_state c)) i = Some (Done x) \<Longrightarrow>
   dict_get (tp_pending (ch_state c')) i = Some (Done x)"
proof (induction fs arbitrary: c logs)
  case (Cons f fs)
  then show ?case using channel_read_future [of c i "Done x" f] by (auto split: if_splits prod.splits)
qed simp

text \<open>A future that reading resolves with a result was resolved by a message read meanwhile.\<close>

lemma read_frames_answer:
  "read_frames command fs c = (c', logs) \<Longrightarrow> dict_get (tp_pending (ch_state c)) i = Some Waiting \<Longrightarrow>
   dict_get (tp_pending (ch_state c')) i = Some (Done (Inr r)) \<Longrightarrow>
   \<exists>rest m. ch_log c' = ch_log c @ rest \<and> Received m \<in> set rest \<and> answer_for m i r"
proof (induction fs arbitrary: c logs)
  case (Cons f fs)
  obtain logs' where rest: "read_frames command fs (channel_read f c) = (c', logs')"
    using Cons.prems by (auto split: if_splits prod.splits)
  obtain more where log: "ch_log c' = ch_log (channel_read f c) @ more" using read_frames_log [OF rest] by blast
  from channel_read_future [OF Cons.prems(2), of f] show ?case
  proof (elim disjE exE conjE)
    assume "dict_get (tp_pending (ch_state (channel_read f c))) i = Some Waiting"
    from Cons.IH [OF rest this Cons.prems(3)] obtain tail m where
      t: "ch_log c' = ch_log (channel_read f c) @ tail" "Received m \<in> set tail" "answer_for m i r" by blast
    have "\<exists>new. ch_log (channel_read f c) = ch_log c @ new"
      by (simp add: channel_read_def split: prod.split)
    then obtain new where "ch_log (channel_read f c) = ch_log c @ new" by blast
    then show ?case using t by (intro exI [of _ "new @ tail"] exI [of _ m]) simp
  next
    fix x
    assume x: "dict_get (tp_pending (ch_state (channel_read f c))) i = Some (Done x)"
      and m: "\<forall>r. x = Inr r \<longrightarrow> (\<exists>m. ch_log (channel_read f c) = ch_log c @ [Received m] \<and> answer_for m i r)"
    have "x = Inr r" using read_frames_done [OF rest x] Cons.prems(3) by simp
    then obtain m where "ch_log (channel_read f c) = ch_log c @ [Received m]" "answer_for m i r" using m by blast
    then show ?case using log by (intro exI [of _ "Received m # more"] exI [of _ m]) simp
  qed
qed simp

text \<open>What a request comes to.\<close>

definition request_ends :: "int \<Rightarrow> channel_event \<Rightarrow> 'm child \<Rightarrow> 'm child" where
  "request_ends i event c =
     note_events [event] (c\<lparr>pr_channel := (pr_channel c)\<lparr>ch_state := retire i (ch_state (pr_channel c))\<rparr>\<rparr>)"

lemma request_ends_sel [simp]:
  "ch_state (pr_channel (request_ends i event c)) = retire i (ch_state (pr_channel c))"
  "ch_writing (pr_channel (request_ends i event c)) = ch_writing (pr_channel c)"
  "ch_log (pr_channel (request_ends i event c)) = ch_log (pr_channel c) @ [event]"
  "pr_running (request_ends i event c) = pr_running c"
  by (simp_all add: request_ends_def)

lemma child_request_cases:
  assumes "child_request command method params c = (out, c', logs)"
    and "begin_request (ch_state (pr_channel c)) = (i, st)"
    and "issued = note_events [Issued i] (c\<lparr>pr_channel := (pr_channel c)\<lparr>ch_state := st\<rparr>\<rparr>)"
  obtains (refused) e where "write_outcome (pr_running c \<and> pr_stdin_open c) st = Inl e" "out = Inl e"
      "c' = request_ends i (Returned i (Inl e)) issued"
  | (written) c1 event where "write_outcome (pr_running c \<and> pr_stdin_open c) st = Inr ()"
      "deliver command (message_line (request_message i method params)) (note_events [Sent i] issued) = (c1, logs)"
      "c' = request_ends i event c1"
      "(event = Returned i out \<and> dict_get (tp_pending (ch_state (pr_channel c1))) i = Some (Done out)) \<or>
       (event = Abandoned i \<and> out = Inl TimeoutError \<and>
        dict_get (tp_pending (ch_state (pr_channel c1))) i = Some Waiting)"
proof (cases "write_outcome (pr_running c \<and> pr_stdin_open c) st")
  case (Inl e)
  then show thesis
    using assms by (intro refused) (auto simp: child_request_def child_write_def request_ends_def Let_def)
next
  case (Inr u)
  let ?sent = "note_events [Sent i] issued"
  obtain c1 logs1 where d: "deliver command (message_line (request_message i method params)) ?sent = (c1, logs1)"
    by (metis surj_pair)
  obtain fs log where "read_frames command fs (pr_channel ?sent) = (pr_channel c1, log)"
    using d by (rule deliver_channel)
  moreover have "dict_get (tp_pending (ch_state (pr_channel ?sent))) i \<noteq> None"
    using assms(2,3) by (simp add: begin_request_eq dict_get_set)
  ultimately have pending: "dict_get (tp_pending (ch_state (pr_channel c1))) i \<noteq> None"
    using read_frames_pending by metis
  have run: "child_request command method params c =
      (case dict_get (tp_pending (ch_state (pr_channel c1))) i of
         Some (Done r) \<Rightarrow> (r, request_ends i (Returned i r) c1, logs1)
       | _ \<Rightarrow> (Inl TimeoutError, request_ends i (Abandoned i) c1, logs1))"
    using assms(2) d [unfolded assms(3)] Inr
    by (simp add: child_request_def child_write_def request_ends_def Let_def assms(3) note_events_def
        split: option.split future.split)
  obtain f where f: "dict_get (tp_pending (ch_state (pr_channel c1))) i = Some f" using pending by blast
  show thesis
  proof (cases f)
    case Waiting
    then show thesis
      using assms(1) run f d Inr by (intro written [of c1 "Abandoned i"]) auto
  next
    case (Done r)
    then show thesis
      using assms(1) run f d Inr by (intro written [of c1 "Returned i r"]) auto
  qed
qed

text \<open>A request on its own: it takes the write lock at once.\<close>

lemma channel_issue:
  assumes "begin_request (ch_state c) = (i, st)" "write_outcome True st = Inr ()" "ch_writing c = []"
  shows "channel_step c (c\<lparr>ch_state := st, ch_writing := [i], ch_log := ch_log c @ [Issued i]\<rparr>)"
  using channel_step.Issue [OF assms(1,2)] assms(3) by simp

lemma still_quiet:
  assumes "ch_writing c = []"
  shows "c\<lparr>ch_state := st, ch_writing := [], ch_log := log\<rparr> = c\<lparr>ch_state := st, ch_log := log\<rparr>"
    "c\<lparr>ch_state := st, ch_log := log, ch_writing := []\<rparr> = c\<lparr>ch_state := st, ch_log := log\<rparr>"
  using assms by (cases c; simp)+

lemma two_steps: "channel_step a b \<Longrightarrow> channel_step b c \<Longrightarrow> channel_reaches a c"
  by (blast intro: rtranclp.rtrancl_into_rtrancl)

lemma channel_send:
  assumes "begin_request (ch_state c) = (i, st)" "write_outcome True st = Inr ()" "ch_writing c = []"
    and "Sent i \<notin> set (ch_log c)"
  shows "channel_reaches c (c\<lparr>ch_state := st, ch_log := ch_log c @ [Issued i, Sent i]\<rparr>)"
proof -
  let ?c1 = "c\<lparr>ch_state := st, ch_writing := [i], ch_log := ch_log c @ [Issued i]\<rparr>"
  let ?c2 = "?c1\<lparr>ch_log := ch_log ?c1 @ [Sent i]\<rparr>"
  have issue: "channel_step c ?c1" using assms(1-3) by (rule channel_issue)
  have send: "channel_step ?c1 ?c2"
    using assms(4) by (intro channel_step.Write [of _ i "[]"]) simp_all
  have drain: "channel_step ?c2 (?c2\<lparr>ch_writing := []\<rparr>)"
    by (rule channel_step.Drain [of _ i "[]"]) simp_all
  have "channel_reaches c (?c2\<lparr>ch_writing := []\<rparr>)"
    using two_steps [OF issue send] drain by (rule rtranclp.rtrancl_into_rtrancl)
  then show ?thesis using still_quiet [OF assms(3)] by simp
qed

lemma channel_refused:
  assumes "begin_request (ch_state c) = (i, st)" "write_outcome accepted st = Inl e" "ch_writing c = []"
  shows "channel_reaches c (c\<lparr>ch_state := retire i st, ch_log := ch_log c @ [Issued i, Returned i (Inl e)]\<rparr>)"
proof (cases "write_outcome True st")
  case (Inl e')
  then have "e' = e" using assms(2) by (auto simp: write_outcome_def split: if_splits)
  then show ?thesis using channel_step.Refuse [OF assms(1) Inl] by blast
next
  case (Inr u)
  then have e: "e = input_closed" using assms(2) by (auto simp: write_outcome_def split: if_splits)
  let ?c1 = "c\<lparr>ch_state := st, ch_writing := [i], ch_log := ch_log c @ [Issued i]\<rparr>"
  have issue: "channel_step c ?c1" using assms(1,3) Inr by (intro channel_issue) simp_all
  have fail: "channel_step ?c1 (?c1\<lparr>ch_state := retire i (ch_state ?c1), ch_writing := [],
      ch_log := ch_log ?c1 @ [Returned i (Inl input_closed)]\<rparr>)"
    by (rule channel_step.WriteFails) simp
  from two_steps [OF issue fail] show ?thesis
    using still_quiet [OF assms(3)] e by simp
qed

text \<open>
  A child of the host: its transport was started, its channel is one the transport can reach on which
  nobody writes, and once the transport is closed the process is gone.
\<close>

definition child_ok :: "'m child \<Rightarrow> bool" where
  "child_ok c \<longleftrightarrow> channel_reaches channel_open (pr_channel c) \<and> ch_writing (pr_channel c) = [] \<and>
     tp_started (ch_state (pr_channel c)) \<and> (tp_closed (ch_state (pr_channel c)) \<longrightarrow> \<not> pr_running c)"

lemma unsent_id:
  assumes "channel_reaches channel_open c" "begin_request (ch_state c) = (i, st)"
  shows "Sent i \<notin> set (ch_log c)"
proof -
  have "\<forall>j. Sent j \<in> set (ch_log c) \<longrightarrow> j \<le> tp_next_id (ch_state c)"
    using assms(1) by (rule sent_ids)
  then show ?thesis using assms(2) by (force simp: begin_request_eq)
qed

lemma channel_read_flags:
  "ch_writing (channel_read f c) = ch_writing c"
  "tp_started (ch_state (channel_read f c)) = tp_started (ch_state c)"
  "tp_closed (ch_state (channel_read f c)) = tp_closed (ch_state c)"
  "tp_next_id (ch_state (channel_read f c)) = tp_next_id (ch_state c)"
proof -
  have "tp_started (dispatch raw st) = tp_started st" "tp_closed (dispatch raw st) = tp_closed st"
      "tp_next_id (dispatch raw st) = tp_next_id st" for raw st
    using dispatch_cases [of raw st] by auto
  then show "ch_writing (channel_read f c) = ch_writing c"
    "tp_started (ch_state (channel_read f c)) = tp_started (ch_state c)"
    "tp_closed (ch_state (channel_read f c)) = tp_closed (ch_state c)"
    "tp_next_id (ch_state (channel_read f c)) = tp_next_id (ch_state c)"
    by (simp_all add: channel_read_def read_frame_def fail_pending_def split: frame.split)
qed

lemma read_frames_flags:
  "read_frames command fs c = (c', logs) \<Longrightarrow> ch_writing c' = ch_writing c \<and>
   tp_started (ch_state c') = tp_started (ch_state c) \<and> tp_closed (ch_state c') = tp_closed (ch_state c) \<and>
   tp_next_id (ch_state c') = tp_next_id (ch_state c)"
proof (induction fs arbitrary: c logs)
  case (Cons f fs)
  then show ?case by (auto simp: channel_read_flags split: if_splits prod.splits)
qed simp

lemma child_request_reach:
  assumes "child_request command method params c = (out, c', logs)" "child_ok c"
  shows "channel_reaches (pr_channel c) (pr_channel c')"
proof -
  obtain i st where first: "begin_request (ch_state (pr_channel c)) = (i, st)" by (metis surj_pair)
  let ?issued = "note_events [Issued i] (c\<lparr>pr_channel := (pr_channel c)\<lparr>ch_state := st\<rparr>\<rparr>)"
  have quiet: "ch_writing (pr_channel c) = []" and unsent: "Sent i \<notin> set (ch_log (pr_channel c))"
    using assms(2) unsent_id [OF _ first] by (simp_all add: child_ok_def)
  from assms(1) first refl [of ?issued] show ?thesis
  proof (cases rule: child_request_cases)
    case (refused e)
    then show ?thesis
      using channel_refused [OF first refused(1) quiet] by (simp add: request_ends_def note_events_def)
  next
    case (written c1 event)
    have "write_outcome True st = Inr ()"
      using written(1) by (simp add: write_outcome_def split: if_splits)
    from channel_send [OF first this quiet unsent]
    have "channel_reaches (pr_channel c) (pr_channel (note_events [Sent i] ?issued))"
      by (simp add: note_events_def)
    moreover have "channel_reaches (pr_channel (note_events [Sent i] ?issued)) (pr_channel c1)"
      using written(2) by (rule deliver_reach)
    moreover have "channel_step (pr_channel c1) (pr_channel c')"
    proof -
      obtain fs log where "read_frames command fs (pr_channel (note_events [Sent i] ?issued)) = (pr_channel c1, log)"
        using written(2) by (rule deliver_channel)
      then have q: "ch_writing (pr_channel c1) = []" using quiet read_frames_flags by force
      show ?thesis
        using written(3,4) channel_step.Return [of "pr_channel c1" i out]
          channel_step.Abandon [of "pr_channel c1" i Waiting, unfolded q removeAll.simps still_quiet [OF q]]
        by (auto simp: request_ends_def note_events_def q)
    qed
    ultimately show ?thesis by (meson rtranclp_trans rtranclp.rtrancl_into_rtrancl)
  qed
qed

lemma deliver_ok:
  assumes "deliver command line c = (c', logs)" "child_ok c" "pr_running c"
  shows "child_ok c'"
proof -
  obtain fs log where "read_frames command fs (pr_channel c) = (pr_channel c', log)"
    using assms(1) by (rule deliver_channel)
  from read_frames_flags [OF this] deliver_reach [OF assms(1)] show ?thesis
    using assms(2,3) unfolding child_ok_def by (metis rtranclp_trans)
qed

lemma child_notify_ok:
  assumes "child_notify command method params c = (out, c', logs)" "child_ok c"
  shows "child_ok c' \<and> (pr_running c' \<longrightarrow> pr_running c)"
proof (cases "write_outcome (pr_running c \<and> pr_stdin_open c) (ch_state (pr_channel c))")
  case (Inl e)
  then show ?thesis using assms by (simp add: child_notify_def child_write_def)
next
  case (Inr u)
  have "note_events [] c = c" by (simp add: note_events_def)
  then have "deliver command (message_line (notify_message method params)) c = (c', logs)" "pr_running c"
    using assms(1) Inr by (auto simp: child_notify_def child_write_def write_outcome_def split: if_splits)
  then show ?thesis using deliver_ok assms(2) by blast
qed

lemma child_request_ok:
  assumes "child_request command method params c = (out, c', logs)" "child_ok c"
  shows "child_ok c' \<and> (pr_running c' \<longrightarrow> pr_running c)"
proof -
  obtain i st where first: "begin_request (ch_state (pr_channel c)) = (i, st)" by (metis surj_pair)
  let ?issued = "note_events [Issued i] (c\<lparr>pr_channel := (pr_channel c)\<lparr>ch_state := st\<rparr>\<rparr>)"
  have flags: "tp_started st = tp_started (ch_state (pr_channel c))" "tp_closed st = tp_closed (ch_state (pr_channel c))"
    using first by (auto simp: begin_request_eq)
  have reach: "channel_reaches channel_open (pr_channel c')"
    using child_request_reach [OF assms] assms(2) by (meson child_ok_def rtranclp_trans)
  from assms(1) first refl [of ?issued] show ?thesis
  proof (cases rule: child_request_cases)
    case (refused e)
    then show ?thesis using assms(2) flags reach by (simp add: child_ok_def)
  next
    case (written c1 event)
    obtain fs log where "read_frames command fs (pr_channel (note_events [Sent i] ?issued)) = (pr_channel c1, log)"
      using written(2) by (rule deliver_channel)
    from read_frames_flags [OF this] show ?thesis
      using assms(2) flags reach written(1,3) by (auto simp: child_ok_def write_outcome_def split: if_splits)
  qed
qed

text \<open>With nobody else writing, a result answers a request that had been sent.\<close>

lemma child_request_answered:
  assumes "child_request command method params c = (Inr r, c', logs)"
  shows "answered (ch_log (pr_channel c')) (tp_next_id (ch_state (pr_channel c)) + 1) r"
proof -
  obtain i st where first: "begin_request (ch_state (pr_channel c)) = (i, st)" by (metis surj_pair)
  then have i: "i = tp_next_id (ch_state (pr_channel c)) + 1"
      "st = (ch_state (pr_channel c))\<lparr>tp_next_id := i, tp_pending := dict_set i Waiting (tp_pending (ch_state (pr_channel c)))\<rparr>"
    by (simp_all add: begin_request_eq)
  let ?sent = "note_events [Sent i] (note_events [Issued i] (c\<lparr>pr_channel := (pr_channel c)\<lparr>ch_state := st\<rparr>\<rparr>))"
  from assms first refl show ?thesis
  proof (cases rule: child_request_cases)
    case (written c1 event)
    obtain fs log where "read_frames command fs (pr_channel ?sent) = (pr_channel c1, log)"
      using written(2) by (rule deliver_channel)
    moreover have "dict_get (tp_pending (ch_state (pr_channel ?sent))) i = Some Waiting"
      by (simp add: i(2) dict_get_set)
    moreover have "event = Returned i (Inr r)" "dict_get (tp_pending (ch_state (pr_channel c1))) i = Some (Done (Inr r))"
      using written(4) by auto
    ultimately obtain rest m where m: "ch_log (pr_channel c1) = ch_log (pr_channel ?sent) @ rest"
        "Received m \<in> set rest" "answer_for m i r"
      using read_frames_answer by meson
    have "answered (ch_log (pr_channel ?sent) @ (rest @ [event])) i r"
      using m(2,3) by (intro answered_received [of _ _ m]) simp_all
    then show ?thesis using m(1) written(3) i(1) by simp
  qed simp
qed

text \<open>The escalation is the one of \<open>shutdown_actions\<close>, and it ends with the process gone.\<close>

lemma act_sel [simp]:
  "pr_channel (act a c) = pr_channel c" "pr_server (act a c) = pr_server c" "pr_memory (act a c) = pr_memory c"
  by (cases a; simp)+

lemma child_shutdown_actions:
  assumes "child_shutdown c = (actions, c')"
  shows "actions = shutdown_actions (pr_running c) (pr_stdin_open c)
      (sv_exits_on_eof (pr_server c) (pr_memory c)) (sv_exits_on_term (pr_server c) (pr_memory c))"
    and "\<not> pr_running c'" and "pr_channel c' = pr_channel c" and "c' = fold act actions c"
  using assms by (auto simp: child_shutdown_def shutdown_actions_def Let_def split: if_splits)

lemma child_aclose_ok:
  assumes "child_ok c"
  shows "child_ok (child_aclose c) \<and> \<not> pr_running (child_aclose c)"
proof -
  obtain actions c1 where s: "child_shutdown c = (actions, c1)" by (metis surj_pair)
  note down = child_shutdown_actions(2,3) [OF s]
  have "channel_step (pr_channel c) ((pr_channel c)\<lparr>ch_state := transport_aclose (ch_state (pr_channel c)), ch_reading := False\<rparr>)"
    by (rule channel_step.Close)
  then show ?thesis
    using assms down unfolding child_ok_def
    by (auto simp: child_aclose_def s transport_aclose_def fail_pending_def intro: rtranclp.rtrancl_into_rtrancl)
qed

lemma child_aclose_closed:
  assumes "child_ok c" "pr_running c"
  shows "tp_closed (ch_state (pr_channel (child_aclose c)))"
  using assms by (simp add: child_ok_def child_aclose_def transport_aclose_def Let_def)

lemma closed_request_refused:
  "tp_closed (ch_state (pr_channel c)) \<Longrightarrow>
   fst (child_request command method params c) = Inl (transport_error ''MCP transport is not connected'')"
  by (simp add: child_request_def child_write_def write_outcome_def begin_request_def Let_def)


subsection \<open>The host provides what the connections rely on\<close>

definition running :: "'m host \<Rightarrow> nat set" where
  "running h = set (filter (\<lambda>pid. case dict_get (h_children h) pid of Some c \<Rightarrow> pr_running c | None \<Rightarrow> False)
     (map fst (h_children h)))"

definition host_ok :: "'m host \<Rightarrow> bool" where
  "host_ok h \<longleftrightarrow> (\<forall>pid c. dict_get (h_children h) pid = Some c \<longrightarrow> child_ok c)"

definition stdio_serves :: "nat \<Rightarrow> 'm host mcp_transport \<Rightarrow> bool" where
  "stdio_serves pid T \<longleftrightarrow> (\<exists>command. T = stdio_transport command pid)"

lemma running_iff: "pid \<in> running h \<longleftrightarrow> (\<exists>c. dict_get (h_children h) pid = Some c \<and> pr_running c)"
proof -
  have "dict_get (h_children h) pid = Some c \<Longrightarrow> pid \<in> fst ` set (h_children h)" for c
    by (force dest: map_of_SomeD)
  then show ?thesis by (auto simp: running_def split: option.splits)
qed

lemma host_set:
  assumes "dict_get (h_children h') = (dict_get (h_children h))(pid \<mapsto> c')" "host_ok h" "child_ok c'"
  shows "host_ok h'" and "running h' = (if pr_running c' then insert pid (running h) else running h - {pid})"
proof -
  show "host_ok h'" using assms by (simp add: host_ok_def)
  have "x \<in> running h' \<longleftrightarrow> (if x = pid then pr_running c' else x \<in> running h)" for x
    using assms(1) by (simp add: running_iff)
  then show "running h' = (if pr_running c' then insert pid (running h) else running h - {pid})"
    by (cases "pr_running c'") (simp_all add: set_eq_iff)
qed

lemma on_child_loses:
  assumes f: "\<And>c out c' logs. f c = (out, c', logs) \<Longrightarrow> child_ok c \<Longrightarrow> child_ok c' \<and> (pr_running c' \<longrightarrow> pr_running c)"
    and run: "on_child pid absent f h = (out, h')" and ok: "host_ok h"
  shows "host_ok h' \<and> running h - {pid} \<subseteq> running h' \<and> running h' \<subseteq> running h"
proof (cases "dict_get (h_children h) pid")
  case None
  then show ?thesis using run ok by (auto simp: on_child_def)
next
  case (Some c)
  obtain r c' logs where c: "f c = (r, c', logs)" by (metis surj_pair)
  have c': "child_ok c'" "pr_running c' \<longrightarrow> pr_running c" using f [OF c] ok Some by (simp_all add: host_ok_def)
  have "dict_get (h_children h') = (dict_get (h_children h))(pid \<mapsto> c')"
    using run Some c by (auto simp: on_child_def dict_get_set)
  note after = host_set [OF this ok c'(1)]
  have "pr_running c \<Longrightarrow> pid \<in> running h" using Some by (simp add: running_iff)
  then show ?thesis using after c'(2) by auto
qed

lemma on_child_closes:
  assumes "on_child pid (Inr ()) (\<lambda>c. (Inr (), child_aclose c, [])) h = (out, h')" "host_ok h"
  shows "host_ok h' \<and> running h' = running h - {pid}"
proof (cases "dict_get (h_children h) pid")
  case None
  then show ?thesis using assms by (auto simp: on_child_def running_iff)
next
  case (Some c)
  have "child_ok c" using assms(2) Some by (simp add: host_ok_def)
  then have closed: "child_ok (child_aclose c)" "\<not> pr_running (child_aclose c)"
    using child_aclose_ok by blast+
  have "dict_get (h_children h') = (dict_get (h_children h))(pid \<mapsto> child_aclose c)"
    using assms(1) Some by (auto simp: on_child_def dict_get_set)
  from host_set [OF this assms(2) closed(1)] show ?thesis using closed(2) by simp
qed

lemma free_pid_fresh: "dict_get (h_children h) (free_pid h) = None"
proof -
  have "pid \<le> foldr (\<lambda>(pid, c). max pid) d 0" if "pid \<in> fst ` set d" for pid and d :: "(nat \<times> 'm child) list"
    using that by (induction d) (force simp: le_max_iff_disj)+
  then have "free_pid h \<notin> fst ` set (h_children h)" by (fastforce simp: free_pid_def)
  then show ?thesis by (simp add: map_of_eq_None_iff)
qed

lemma new_child_ok:
  "transport_start command True transport_init = Inr st \<Longrightarrow> child_ok (new_child server env st)"
  by (auto simp: transport_start_def child_ok_def new_child_def channel_open_def transport_init_def)

lemma stdio_spawn_cases:
  assumes "stdio_spawn launch path config h = (out, h')"
  obtains (no_process) e where "out = Inl e" "h' = h"
  | (process) server env st where "out = Inr (stdio_transport (mcp_command config) (free_pid h))"
      "transport_start (mcp_command config) True transport_init = Inr st"
      "h' = h\<lparr>h_children := dict_set (free_pid h) (new_child server env st) (h_children h)\<rparr>"
proof (cases "launch (mcp_command config) (mcp_args config) (child_environment path (mcp_env config)) (mcp_cwd config)")
  case None
  then show thesis
    using assms
    by (intro no_process [of "transport_error (''could not start MCP server '' @ quoted (mcp_command config))"])
      (simp_all add: stdio_spawn_def Let_def transport_start_def transport_init_def)
next
  case (Some server)
  then show thesis
    using assms
    by (intro process [of "transport_init\<lparr>tp_started := True\<rparr>" server
        "child_environment path (mcp_env config)"])
      (simp_all add: stdio_spawn_def Let_def transport_start_def transport_init_def)
qed

interpretation stdio: server_host running host_ok "stdio_spawn launch path" stdio_serves
  for launch :: "'m launcher" and path :: "string option"
proof unfold_locales
  fix pid and T :: "'m host mcp_transport" and m p h h' and out :: "exn + json_object"
  assume T: "stdio_serves pid T" and ok: "host_ok h" and run: "tr_request T m p h = (out, h')"
  obtain command absent where "on_child pid absent (child_request command m p) h = (out, h')"
    using T run by (auto simp: stdio_serves_def stdio_transport_def)
  from on_child_loses [where f = "child_request command m p", OF child_request_ok this ok]
  show "host_ok h' \<and> running h - {pid} \<subseteq> running h' \<and> running h' \<subseteq> running h" .
next
  fix pid and T :: "'m host mcp_transport" and m p h h' and out :: "exn + unit"
  assume T: "stdio_serves pid T" and ok: "host_ok h" and run: "tr_notify T m p h = (out, h')"
  obtain command absent where "on_child pid absent (child_notify command m p) h = (out, h')"
    using T run by (auto simp: stdio_serves_def stdio_transport_def)
  from on_child_loses [where f = "child_notify command m p", OF child_notify_ok this ok]
  show "host_ok h' \<and> running h - {pid} \<subseteq> running h' \<and> running h' \<subseteq> running h" .
next
  fix pid and T :: "'m host mcp_transport" and h h' and out :: "exn + unit"
  assume T: "stdio_serves pid T" and ok: "host_ok h" and run: "tr_aclose T h = (out, h')"
  have "on_child pid (Inr ()) (\<lambda>c. (Inr (), child_aclose c, [])) h = (out, h')"
    using T run by (auto simp: stdio_serves_def stdio_transport_def)
  from on_child_closes [OF this ok] show "host_ok h' \<and> running h' = running h - {pid}" .
next
  fix h :: "'m host" and config e h'
  assume "host_ok h" "stdio_spawn launch path config h = (Inl e, h')"
  then show "host_ok h' \<and> running h' = running h"
    by (auto elim: stdio_spawn_cases)
next
  fix h :: "'m host" and config T h'
  assume ok: "host_ok h" and spawn: "stdio_spawn launch path config h = (Inr T, h')"
  from spawn show "host_ok h' \<and> (\<exists>pid. pid \<notin> running h \<and> running h' = insert pid (running h) \<and> stdio_serves pid T)"
  proof (cases rule: stdio_spawn_cases)
    case (process server env st)
    have get: "dict_get (h_children h') = (dict_get (h_children h))(free_pid h \<mapsto> new_child server env st)"
      by (simp add: process(3) dict_get_set fun_eq_iff)
    have "free_pid h \<notin> running h" using free_pid_fresh [of h] by (simp add: running_iff)
    moreover have "pr_running (new_child server env st)" by (simp add: new_child_def)
    ultimately show ?thesis
      using host_set [OF get ok new_child_ok [OF process(2)]] process(1) by (auto simp: stdio_serves_def)
  qed simp
qed

end
