(* ===== verification/MCP_Logs.thy ===== *)
theory MCP_Logs
  imports MCP_Connections Service_Logs
begin

section \<open>What the MCP modules log (\<open>mcp/client.py\<close>, \<open>mcp/tools.py\<close>, \<open>mcp/factory.py\<close>)\<close>

text \<open>
  The records of the client, of the tools' registration and calls, and of closing, as functions of
  what the step had and how it ended; the transport's own records are with the pipes in \<open>MCP_Stdio\<close>.
\<close>

definition connected_log :: "'x mcp_client \<Rightarrow> mcp_server_info \<Rightarrow> log_record" where
  "connected_log C info = service_record ''INFO'' ''mcp.server.connected''
     [(''mcp_server'', JStr (cl_name C)), (''server_name'', JStr (info_name info)),
      (''server_version'', JStr (info_version info)),
      (''protocol_version'', JStr (info_protocol_version info))]"

definition discovered_log :: "'x mcp_client \<Rightarrow> mcp_tool_declaration list \<Rightarrow> log_record" where
  "discovered_log C declarations = service_record ''INFO'' ''mcp.tools.discovered''
     [(''mcp_server'', JStr (cl_name C)), (''tool_count'', jint (length declarations))]"

definition call_failed_log :: "mcp_server_config \<Rightarrow> string \<Rightarrow> exn \<Rightarrow> log_record" where
  "call_failed_log config local e = service_record ''WARNING'' ''mcp.tool.call.failed''
     [(''mcp_server'', JStr (mcp_name config)), (''tool'', JStr local), (''error'', JStr (class_name e))]"

definition skipped_log :: "mcp_server_config \<Rightarrow> mcp_tool_declaration \<Rightarrow> log_record" where
  "skipped_log config d = service_record ''WARNING'' ''mcp.tool.skipped''
     [(''mcp_server'', JStr (mcp_name config)), (''remote_tool'', JStr (decl_name d)),
      (''reason'', JStr ''unusable_name'')]"

definition registered_log :: "mcp_server_config \<Rightarrow> 'x tool \<Rightarrow> mcp_tool_declaration \<Rightarrow> log_record" where
  "registered_log config t d = service_record ''INFO'' ''mcp.tool.registered''
     [(''mcp_server'', JStr (mcp_name config)), (''tool'', JStr (tool_name t)),
      (''remote_tool'', JStr (decl_name d)), (''risk'', JStr (risk_value (tool_risk t)))]"

definition close_failed_log :: "'x mcp_client \<Rightarrow> exn \<Rightarrow> log_record" where
  "close_failed_log C e = (service_record ''ERROR'' ''mcp.server.close_failed''
     [(''mcp_server'', JStr (cl_name C))])\<lparr>lr_exc_info := Some (exn_str e)\<rparr>"


subsection \<open>Beside the steps\<close>

definition handshake_logs :: "mcp_server_config \<Rightarrow> 'x mcp_client \<Rightarrow> 'x \<Rightarrow> log_record list" where
  "handshake_logs config C x =
     (case initialize (C\<lparr>cl_transport := within_startup config (cl_transport C)\<rparr>) x of
        (Inl e, C1, x1) \<Rightarrow> []
      | (Inr info, C1, x1) \<Rightarrow> connected_log C1 info #
          (case fst (list_tools C1 x1) of Inl e \<Rightarrow> [] | Inr ds \<Rightarrow> [discovered_log C1 ds]))"

text \<open>The handler logs an MCP error and raises it again.\<close>

definition handler_logs ::
  "mcp_server_config \<Rightarrow> 'x mcp_client \<Rightarrow> string \<Rightarrow> json_object \<Rightarrow> 'x \<Rightarrow> log_record list" where
  "handler_logs config C remote args x =
     (case fst (mcp_call_tool C remote args x) of
        Inl (MCP e) \<Rightarrow> [call_failed_log config (local_name config remote) (MCP e)]
      | _ \<Rightarrow> [])"

fun registration_logs ::
  "pydantic \<Rightarrow> 'x registry \<Rightarrow> 'x mcp_client \<Rightarrow> mcp_server_config \<Rightarrow> mcp_tool_declaration list \<Rightarrow> log_record list" where
  "registration_logs P reg client config [] = []"
| "registration_logs P reg client config (declaration # declarations) =
     (if \<not> is_registrable config (decl_name declaration)
      then skipped_log config declaration # registration_logs P reg client config declarations
      else (case build_tool P config client declaration of
              Inl e \<Rightarrow> []
            | Inr tool \<Rightarrow>
                (case register tool reg of
                   Inl e \<Rightarrow> []
                 | Inr reg1 \<Rightarrow>
                     registered_log config tool declaration # registration_logs P reg1 client config declarations)))"

fun close_logs :: "'x mcp_client list \<Rightarrow> 'x \<Rightarrow> log_record list" where
  "close_logs [] x = []"
| "close_logs (client # clients) x =
     (case mcp_aclose client x of
        (Inl e, x1) \<Rightarrow> close_failed_log client e # close_logs clients x1
      | (Inr _, x1) \<Rightarrow> close_logs clients x1)"

text \<open>
  A registration that succeeds leaves one record for each declaration, in the order published, that
  says whether it was registered, and at the risk the deployment gives it.
\<close>

definition declaration_log :: "mcp_server_config \<Rightarrow> mcp_tool_declaration \<Rightarrow> log_record" where
  "declaration_log config d =
     (if is_registrable config (decl_name d)
      then service_record ''INFO'' ''mcp.tool.registered''
        [(''mcp_server'', JStr (mcp_name config)), (''tool'', JStr (local_name config (decl_name d))),
         (''remote_tool'', JStr (decl_name d)), (''risk'', JStr (risk_value (risk_for config (decl_name d))))]
      else skipped_log config d)"

lemma registration_logged:
  "register_mcp_tools P reg client config ds = (Inr registered, reg') \<Longrightarrow>
   registration_logs P reg client config ds = map (declaration_log config) ds"
proof (induction ds arbitrary: reg registered)
  case (Cons d ds)
  show ?case
  proof (cases "is_registrable config (decl_name d)")
    case False
    then show ?thesis using Cons by (simp add: declaration_log_def)
  next
    case True
    then obtain t reg1 registered1 where "build_tool P config client d = Inr t" "register t reg = Inr reg1"
        "register_mcp_tools P reg1 client config ds = (Inr registered1, reg')"
      using Cons.prems by (auto split: sum.splits prod.splits)
    then show ?thesis
      using True Cons.IH build_tool_facts(2,3) [of P config client d t]
      by (simp add: declaration_log_def registered_log_def)
  qed
qed simp

text \<open>A failed call's record names the server, the tool and the error's class, and nothing the server sent.\<close>

lemma call_failed_log_class:
  "class_name e = class_name e' \<Longrightarrow> call_failed_log config local e = call_failed_log config local e'"
  by (simp add: call_failed_log_def)

text \<open>What a server sends into these records stays on their lines.\<close>

lemma registration_logs_printable:
  "\<forall>r \<in> set (registration_logs P reg client config ds). list_all printable (format_record (context_filter ctx r))"
proof (induction ds arbitrary: reg)
  case (Cons d ds)
  have "list_all printable (format_record (context_filter ctx (skipped_log config d)))"
    unfolding skipped_log_def by (rule service_record_printable) simp
  moreover have "list_all printable (format_record (context_filter ctx (registered_log config t d)))" for t :: "'a tool"
    unfolding registered_log_def by (rule service_record_printable) simp
  ultimately show ?case using Cons.IH by (auto split: sum.splits)
qed simp

end
