(* ===== verification/Startup.thy ===== *)
theory Startup
  imports Application MCP_Stdio MCP_Logs
begin

section \<open>Starting the service (\<open>main.py\<close>)\<close>

text \<open>
  The application's lifespan on a host of child processes: the servers of the settings are connected
  and their tools enter the registry the runner already holds. Beside it what startup logs, the
  health route, and the command that creates the database schema.
\<close>

definition connect_configured ::
  "pydantic \<Rightarrow> 'm launcher \<Rightarrow> string option \<Rightarrow> settings \<Rightarrow> ('m host, 'r) app \<Rightarrow> 'm host
   \<Rightarrow> (exn + 'm host mcp_client list) \<times> ('m host, 'r) app \<times> 'm host" where
  "connect_configured P launch path s A h =
     (case connect_mcp_servers P (stdio_spawn launch path) (mcp_servers s) (runner_tools (app_runner A)) h of
        (out, reg, h') \<Rightarrow> (out, A\<lparr>app_runner := (app_runner A)\<lparr>runner_tools := reg\<rparr>\<rparr>, h'))"

fun environment_value :: "environment \<Rightarrow> string" where
  "environment_value development = ''development''"
| "environment_value staging = ''staging''"
| "environment_value production = ''production''"
| "environment_value test_env = ''test''"

fun task_store_value :: "task_store_name \<Rightarrow> string" where
  "task_store_value MemoryStore = ''memory''"
| "task_store_value PostgresStore = ''postgres''"

definition startup_logs :: "settings \<Rightarrow> ('x, 'r) app \<Rightarrow> log_record list" where
  "startup_logs s A =
     (if \<not> is_configured (app_authenticator A)
      then [service_record ''WARNING'' ''auth.no_credentials_configured'' []] else []) @
     [service_record ''INFO'' ''service.startup''
        [(''environment'', JStr (environment_value (deployed_to s))),
         (''task_store'', JStr (task_store_value (task_store s))),
         (''tool_count'', jint (length (names (runner_tools (app_runner A))))),
         (''api_client_count'', jint (length (issued_subjects (app_authenticator A))))]]"

record health_response =
  health_status :: string
  health_service :: string
  health_environment :: string
  health_version :: string

definition health :: "settings \<Rightarrow> string \<Rightarrow> health_response" where
  "health s package_version = \<lparr>health_status = ''ok'', health_service = app_name s,
     health_environment = environment_value (deployed_to s), health_version = package_version\<rparr>"

text \<open>\<open>_create_schema_from_settings\<close>; \<open>outcome\<close> is what connecting to the server raises.\<close>

definition create_schema_from_settings :: "settings \<Rightarrow> (string \<Rightarrow> exn option) \<Rightarrow> pg_repo \<Rightarrow> exn + pg_repo" where
  "create_schema_from_settings s outcome r =
     (case database_url s of
        None \<Rightarrow> Inl (OtherError ''SystemExit'' ''EAP_DATABASE_URL is not set'')
      | Some url \<Rightarrow> (case outcome url of Some e \<Rightarrow> Inl e | None \<Rightarrow> Inr (apply_schema r)))"

text \<open>Creating the schema twice is creating it once, and keeps the rows of a table that was there.\<close>

lemma create_schema_idempotent:
  assumes "create_schema_from_settings s outcome r = Inr r'"
  shows "create_schema_from_settings s outcome r' = Inr r'"
    and "pg_table r = Some rows \<Longrightarrow> pg_table r' = Some rows"
  using assms
  by (auto simp: create_schema_from_settings_def apply_schema_def create_table_def split: option.splits)


subsection \<open>The tools a server brings\<close>

lemma connect_one_get:
  assumes "connect_one P spawn config reg x = (out, reg', x')" "get_tool reg' n = Some t"
  shows "get_tool reg n = Some t \<or>
    (\<exists>remote. is_registrable config remote \<and> n = local_name config remote \<and> tool_risk t = risk_for config remote)"
proof -
  have "reg' = reg \<or> (\<exists>client ds out. register_mcp_tools P reg client config ds = (out, reg'))"
    using assms(1) by (auto simp: connect_one_def split: prod.splits sum.splits)
  then show ?thesis
    using assms(2) register_mcp_tools_get by blast
qed

lemma connect_each_get:
  "connect_each P spawn configs clients reg x = (out, reg', x') \<Longrightarrow> get_tool reg' n = Some t \<Longrightarrow>
   get_tool reg n = Some t \<or>
    (\<exists>config \<in> set configs. \<exists>remote. is_registrable config remote \<and> n = local_name config remote \<and>
       tool_risk t = risk_for config remote)"
proof (induction configs arbitrary: clients reg x)
  case (Cons config configs)
  obtain r reg1 x1 where one: "connect_one P spawn config reg x = (r, reg1, x1)" by (metis surj_pair)
  have "get_tool reg1 n = Some t \<or> (\<exists>config \<in> set configs. \<exists>remote. is_registrable config remote \<and>
      n = local_name config remote \<and> tool_risk t = risk_for config remote)"
    using Cons one by (cases r) auto
  then show ?case using connect_one_get [OF one] by auto
qed simp

lemma valid_server_timeout: "mk_mcp_server_config c = Inr c \<Longrightarrow> 0 < call_timeout_ms c"
  by (simp add: mk_mcp_server_config_def split: if_splits)

lemma connect_configured_cases:
  assumes "connect_configured P launch path s A h = (out, A', h')"
  obtains reg where "connect_mcp_servers P (stdio_spawn launch path) (mcp_servers s) (runner_tools (app_runner A)) h =
      (out, reg, h')" "A' = A\<lparr>app_runner := (app_runner A)\<lparr>runner_tools := reg\<rparr>\<rparr>"
  using assms by (auto simp: connect_configured_def split: prod.splits)

lemma connect_configured_hosts:
  assumes "host_ok h" "\<forall>c \<in> set (mcp_servers s). mk_mcp_server_config c = Inr c"
    and "connect_configured P launch path s A h = (out, A', h')"
  shows "case out of Inl e \<Rightarrow> running h' = running h
    | Inr Cs \<Rightarrow> length Cs = length (mcp_servers s) \<and> running h \<subseteq> running h' \<and> running (close_all Cs h') = running h"
  using assms(3)
proof (rule connect_configured_cases)
  fix reg
  assume "connect_mcp_servers P (stdio_spawn launch path) (mcp_servers s) (runner_tools (app_runner A)) h = (out, reg, h')"
  moreover have "\<forall>c \<in> set (mcp_servers s). 0 < call_timeout_ms c" using assms(2) valid_server_timeout by blast
  ultimately show ?thesis using stdio.connect_leaves_no_orphans [OF assms(1)] by blast
qed

lemma connect_configured_tools:
  assumes "connect_configured P launch path s A h = (out, A', h')"
    and "get_tool (runner_tools (app_runner A')) n = Some t"
  shows "get_tool (runner_tools (app_runner A)) n = Some t \<or>
    (\<exists>c \<in> set (mcp_servers s). \<exists>remote. is_registrable c remote \<and> n = local_name c remote \<and> tool_risk t = risk_for c remote)"
  using assms(1)
proof (rule connect_configured_cases)
  fix reg
  assume "connect_mcp_servers P (stdio_spawn launch path) (mcp_servers s) (runner_tools (app_runner A)) h = (out, reg, h')"
    and "A' = A\<lparr>app_runner := (app_runner A)\<lparr>runner_tools := reg\<rparr>\<rparr>"
  then show ?thesis using connect_each_get assms(2) by (fastforce simp: connect_mcp_servers_def)
qed

end
