(* ===== verification/Scenario_Servers.thy ===== *)
theory Scenario_Servers
  imports Scenario_Adapters Startup
begin

section \<open>Concrete server programs\<close>

text \<open>
  Two programs for the host to start: one that speaks the protocol and publishes a tool, and one that
  reads its input and never answers, and ignores that its input is closed.
\<close>

lemma item_bytes_code [code]:
  "item_bytes (BadByte e) = 1"
  "item_bytes (Char c) = (let n = code_point_int c in if n < 128 then 1 else if n < 2048 then 2 else 3)"
  by (simp_all flip: code_point_int add: Let_def)

lemma is_byte_space_code [code]:
  "is_byte_space (BadByte e) = False"
  "is_byte_space (Char c) = (let n = of_char c in (9 \<le> n \<and> n \<le> (13::int)) \<or> n = 32)"
  unfolding is_byte_space.simps Let_def of_char_int by simp linarith

definition billing_tool :: json where
  "billing_tool = JObj [(''name'', JStr ''list_bills''), (''description'', JStr ''Bills.''),
     (''inputSchema'', JObj [(''type'', JStr ''object'')])]"

definition billing_result :: "string \<Rightarrow> json_object" where
  "billing_result method =
     (if method = ''initialize''
      then [(''protocolVersion'', JStr PROTOCOL_VERSION), (''capabilities'', JObj [(''tools'', JObj [])])]
      else if method = ''tools/list'' then [(''tools'', JList [billing_tool])]
      else [(''content'', JList [JObj [(''type'', JStr ''text''), (''text'', JStr ''Two open bills.'')]])])"

definition billing_reply :: "json_object \<Rightarrow> stream" where
  "billing_reply m =
     (case (dict_get m ''id'', dict_get m ''method'') of
        (Some (JInt i), Some (JStr method)) \<Rightarrow>
          map Char (message_bytes [(''jsonrpc'', JStr JSONRPC_VERSION), (''id'', JInt i),
            (''result'', JObj (billing_result method))])
      | _ \<Rightarrow> [])"

definition billing_server :: "nat server" where
  "billing_server = \<lparr>sv_start = 0,
     sv_reacts = (\<lambda>n line. \<lparr>re_memory = Suc n,
       re_stdout = (case json_loads line of Some (JObj m) \<Rightarrow> billing_reply m | _ \<Rightarrow> []),
       re_stderr = [], re_exits = False\<rparr>),
     sv_exits_on_eof = (\<lambda>n. True), sv_exits_on_term = (\<lambda>n. True)\<rparr>"

definition silent_server :: "nat server" where
  "silent_server = \<lparr>sv_start = 0,
     sv_reacts = (\<lambda>n line. \<lparr>re_memory = Suc n, re_stdout = [], re_stderr = ''waiting'' @ [newline], re_exits = False\<rparr>),
     sv_exits_on_eof = (\<lambda>n. False), sv_exits_on_term = (\<lambda>n. True)\<rparr>"

definition demo_launch :: "nat launcher" where
  "demo_launch command args env cwd =
     (if command = ''billing-mcp'' then Some billing_server
      else if command = ''ledger-mcp'' then Some silent_server else None)"

definition idle_host :: "nat host" where
  "idle_host = \<lparr>h_children = [], h_logs = []\<rparr>"

definition host_registry :: "nat host registry" where
  "host_registry = \<lparr>registered_tools = [], registry_timeout_ms = 30000, max_result_chars = 20000\<rparr>"

text \<open>An application on such a host, and settings that configure one server, or both.\<close>

definition host_app :: "(nat host, mem_repo) app" where
  "host_app = \<lparr>app_repository = mem_port,
     app_runner = \<lparr>runner_llm = \<lparr>client_provider = \<lparr>provider_name = ''silent'',
         provider_complete = (\<lambda>req x. (Inl TimeoutError, x))\<rparr>, client_timeout_ms = 60000\<rparr>,
       runner_tools = host_registry, runner_repo = mem_port, max_steps = 8, max_tokens = 4096,
       auto_approve_up_to = READ, system_prompt = DEFAULT_SYSTEM_PROMPT\<rparr>,
     app_policy = \<lparr>requires_second_person = True\<rparr>, app_authenticator = [], app_digest = id\<rparr>"

definition serving :: "mcp_server_config list \<Rightarrow> settings" where
  "serving configs = default_settings\<lparr>mcp_servers := configs\<rparr>"

lemma one_server_connects:
  "(case connect_configured demo_pydantic demo_launch (Some ''/bin'') (serving [billing_config]) host_app idle_host of
     (out, A, h) \<Rightarrow> (map_sum (\<lambda>_. ()) length out, names (runner_tools (app_runner A)), map fst (h_children h))) =
   (Inr 1, [''billing__list_bills''], [1])"
  by code_simp

lemma second_server_fails:
  "(case connect_configured demo_pydantic demo_launch (Some ''/bin'') (serving [billing_config, ledger_config])
      host_app idle_host of
     (out, A, h) \<Rightarrow> (map_sum class_name length out, map (pr_running \<circ> snd) (h_children h), map lr_message (h_logs h))) =
   (Inl ''TimeoutError'', [False, False], [''mcp.server.stderr''])"
  by code_simp

text \<open>The program as a child: what it answers to the first request.\<close>

definition billing_child :: "nat child" where
  "billing_child = new_child billing_server [(''PATH'', ''/bin'')] (transport_init\<lparr>tp_started := True\<rparr>)"

definition list_reply :: json_object where
  "list_reply = [(''jsonrpc'', JStr JSONRPC_VERSION), (''id'', JInt 1),
     (''result'', JObj [(''tools'', JList [billing_tool])])]"

lemma billing_child_up: "connected billing_child" "pr_unread billing_child = []" "child_ok billing_child"
    "tp_next_id (ch_state (pr_channel billing_child)) = 0"
  by (simp_all add: billing_child_def connected_def new_child_def child_ok_def channel_open_def transport_init_def)

lemma billing_child_answers:
  "re_stdout (sv_reacts (pr_server billing_child) (pr_memory billing_child)
     (message_line (request_message 1 ''tools/list'' None))) = map Char (message_line list_reply) @ [Char newline]"
  by code_simp

lemma list_reply_fits:
  "json_ok (JObj list_reply) \<and> int (length (message_line list_reply)) \<le> MAX_FRAME_BYTES \<and>
   int_value (get_or_null list_reply ''id'') = Some 1"
  by code_simp

lemma list_reply_line:
  "Char newline \<notin> set (map Char (message_line list_reply))"
  "stream_bytes (map Char (message_line list_reply)) \<le> MAX_FRAME_BYTES"
  "decode_utf8 (bytes_strip (map Char (message_line list_reply))) = Inr (message_line list_reply)"
  "json_loads (message_line list_reply) = Some (JObj list_reply)"
proof -
  have ok: "json_ok (JObj list_reply)" using list_reply_fits by blast
  note plain = message_line_printable [OF ok]
  show "Char newline \<notin> set (map Char (message_line list_reply))"
    using plain by (auto simp: list_all_iff printable_def)
  show "stream_bytes (map Char (message_line list_reply)) \<le> MAX_FRAME_BYTES"
    using list_reply_fits by (simp add: printable_bytes [OF plain])
  show "decode_utf8 (bytes_strip (map Char (message_line list_reply))) = Inr (message_line list_reply)"
    by (simp add: message_line_strip decode_text)
  show "json_loads (message_line list_reply) = Some (JObj list_reply)"
    by (rule message_line_round_trip [OF ok])
qed

end
