(* ===== verification/Demo_Walkthrough.thy ===== *)
theory Demo_Walkthrough
  imports Application Demo_Books Router_Correct
begin

section \<open>The walkthrough (\<open>demo/walkthrough.py\<close>, \<open>demo/credentials.py\<close>)\<close>

text \<open>
  The demo drives its own application through the routes: the analyst creates and runs a task, the
  manager is shown the held call, the analyst is refused the approval, the manager approves, and
  the ledger is checked. A call goes through \<open>serve\<close> with the subject's token; the middleware turns
  an exception no route maps into a 500, and a status other than the expected one is a
  \<open>WalkthroughError\<close>. What it prints is in \<open>Demo_Transcript\<close>; the application's lifespan is in \<open>Startup\<close>.
\<close>

definition ANALYST_TOKEN :: string where "ANALYST_TOKEN = ''demo-analyst-token-please-change-me''"

definition MANAGER_TOKEN :: string where "MANAGER_TOKEN = ''demo-manager-token-please-change-me''"

definition DEMO_ANALYST :: api_client where
  "DEMO_ANALYST = \<lparr>client_subject = ''analyst-1'', client_token = ANALYST_TOKEN,
     client_scopes = [TASKS_READ, TASKS_WRITE]\<rparr>"

definition DEMO_MANAGER :: api_client where
  "DEMO_MANAGER = \<lparr>client_subject = ''finance-manager-2'', client_token = MANAGER_TOKEN,
     client_scopes = [TASKS_READ, TASKS_APPROVE]\<rparr>"

definition DEMO_API_CLIENTS :: "api_client list" where
  "DEMO_API_CLIENTS = [DEMO_ANALYST, DEMO_MANAGER]"

definition DEMO_GOAL :: string where
  "DEMO_GOAL = ''Settle invoice '' @ DEFAULT_INVOICE_ID @ '' with the supplier, in full.''"

definition DEMO_TIMEOUT_MS :: int where "DEMO_TIMEOUT_MS = 5000"

text \<open>The settings are those of the process; the store is the in-memory one here.\<close>

definition build_demo_app ::
  "pydantic \<Rightarrow> (string \<Rightarrow> json_object) \<Rightarrow> (string \<Rightarrow> string) \<Rightarrow> settings \<Rightarrow> exn + (ledger, mem_repo) app" where
  "build_demo_app P schema_of digest s =
     and_then (mk_llm_client demo_provider DEMO_TIMEOUT_MS) (\<lambda>client.
     and_then (default_registry (build_demo_tools P schema_of)) (\<lambda>reg.
     and_then (mk_authenticator digest DEMO_API_CLIENTS) (\<lambda>auth.
       create_app s digest (\<lambda>_. mem_port) (\<lambda>_. Inr client) (configured_tools P schema_of)
         None (Some client) (Some reg) (Some auth) None)))"

record walkthrough_result =
  wt_task_id :: uuid
  wt_paused_on :: "string list"
  wt_requester_approval_status :: int
  wt_final_status :: task_status
  wt_steps :: int
  wt_tool_calls :: int
  wt_ledger :: ledger


subsection \<open>One call\<close>

definition walkthrough_error :: "string \<Rightarrow> exn" where
  "walkthrough_error m = OtherError ''WalkthroughError'' m"

definition expecting :: "bool \<Rightarrow> string \<Rightarrow> exn + unit" where
  "expecting condition m = (if condition then Inr () else Inl (walkthrough_error m))"

fun route_of :: "request \<Rightarrow> string" where
  "route_of (CreateTask _ _) = ''POST /tasks''"
| "route_of (ListTasks _ _) = ''GET /tasks''"
| "route_of (GetTask i) = ''GET /tasks/'' @ uuid_str i"
| "route_of (RunTask i) = ''POST /tasks/'' @ uuid_str i @ ''/run''"
| "route_of (GetApproval i) = ''GET /tasks/'' @ uuid_str i @ ''/approval''"
| "route_of (ApproveTask i _) = ''POST /tasks/'' @ uuid_str i @ ''/approve''"
| "route_of (RejectTask i _) = ''POST /tasks/'' @ uuid_str i @ ''/reject''"
| "route_of (CancelTask i _) = ''POST /tasks/'' @ uuid_str i @ ''/cancel''"

fun status_code :: "response \<Rightarrow> int" where
  "status_code (TaskBody code _) = code"
| "status_code _ = 200"

definition unexpected_status :: "request \<Rightarrow> api_client \<Rightarrow> int \<Rightarrow> int \<Rightarrow> exn" where
  "unexpected_status req caller code expected =
     walkthrough_error (route_of req @ '' as '' @ client_subject caller @ '' returned '' @
       int_str code @ '', expected '' @ int_str expected)"

text \<open>The status of the answer and its body, an error's detail or a response.\<close>

definition answer_of :: "http_error + response \<Rightarrow> int \<times> (string + response)" where
  "answer_of out =
     (case out of
        Inl (HTTPError code detail _) \<Rightarrow> (code, Inl detail)
      | Inl (Unhandled _) \<Rightarrow> (500, Inl ''Internal Server Error'')
      | Inr body \<Rightarrow> (status_code body, Inr body))"

text \<open>The body of the expected answer, \<open>None\<close> for an error body, or what \<open>call\<close> raises.\<close>

definition transcript_call ::
  "('x, 'r) app \<Rightarrow> 'r env \<Rightarrow> request \<Rightarrow> api_client \<Rightarrow> int \<Rightarrow> ('x, 'r) world
   \<Rightarrow> (exn + response option) \<times> ('x, 'r) world" where
  "transcript_call A e req caller expected w =
     (case serve A e (Some (client_token caller)) req w of
        (out, w1) \<Rightarrow>
          (case answer_of out of
             (code, body) \<Rightarrow>
               (if code = expected then Inr (case body of Inl _ \<Rightarrow> None | Inr b \<Rightarrow> Some b)
                else Inl (unexpected_status req caller code expected), w1)))"

text \<open>Reading the bodies: \<open>payload[...]\<close> of another body is a \<open>KeyError\<close>.\<close>

definition key_error :: exn where "key_error = OtherError ''KeyError'' ''missing member of the body''"

definition task_body :: "response option \<Rightarrow> exn + task_response" where
  "task_body b = (case b of Some (TaskBody _ t) \<Rightarrow> Inr t | _ \<Rightarrow> Inl key_error)"

definition run_body :: "response option \<Rightarrow> exn + run_response" where
  "run_body b = (case b of Some (RunBody r) \<Rightarrow> Inr r | _ \<Rightarrow> Inl key_error)"


subsection \<open>The story\<close>

definition and_then_w ::
  "('e + 'a) \<times> 'w \<Rightarrow> ('a \<Rightarrow> 'w \<Rightarrow> ('e + 'b) \<times> 'w) \<Rightarrow> ('e + 'b) \<times> 'w" where
  [code_unfold]: "and_then_w m f = (case m of (Inl x, w) \<Rightarrow> (Inl x, w) | (Inr a, w) \<Rightarrow> f a w)"

definition paused_run ::
  "(ledger, 'r) app \<Rightarrow> 'r env \<Rightarrow> uuid \<Rightarrow> (ledger, 'r) world \<Rightarrow> (exn + run_response) \<times> (ledger, 'r) world" where
  "paused_run A e i w =
     and_then_w (transcript_call A e (RunTask i) DEMO_ANALYST 200 w) (\<lambda>b w1.
       (and_then (run_body b) (\<lambda>r.
        and_then (expecting (tr_status (rn_task r) = AWAITING_APPROVAL)
          (''the run should have paused for approval, got '' @ quoted (status_value (tr_status (rn_task r))))) (\<lambda>_.
        and_then (expecting (payments (ext_state w1) = [])
          ''nothing should have been paid before a human approved it'') (\<lambda>_. Inr r))), w1))"

definition approved_run ::
  "(ledger, 'r) app \<Rightarrow> 'r env \<Rightarrow> uuid \<Rightarrow> run_response \<Rightarrow> (ledger, 'r) world
   \<Rightarrow> (exn + run_response) \<times> (ledger, 'r) world" where
  "approved_run A e i before w =
     and_then_w (transcript_call A e (GetApproval i) DEMO_MANAGER 200 w) (\<lambda>_ w1.
     and_then_w (transcript_call A e (ApproveTask i None) DEMO_ANALYST 403 w1) (\<lambda>_ w2.
     and_then_w (expecting (payments (ext_state w2) = []) ''a refused approval must not have run the held call'', w2)
       (\<lambda>_ w2'.
     and_then_w (transcript_call A e (ApproveTask i (Some ''supplier and amount verified'')) DEMO_MANAGER 200 w2')
       (\<lambda>b w3.
       (and_then (run_body b) (\<lambda>r.
        and_then (expecting (tr_status (rn_task r) = COMPLETED)
          (''the approved run should have completed, got '' @ quoted (status_value (tr_status (rn_task r))))) (\<lambda>_.
        and_then (expecting (rn_steps before < rn_steps r)
          ''the resumed run should continue the paused run's step budget, not reset it'') (\<lambda>_. Inr r))), w3)))))"

definition checked_history ::
  "(ledger, 'r) app \<Rightarrow> 'r env \<Rightarrow> uuid \<Rightarrow> (ledger, 'r) world \<Rightarrow> (exn + unit) \<times> (ledger, 'r) world" where
  "checked_history A e i w =
     and_then_w (transcript_call A e (GetTask i) DEMO_ANALYST 200 w) (\<lambda>b w1.
       (and_then (task_body b) (\<lambda>t.
        and_then (expecting (tr_requested_by t = client_subject DEMO_ANALYST)
          (''the requester should be the analyst's subject, got '' @ quoted (tr_requested_by t))) (\<lambda>_.
        expecting (list_ex (\<lambda>h. case reason h of None \<Rightarrow> False
            | Some why \<Rightarrow> is_prefix (''approved by '' @ client_subject DEMO_MANAGER) why) (tr_history t))
          ''the history should record the manager as the approver'')), w1))"

definition run_walkthrough ::
  "(ledger, 'r) app \<Rightarrow> 'r env \<Rightarrow> uuid \<Rightarrow> string \<Rightarrow> (ledger, 'r) world
   \<Rightarrow> (exn + walkthrough_result) \<times> (ledger, 'r) world" where
  "run_walkthrough A e new_id goal_text w =
     and_then_w (transcript_call A e (CreateTask new_id goal_text) DEMO_ANALYST 201 w) (\<lambda>b w1.
     and_then_w (map_sum id tr_id (task_body b), w1) (\<lambda>i w1.
     and_then_w (paused_run A e i w1) (\<lambda>r w2.
     and_then_w (approved_run A e i r w2) (\<lambda>resumed w3.
     and_then_w (checked_history A e i w3) (\<lambda>_ w4.
       (and_then (expecting (map fst (payments (ext_state w4)) = [DEFAULT_INVOICE_ID])
          (''exactly one invoice should have been paid, ledger holds '' @
             py_repr (JList (map (JStr \<circ> fst) (payments (ext_state w4)))))) (\<lambda>_.
        Inr \<lparr>wt_task_id = i, wt_paused_on = rn_pending r, wt_requester_approval_status = 403,
              wt_final_status = tr_status (rn_task resumed), wt_steps = rn_steps resumed,
              wt_tool_calls = rn_tool_calls resumed, wt_ledger = ext_state w4\<rparr>), w4))))))"

text \<open>\<open>main\<close>: the exit code; an exception that is not a \<open>WalkthroughError\<close> leaves it.\<close>

definition walkthrough_main ::
  "pydantic \<Rightarrow> (string \<Rightarrow> json_object) \<Rightarrow> (string \<Rightarrow> string) \<Rightarrow> settings \<Rightarrow> mem_repo env \<Rightarrow> uuid \<Rightarrow> exn + int" where
  "walkthrough_main P schema_of digest s e new_id =
     and_then (build_demo_app P schema_of digest s) (\<lambda>A.
       (case fst (run_walkthrough A e new_id DEMO_GOAL
               \<lparr>ext_state = new_ledger, event_trace = [], store = mem_empty, await_count = 0\<rparr>) of
          Inl (OtherError cls m) \<Rightarrow> if cls = ''WalkthroughError'' then Inr 1 else Inl (OtherError cls m)
        | Inl x \<Rightarrow> Inl x
        | Inr res \<Rightarrow>
            (case dict_get (payments (wt_ledger res)) DEFAULT_INVOICE_ID of
               None \<Rightarrow> Inl (OtherError ''KeyError'' (quoted DEFAULT_INVOICE_ID))
             | Some _ \<Rightarrow> Inr 0)))"

subsection \<open>What a walkthrough that succeeds has seen\<close>

lemma and_then_w_Inr:
  "and_then_w m f = (Inr b, w') \<longleftrightarrow> (\<exists>a w. m = (Inr a, w) \<and> f a w = (Inr b, w'))"
  by (auto simp: and_then_w_def split: prod.splits sum.splits)

text \<open>
  Requests to an application of the demo's tools pay nothing, but for an approval, which pays what
  the task holds when it is read for the resumption, the second await of the request.
\<close>

lemma serve_pays:
  assumes dep: "demo_deployment P S (app_runner A)" "auto_approve_up_to (app_runner A) \<noteq> CRITICAL"
    and run: "serve A e cred req w = (out, w')"
  shows "pays_only {} (ext_state w) (ext_state w') \<or>
    (\<exists>i b paused. req = ApproveTask i b \<and>
       repo_get (runner_repo (app_runner A)) i (store (await e (await e w))) = Inr paused \<and>
       status paused = AWAITING_APPROVAL \<and> pays_only (set (task_pending_calls paused)) (ext_state w) (ext_state w'))"
  using run
proof (cases rule: serve_cases)
  case (admitted p)
  note eqs = map_prod_sum_eq list_tasks_def get_task_eq get_approval_def await_get_def create_task_def await_add_def Let_def
  show ?thesis
  proof (cases req)
    case (CreateTask new_id g)
    then show ?thesis using admitted by (auto simp: eqs split: sum.splits)
  next
    case (ListTasks st n)
    then show ?thesis using admitted by (auto simp: eqs split: sum.splits if_splits)
  next
    case (GetTask i)
    then show ?thesis using admitted by (auto simp: eqs)
  next
    case (RunTask i)
    then show ?thesis
      using admitted run_pays_nothing [OF dep] by (auto simp: map_prod_sum_eq run_task_eq split: prod.splits)
  next
    case (GetApproval i)
    then show ?thesis using admitted by (auto simp: eqs split: sum.splits if_splits)
  next
    case (ApproveTask i b)
    have "pays_only {} (ext_state w) (ext_state v) \<or>
        (\<exists>paused. repo_get (runner_repo (app_runner A)) i (store (await e (await e w))) = Inr paused \<and>
           status paused = AWAITING_APPROVAL \<and> pays_only (set (task_pending_calls paused)) (ext_state w) (ext_state v))"
      if "approve_task A e i n p w = (o', v)" for n o' v
      using that
    proof (cases rule: approve_cases)
      case (resumed t r)
      from resume_pays_what_was_approved [OF dep resumed(3)] show ?thesis by fastforce
    qed simp_all
    with ApproveTask admitted show ?thesis
      by (fastforce simp: map_prod_sum_eq split: sum.splits)
  next
    case (RejectTask i b)
    have "ext_state v = ext_state w" if "reject (app_runner A) e i who n w = (o', v)" for who n o' v
      using that transition_task_outside(1)
      by (fastforce simp: reject_def require_paused_eq split: sum.splits if_splits)
    with RejectTask admitted show ?thesis
      by (auto simp: map_prod_sum_eq reject_task_eq split: prod.splits sum.splits)
  next
    case (CancelTask i b)
    then show ?thesis
      using admitted transition_task_outside(1)
      by (fastforce simp: map_prod_sum_eq cancel_task_eq split: prod.splits sum.splits)
  qed
qed simp

lemma transcript_call_Inr:
  assumes "transcript_call A e req caller expected w = (Inr b, w')"
  obtains out where "serve A e (Some (client_token caller)) req w = (out, w')" "fst (answer_of out) = expected"
  using assms by (auto simp: transcript_call_def split: prod.splits if_splits)

text \<open>Only the two approvals can pay.\<close>

lemma call_pays_nothing:
  assumes "demo_deployment P S (app_runner A)" "auto_approve_up_to (app_runner A) \<noteq> CRITICAL"
    and "transcript_call A e req caller expected w = (Inr b, w')" "\<nexists>i n. req = ApproveTask i n"
  shows "pays_only {} (ext_state w) (ext_state w')"
  using assms(3)
proof (rule transcript_call_Inr)
  fix out
  assume "serve A e (Some (client_token caller)) req w = (out, w')"
  from serve_pays [OF assms(1,2) this] assms(4) show ?thesis by blast
qed

lemma build_demo_app_facts:
  assumes "build_demo_app P schema_of digest s = Inr A"
  shows "demo_deployment P schema_of (app_runner A)" "auto_approve_up_to (app_runner A) = agent_auto_approve_up_to s"
proof -
  obtain client reg auth where a: "mk_llm_client demo_provider DEMO_TIMEOUT_MS = Inr client"
      "default_registry (build_demo_tools P schema_of) = Inr reg"
      "create_app s digest (\<lambda>_. mem_port) (\<lambda>_. Inr client) (configured_tools P schema_of)
         None (Some client) (Some reg) (Some auth) None = Inr A"
    using assms by (auto simp: build_demo_app_def and_then_Inr)
  then have "runner_llm (app_runner A) = client" "runner_tools (app_runner A) = reg"
    by (auto simp: create_app_def and_then_Inr mk_agent_runner_def Let_def split: if_splits)
  moreover have "client_provider client = demo_provider"
    using a(1) by (auto simp: mk_llm_client_def split: if_splits)
  moreover have "snd (scripted_complete req L) = L" for req and L :: ledger
    by (simp add: scripted_complete_def)
  ultimately show "demo_deployment P schema_of (app_runner A)"
    using mk_registry_get [OF a(2) [unfolded default_registry_def]] by (simp add: demo_deployment_def demo_provider_def)
  show "auto_approve_up_to (app_runner A) = agent_auto_approve_up_to s"
    using create_app_wiring(2) [OF a(3)] .
qed

end
