(* ===== verification/Demo_Run.thy ===== *)
theory Demo_Run
  imports Demo_Walkthrough Scenario Repository_Equivalence Evaluation
begin

section \<open>The walkthrough, executed\<close>

text \<open>
  The demo's application, built from the default settings and wired as \<open>build_demo_app\<close> wires it,
  driven through its routes from an empty store: the whole program at work, from the bearer token
  to the ledger. It is evaluated in two halves, up to the pause and from the approval on; the first
  half's trace of model calls and handler runs is a variable of the second.
\<close>

definition desk :: "(ledger, mem_repo) app" where
  "desk = projr (build_demo_app demo_pydantic (\<lambda>_. []) id default_settings)"

definition desk_world :: "(ledger, mem_repo) world" where
  "desk_world = \<lparr>ext_state = new_ledger, event_trace = [], store = mem_empty, await_count = 0\<rparr>"

lemma desk_built: "map_sum (\<lambda>_. ()) (\<lambda>_. ()) (build_demo_app demo_pydantic (\<lambda>_. []) id default_settings) = Inr ()"
  by code_simp


lemma map_sum_split: "map_sum id f r = Inr y \<Longrightarrow> (\<And>x. r = Inr x \<Longrightarrow> y = f x \<Longrightarrow> thesis) \<Longrightarrow> thesis"
  by (cases r) auto

lemma and_then_split:
  "map_sum id f (and_then r g) = Inr y \<Longrightarrow> (\<And>x. r = Inr x \<Longrightarrow> map_sum id f (g x) = Inr y \<Longrightarrow> thesis) \<Longrightarrow> thesis"
  by (cases r) auto


subsection \<open>Up to the pause\<close>

definition invoice_text :: string where
  "invoice_text = projr (fst (lookup_invoice [(''invoice_id'', JStr DEFAULT_INVOICE_ID)] new_ledger))"

definition held_payment :: agent_task where
  "held_payment = \<lparr>task_id = 7, goal = DEMO_GOAL, requested_by = ''analyst-1'', status = AWAITING_APPROVAL,
     version = 3, created_at = 1000, updated_at = 1008,
     history =
       [\<lparr>from_status = PENDING, to_status = RUNNING, at_time = 1002, reason = Some ''agent run started''\<rparr>,
        \<lparr>from_status = RUNNING, to_status = AWAITING_APPROVAL, at_time = 1008,
         reason = Some ''approval required for: pay_invoice''\<rparr>],
     checkpoint = Some \<lparr>cp_messages =
       [\<lparr>msg_role = USER, msg_content = opening_text DEMO_GOAL, msg_tool_calls = [], msg_tool_results = []\<rparr>,
        \<lparr>msg_role = ASSISTANT, msg_content = [], msg_tool_calls =
           [\<lparr>call_id = ''demo_1_0'', call_name = ''lookup_invoice'',
             call_arguments = [(''invoice_id'', JStr DEFAULT_INVOICE_ID)]\<rparr>], msg_tool_results = []\<rparr>,
        \<lparr>msg_role = USER, msg_content = [], msg_tool_calls = [], msg_tool_results =
           [\<lparr>res_call_id = ''demo_1_0'', res_content = invoice_text, res_is_error = False\<rparr>]\<rparr>,
        \<lparr>msg_role = ASSISTANT, msg_content = [], msg_tool_calls =
           [\<lparr>call_id = ''demo_2_0'', call_name = ''pay_invoice'',
             call_arguments = [(''invoice_id'', JStr DEFAULT_INVOICE_ID), (''amount_eur'', JStr ''1284.50'')]\<rparr>],
         msg_tool_results = []\<rparr>],
       cp_steps = 2, cp_tool_calls = 1, cp_usage = \<lparr>input_tokens = 565, output_tokens = 20\<rparr>\<rparr>\<rparr>"

lemma desk_creates:
  "(case transcript_call desk demo_env (CreateTask 7 DEMO_GOAL) DEMO_ANALYST 201 desk_world of
      (r, w) \<Rightarrow> (map_sum id tr_id (and_then r task_body), ext_state w, store w, await_count w)) =
   (Inr 7, new_ledger, [(7, held_payment\<lparr>status := PENDING, version := 1, updated_at := 1000, history := [],
      checkpoint := None\<rparr>)], 1)"
  by code_simp

lemma desk_pauses:
  "(case paused_run desk demo_env 7 \<lparr>ext_state = new_ledger, event_trace = tr,
        store = [(7, held_payment\<lparr>status := PENDING, version := 1, updated_at := 1000, history := [],
          checkpoint := None\<rparr>)], await_count = 1\<rparr> of
      (r, w) \<Rightarrow> (map_sum id (\<lambda>r. (rn_steps r, rn_pending r)) r, ext_state w, store w, await_count w)) =
   (Inr (2, [''pay_invoice'']), new_ledger, [(7, held_payment)], 9)"
  by code_simp


subsection \<open>From the approval on\<close>

lemma approved_run_steps:
  "rn_steps before = rn_steps before' \<Longrightarrow> approved_run A e i before w = approved_run A e i before' w"
  by (simp add: approved_run_def)

definition held_report :: run_response where
  "held_report = \<lparr>rn_task = task_from_domain held_payment, rn_output = [], rn_detail = [], rn_steps = 2,
     rn_tool_calls = 1, rn_input_tokens = 565, rn_output_tokens = 20, rn_pending = [''pay_invoice'']\<rparr>"

lemma desk_completes:
  "(case approved_run desk demo_env 7 held_report \<lparr>ext_state = new_ledger, event_trace = tr,
        store = [(7, held_payment)], await_count = 9\<rparr> of
      (r, w) \<Rightarrow> (map_sum id (\<lambda>r. (tr_status (rn_task r), rn_steps r, rn_tool_calls r)) r,
        map (\<lambda>(i, p). (i, pay_amount p)) (payments (ext_state w)),
        map_sum id (\<lambda>_. ()) (fst (checked_history desk demo_env 7 w)),
        payments (ext_state (snd (checked_history desk demo_env 7 w))) = payments (ext_state w))) =
   (Inr (COMPLETED, 3, 2), [(DEFAULT_INVOICE_ID, 128450)], Inr (), True)"
  by code_simp


subsection \<open>The whole story\<close>

lemma desk_walkthrough:
  "\<exists>res w'. run_walkthrough desk demo_env 7 DEMO_GOAL desk_world = (Inr res, w') \<and>
     wt_task_id res = 7 \<and> wt_paused_on res = [''pay_invoice''] \<and> wt_requester_approval_status res = 403 \<and>
     wt_final_status res = COMPLETED \<and> wt_steps res = 3 \<and> wt_tool_calls res = 2 \<and> wt_ledger res = ext_state w' \<and>
     map (\<lambda>(i, p). (i, pay_amount p)) (payments (ext_state w')) = [(DEFAULT_INVOICE_ID, 128450)]"
proof -
  obtain b w1 where one: "transcript_call desk demo_env (CreateTask 7 DEMO_GOAL) DEMO_ANALYST 201 desk_world = (Inr b, w1)"
      "map_sum id tr_id (task_body b) = Inr 7"
      "w1 = \<lparr>ext_state = new_ledger, event_trace = event_trace w1, store = [(7, held_payment\<lparr>status := PENDING,
        version := 1, updated_at := 1000, history := [], checkpoint := None\<rparr>)], await_count = 1\<rparr>"
    using desk_creates by (auto split: prod.splits elim!: and_then_split)
  obtain r w2 where two: "paused_run desk demo_env 7 w1 = (Inr r, w2)" "rn_steps r = 2" "rn_pending r = [''pay_invoice'']"
      "w2 = \<lparr>ext_state = new_ledger, event_trace = event_trace w2, store = [(7, held_payment)], await_count = 9\<rparr>"
    using desk_pauses [of "event_trace w1", folded one(3)] by (auto split: prod.splits elim!: map_sum_split)
  have same: "approved_run desk demo_env 7 r w2 = approved_run desk demo_env 7 held_report w2"
    by (rule approved_run_steps) (simp add: two(2) held_report_def)
  obtain q w3 where three: "approved_run desk demo_env 7 r w2 = (Inr q, w3)" "tr_status (rn_task q) = COMPLETED"
      "rn_steps q = 3" "rn_tool_calls q = 2"
      "map (\<lambda>(i, p). (i, pay_amount p)) (payments (ext_state w3)) = [(DEFAULT_INVOICE_ID, 128450)]"
      "map_sum id (\<lambda>_. ()) (fst (checked_history desk demo_env 7 w3)) = Inr ()"
      "payments (ext_state (snd (checked_history desk demo_env 7 w3))) = payments (ext_state w3)"
    using desk_completes [of "event_trace w2", folded two(4)] unfolding same
    by (auto split: prod.splits elim!: map_sum_split)
  obtain w4 where four: "checked_history desk demo_env 7 w3 = (Inr (), w4)" "payments (ext_state w4) = payments (ext_state w3)"
    using three(6,7) by (cases "checked_history desk demo_env 7 w3") (auto elim!: map_sum_split)
  have "map fst (payments (ext_state w4)) = [DEFAULT_INVOICE_ID]"
    using three(5) four(2) by auto
  then show ?thesis
    using one two three four by (simp add: run_walkthrough_def and_then_w_def expecting_def)
qed

end
