(* ===== verification/Demo_Transcript.thy ===== *)
theory Demo_Transcript
  imports Demo_Walkthrough Wire_Format JSON_Roundtrip Service_Logs
begin

section \<open>What the walkthrough prints (\<open>demo/walkthrough.py\<close>)\<close>

text \<open>
  The JSON of the routes' answers, as Pydantic writes the response models, and the transcript: the
  credentials, then each call as a curl command and its answer. A walkthrough that fails prints the
  calls up to the one that failed.
\<close>


subsection \<open>The answers as JSON\<close>

definition opt_str :: "string option \<Rightarrow> json" where
  "opt_str s = (case s of None \<Rightarrow> JNull | Some t \<Rightarrow> JStr t)"

definition task_json :: "pydantic \<Rightarrow> task_response \<Rightarrow> json" where
  "task_json P t = JObj [(''id'', JStr (uuid_str (tr_id t))), (''goal'', JStr (tr_goal t)),
     (''requested_by'', JStr (tr_requested_by t)), (''status'', JStr (status_value (tr_status t))),
     (''is_terminal'', JBool (tr_is_terminal t)), (''version'', JInt (tr_version t)),
     (''created_at'', JStr (json_datetime P (tr_created_at t))),
     (''updated_at'', JStr (json_datetime P (tr_updated_at t))),
     (''history'', JList (map (dump_transition P) (tr_history t)))]"

definition run_json :: "pydantic \<Rightarrow> run_response \<Rightarrow> json" where
  "run_json P r = JObj [(''task'', task_json P (rn_task r)), (''output'', JStr (rn_output r)),
     (''detail'', JStr (rn_detail r)), (''steps'', JInt (rn_steps r)), (''tool_calls'', JInt (rn_tool_calls r)),
     (''input_tokens'', JInt (rn_input_tokens r)), (''output_tokens'', JInt (rn_output_tokens r)),
     (''pending_tool_calls'', JList (map JStr (rn_pending r)))]"

definition pending_json :: "pending_response \<Rightarrow> json" where
  "pending_json c = JObj [(''id'', JStr (pr_id c)), (''name'', JStr (pr_name c)),
     (''arguments'', JObj (pr_arguments c)), (''risk'', opt_str (map_option risk_value (pr_risk c))),
     (''needs_approval'', JBool (pr_needs_approval c))]"

definition approval_json :: "pydantic \<Rightarrow> approval_response \<Rightarrow> json" where
  "approval_json P a = JObj [(''task_id'', JStr (uuid_str (ap_task_id a))), (''goal'', JStr (ap_goal a)),
     (''status'', JStr (status_value (ap_status a))), (''paused_at'', JStr (json_datetime P (ap_paused_at a))),
     (''detail'', opt_str (ap_detail a)), (''pending_tool_calls'', JList (map pending_json (ap_pending a)))]"

fun response_json :: "pydantic \<Rightarrow> response \<Rightarrow> json" where
  "response_json P (TaskBody code t) = task_json P t"
| "response_json P (TaskListBody ts) = JList (map (task_json P) ts)"
| "response_json P (RunBody r) = run_json P r"
| "response_json P (ApprovalBody a) = approval_json P a"

definition answer_json :: "pydantic \<Rightarrow> string + response \<Rightarrow> json" where
  "answer_json P body = (case body of Inl detail \<Rightarrow> JObj [(''detail'', JStr detail)] | Inr r \<Rightarrow> response_json P r)"

text \<open>Every answer is encodable JSON when the arguments it shows are.\<close>

fun shown_arguments :: "response \<Rightarrow> json_object list" where
  "shown_arguments (ApprovalBody a) = map pr_arguments (ap_pending a)"
| "shown_arguments r = []"

lemma opt_str_ok [simp]: "json_ok (opt_str s)"
  by (cases s) (simp_all add: opt_str_def)

lemma dump_transition_ok: "json_ok (dump_transition P h)"
  by (cases "reason h") (simp_all add: dump_transition_def dict_wf_def)

lemma task_json_ok: "json_ok (task_json P t)"
  by (simp add: task_json_def dict_wf_def list_all_iff dump_transition_ok)

lemma pending_json_ok: "json_ok (JObj (pr_arguments c)) \<Longrightarrow> json_ok (pending_json c)"
  by (simp add: pending_json_def dict_wf_def)

lemma answer_json_ok:
  assumes "\<And>r a. body = Inr r \<Longrightarrow> a \<in> set (shown_arguments r) \<Longrightarrow> json_ok (JObj a)"
  shows "json_ok (answer_json P body)"
proof (cases body)
  case (Inr r)
  have "json_ok (response_json P r)"
  proof (cases r)
    case (ApprovalBody a)
    then have "json_ok (pending_json c)" if "c \<in> set (ap_pending a)" for c
      using assms [OF Inr, of "pr_arguments c"] that by (intro pending_json_ok) simp
    then show ?thesis
      using ApprovalBody by (simp add: approval_json_def dict_wf_def list_all_iff)
  qed (simp_all add: run_json_def task_json_ok dict_wf_def list_all_iff)
  then show ?thesis by (simp add: answer_json_def Inr)
qed (simp add: answer_json_def dict_wf_def)


subsection \<open>A call as curl\<close>

definition BASE_URL :: string where "BASE_URL = ''http://127.0.0.1:8000''"

definition ANALYST_VAR :: string where "ANALYST_VAR = ''EAP_ANALYST_TOKEN''"

definition MANAGER_VAR :: string where "MANAGER_VAR = ''EAP_MANAGER_TOKEN''"

fun request_method :: "request \<Rightarrow> string" where
  "request_method (ListTasks _ _) = ''GET''"
| "request_method (GetTask _) = ''GET''"
| "request_method (GetApproval _) = ''GET''"
| "request_method _ = ''POST''"

fun request_path :: "request \<Rightarrow> string" where
  "request_path (CreateTask _ _) = ''/tasks''"
| "request_path (ListTasks _ _) = ''/tasks''"
| "request_path (GetTask i) = ''/tasks/'' @ uuid_str i"
| "request_path (RunTask i) = ''/tasks/'' @ uuid_str i @ ''/run''"
| "request_path (GetApproval i) = ''/tasks/'' @ uuid_str i @ ''/approval''"
| "request_path (ApproveTask i _) = ''/tasks/'' @ uuid_str i @ ''/approve''"
| "request_path (RejectTask i _) = ''/tasks/'' @ uuid_str i @ ''/reject''"
| "request_path (CancelTask i _) = ''/tasks/'' @ uuid_str i @ ''/cancel''"

fun request_body :: "request \<Rightarrow> json_object option" where
  "request_body (CreateTask _ goal_text) = Some [(''goal'', JStr goal_text)]"
| "request_body (ApproveTask _ (Some words)) = Some [(''note'', JStr words)]"
| "request_body (RejectTask _ (Some why)) = Some [(''reason'', JStr why)]"
| "request_body (CancelTask _ (Some why)) = Some [(''reason'', JStr why)]"
| "request_body _ = None"

lemma route_of_split: "route_of req = request_method req @ '' '' @ request_path req"
  by (cases req) simp_all

definition as_curl :: "request \<Rightarrow> api_client \<Rightarrow> string" where
  "as_curl req caller =
     (let variable = (if caller = DEMO_ANALYST then ANALYST_VAR else MANAGER_VAR) in
      py_join [CHR '' '', CHR 0x5C, CHR 0x0A]
        ([''$ curl -s -X '' @ request_method req @ '' '' @ BASE_URL @ request_path req,
          ''    -H '' @ [CHR 0x22] @ ''Authorization: Bearer $'' @ variable @ [CHR 0x22]] @
         (case request_body req of
            None \<Rightarrow> []
          | Some body \<Rightarrow>
              [''    -H '' @ quoted ''Content-Type: application/json'',
               ''    -d '' @ quoted (json_dumps (JObj body))])))"


subsection \<open>The transcript\<close>

definition print_line :: "string \<Rightarrow> string" where
  "print_line s = s @ [CHR 0x0A]"

definition preamble :: string where
  "preamble =
     print_line ''# 0. The two credentials this deployment issues.'' @
     concat (map (\<lambda>(credential, variable).
         print_line (''$ export '' @ variable @ ''='' @ client_token credential @ ''  # '' @
           client_subject credential @ '': '' @ py_join '', '' (sorted_scopes (client_scopes credential))))
       [(DEMO_ANALYST, ANALYST_VAR), (DEMO_MANAGER, MANAGER_VAR)])"

definition call_text :: "pydantic \<Rightarrow> string \<Rightarrow> request \<Rightarrow> api_client \<Rightarrow> string + response \<Rightarrow> string" where
  "call_text P heading req caller body =
     print_line ([CHR 0x0A] @ ''# '' @ heading) @ print_line (as_curl req caller) @
     print_line (dumps_indent 0 (answer_json P body))"

text \<open>The later lines of a heading are comments of the transcript as well. 0x97 is the long dash.\<close>

definition heading_lines :: "string list \<Rightarrow> string" where
  "heading_lines ls = py_join ([CHR 0x0A] @ ''#    '') ls"

definition walkthrough_calls :: "uuid \<Rightarrow> uuid \<Rightarrow> string \<Rightarrow> (string \<times> request \<times> api_client) list" where
  "walkthrough_calls new_id i goal_text =
     [(heading_lines
        [''1. Create the task as the analyst. Nothing runs yet; it is '' @ quoted ''pending'' @ ''.'',
         quoted ''requested_by'' @ '' is not a field '' @ [CHR 0x97] @ '' it is the token's subject, because it'',
         ''is half of the separation-of-duties check at the approval gate.''],
       CreateTask new_id goal_text, DEMO_ANALYST),
      (heading_lines
        [''2. Run it. The agent reads the invoice unattended, then asks to pay it '' @ [CHR 0x97],
         quoted ''pay_invoice'' @ '' is CRITICAL, above EAP_AGENT_AUTO_APPROVE_UP_TO=read,'',
         ''so the whole turn stops and the task parks in '' @ quoted ''awaiting_approval'' @ ''.''],
       RunTask i, DEMO_ANALYST),
      (heading_lines
        [''3. Show the approver the decision: which calls are held, with the'',
         ''arguments they would run with and the risk that stopped them.''],
       GetApproval i, DEMO_MANAGER),
      (heading_lines
        [''4. The analyst tries to release the task they asked for. 403: their token'',
         ''carries '' @ quoted ''tasks:write'' @ '', not '' @ quoted ''tasks:approve'' @ '' '' @ [CHR 0x97] @
           '' the authority to make an'',
         ''agent act is not the authority to release what it wants to do. A token'',
         ''holding both is refused too, by the separation-of-duties check, since'',
         ''the subject that requested a task cannot be the one that approves it.''],
       ApproveTask i None, DEMO_ANALYST),
      (heading_lines
        [''5. The manager approves. The held call runs and the *same* run continues'',
         ''from its checkpoint: the counters below cover the whole run, pause'',
         ''included. Who approved comes from the token, not from the body.''],
       ApproveTask i (Some ''supplier and amount verified''), DEMO_MANAGER),
      (heading_lines
        [''6. The audit history: who asked, what paused it, who approved it, and'',
         ''the version at every step. Both names are authenticated subjects.''],
       GetTask i, DEMO_ANALYST)]"

fun calls_transcript ::
  "pydantic \<Rightarrow> ('x, 'r) app \<Rightarrow> 'r env \<Rightarrow> (string \<times> request \<times> api_client) list \<Rightarrow> ('x, 'r) world
   \<Rightarrow> string \<times> ('x, 'r) world" where
  "calls_transcript P A e [] w = ([], w)"
| "calls_transcript P A e ((heading, req, caller) # calls) w =
     (case serve A e (Some (client_token caller)) req w of
        (out, w1) \<Rightarrow>
          (case calls_transcript P A e calls w1 of
             (text, w2) \<Rightarrow> (call_text P heading req caller (snd (answer_of out)) @ text, w2)))"

definition closing_text :: "walkthrough_result \<Rightarrow> string" where
  "closing_text res =
     (case dict_get (payments (wt_ledger res)) DEFAULT_INVOICE_ID of
        None \<Rightarrow> []
      | Some p \<Rightarrow>
          print_line ([CHR 0x0A] @ ''# Done. Task '' @ uuid_str (wt_task_id res) @ '' is '' @
            quoted (status_value (wt_final_status res)) @ '' after '' @ int_str (wt_steps res) @
            '' model calls and '' @ int_str (wt_tool_calls res) @ '' tool calls,'' @ [CHR 0x0A] @
            ''# pausing on '' @ py_join '', '' (wt_paused_on res) @ '' for a human. The ledger records one '' @
            ''payment: '' @ decimal_str (pay_amount p) @ '' EUR under '' @ pay_reference p @ ''.''))"

text \<open>What \<open>main\<close> prints for a walkthrough that succeeds.\<close>

definition walkthrough_text ::
  "pydantic \<Rightarrow> (ledger, 'r) app \<Rightarrow> 'r env \<Rightarrow> uuid \<Rightarrow> string \<Rightarrow> (ledger, 'r) world \<Rightarrow> string" where
  "walkthrough_text P A e new_id goal_text w =
     (case fst (run_walkthrough A e new_id goal_text w) of
        Inl x \<Rightarrow> []
      | Inr res \<Rightarrow>
          preamble @ fst (calls_transcript P A e (walkthrough_calls new_id (wt_task_id res) goal_text) w) @
          closing_text res)"

text \<open>The commands shown are the calls made: running them in order is the walkthrough.\<close>

lemma transcript_call_serves:
  "transcript_call A e req caller expected w = (out, w1) \<Longrightarrow>
   snd (serve A e (Some (client_token caller)) req w) = w1"
  by (auto simp: transcript_call_def split: prod.splits)

lemma shown_call:
  "transcript_call A e req caller expected w = (out, w1) \<Longrightarrow>
   snd (calls_transcript P A e ((h, req, caller) # calls) w) = snd (calls_transcript P A e calls w1)"
  using transcript_call_serves [of A e req caller expected w out w1] by (auto split: prod.splits)

lemma shown_calls_are_the_walkthrough:
  assumes "run_walkthrough A e new_id goal_text w = (Inr res, w')"
  shows "snd (calls_transcript P A e (walkthrough_calls new_id (wt_task_id res) goal_text) w) = w'"
  using assms
  by (auto simp: run_walkthrough_def paused_run_def approved_run_def checked_history_def and_then_w_Inr
      and_then_Inr walkthrough_calls_def shown_call simp del: calls_transcript.simps(2))

text \<open>
  It paid one invoice, in full, in the fifth call, the manager's approval, and as a call said which
  the task was holding; the fourth had refused the analyst the same approval.
\<close>

lemma walkthrough_pays_once:
  assumes app: "build_demo_app P schema_of digest s = Inr A" "agent_auto_approve_up_to s \<noteq> CRITICAL"
    and run: "run_walkthrough A e new_id goal_text w = (Inr res, w')" and books: "ext_state w = new_ledger"
  shows "\<exists>u refused v out v' paused c p.
    snd (calls_transcript P A e (take 3 (walkthrough_calls new_id (wt_task_id res) goal_text)) w) = u \<and>
    serve A e (Some ANALYST_TOKEN) (ApproveTask (wt_task_id res) None) u = (refused, v) \<and>
    fst (answer_of refused) = 403 \<and> payments (ext_state v) = [] \<and>
    serve A e (Some MANAGER_TOKEN) (ApproveTask (wt_task_id res) (Some ''supplier and amount verified'')) v = (out, v') \<and>
    payments (ext_state v') = payments (ext_state w') \<and>
    repo_get (runner_repo (app_runner A)) (wt_task_id res) (store (await e (await e v))) = Inr paused \<and>
    status paused = AWAITING_APPROVAL \<and> c \<in> set (task_pending_calls paused) \<and>
    names_payment c (DEFAULT_INVOICE_ID, p) \<and>
    payments (ext_state w') = [(DEFAULT_INVOICE_ID, p)] \<and> pay_amount p = 128450 \<and>
    wt_final_status res = COMPLETED \<and>
    snd (calls_transcript P A e (walkthrough_calls new_id (wt_task_id res) goal_text) w) = w'"
proof -
  have pol: "auto_approve_up_to (app_runner A) \<noteq> CRITICAL" using build_demo_app_facts(2) [OF app(1)] app(2) by simp
  note quiet = call_pays_nothing [OF build_demo_app_facts(1) [OF app(1)] pol]
  note pays = serve_pays [OF build_demo_app_facts(1) [OF app(1)] pol]
  let ?i = "wt_task_id res"
  obtain b0 b1 b2 b3 b4 b5 wa wb wc wd we where calls:
      "transcript_call A e (CreateTask new_id goal_text) DEMO_ANALYST 201 w = (Inr b0, wa)"
      "transcript_call A e (RunTask ?i) DEMO_ANALYST 200 wa = (Inr b1, wb)"
      "transcript_call A e (GetApproval ?i) DEMO_MANAGER 200 wb = (Inr b2, wc)"
      "transcript_call A e (ApproveTask ?i None) DEMO_ANALYST 403 wc = (Inr b3, wd)"
      "transcript_call A e (ApproveTask ?i (Some ''supplier and amount verified'')) DEMO_MANAGER 200 wd = (Inr b4, we)"
      "transcript_call A e (GetTask ?i) DEMO_ANALYST 200 we = (Inr b5, w')"
    and checks: "payments (ext_state wd) = []" "map fst (payments (ext_state w')) = [DEFAULT_INVOICE_ID]"
      "wt_final_status res = COMPLETED"
    using run
    by (auto simp: run_walkthrough_def paused_run_def approved_run_def checked_history_def and_then_w_Inr
        and_then_Inr expecting_def split: if_splits)
  from calls(4) obtain refused where refused:
      "serve A e (Some ANALYST_TOKEN) (ApproveTask ?i None) wc = (refused, wd)" "fst (answer_of refused) = 403"
    by (rule transcript_call_Inr) (simp add: DEMO_ANALYST_def)
  from calls(5) obtain out where out:
      "serve A e (Some MANAGER_TOKEN) (ApproveTask ?i (Some ''supplier and amount verified'')) wd = (out, we)"
    by (rule transcript_call_Inr) (simp add: DEMO_MANAGER_def)
  have steps: "books_extend (ext_state w) (ext_state wa)" "books_extend (ext_state wa) (ext_state wb)"
      "books_extend (ext_state wb) (ext_state wc)" "books_extend (ext_state wc) (ext_state wd)"
      "books_extend (ext_state wd) (ext_state we)" "pays_only {} (ext_state we) (ext_state w')"
    using quiet [OF calls(1)] quiet [OF calls(2)] quiet [OF calls(3)] quiet [OF calls(6)] pays [OF refused(1)] pays [OF out]
    by (auto simp: pays_only_def)
  then have same: "payments (ext_state w') = payments (ext_state we)" by (simp add: pays_only_nothing)
  have "ledger_ok new_ledger" by (simp add: ledger_ok_def new_ledger_def dict_wf_def)
  then have ok: "ledger_ok (ext_state w')" "invoices (ext_state w') = DEMO_INVOICES"
    using steps books by (auto simp: pays_only_def books_extend_def new_ledger_def)
  obtain p where p: "payments (ext_state w') = [(DEFAULT_INVOICE_ID, p)]"
    using checks(2) by (cases "payments (ext_state w')") auto
  from pays [OF out] obtain paused where paused:
      "repo_get (runner_repo (app_runner A)) ?i (store (await e (await e wd))) = Inr paused" "status paused = AWAITING_APPROVAL"
      "pays_only (set (task_pending_calls paused)) (ext_state wd) (ext_state we)"
    using p same checks(1) by (auto simp: pays_only_nothing)
  then obtain c where c: "c \<in> set (task_pending_calls paused)" "names_payment c (DEFAULT_INVOICE_ID, p)"
    using p same checks(1) by (auto simp: pays_only_def)
  have amount: "pay_amount p = 128450"
    using ok p by (simp add: ledger_ok_def ledger_get_def DEMO_INVOICES_def DEFAULT_INVOICE_ID_def split: option.splits)
  have "snd (calls_transcript P A e (take 3 (walkthrough_calls new_id ?i goal_text)) w) = wc"
    using calls by (simp add: walkthrough_calls_def shown_call del: calls_transcript.simps(2))
  then show ?thesis
    using refused out checks p same paused(1,2) c amount shown_calls_are_the_walkthrough [OF run, of P]
    by (intro exI [of _ wc] exI [of _ refused] exI [of _ wd] exI [of _ out] exI [of _ we]
        exI [of _ paused] exI [of _ c] exI [of _ p]) simp
qed

text \<open>An answer in the transcript reads back as the answer.\<close>

lemma shown_answer_decodes:
  assumes "\<And>r a. body = Inr r \<Longrightarrow> a \<in> set (shown_arguments r) \<Longrightarrow> json_ok (JObj a)"
  shows "json_loads (dumps_indent 0 (answer_json P body)) = Some (answer_json P body)"
  using assms by (intro loads_indent answer_json_ok)


subsection \<open>What a shell makes of the command\<close>

text \<open>The body stands between apostrophes, which JSON does not escape: only texts without one survive.\<close>

lemma escape_apostrophe: "CHR 0x27 \<in> set (escape_char c) \<longleftrightarrow> c = CHR 0x27"
proof -
  have digit: "CHR 0x27 \<noteq> digit_char d" if "d < 16" for d
  proof
    assume "CHR 0x27 = digit_char d"
    then have "Some d = hex_value (CHR 0x27)" using hex_value_digit [OF that] by simp
    then show False by (simp add: hex_value_def)
  qed
  have "CHR 0x27 \<notin> set (unicode_escape n)" for n
    by (auto simp: unicode_escape_def hex_digits_4 digit)
  moreover have "c \<noteq> CHR 0x27" if "(of_char c :: nat) \<notin> {32..<127}" using that by auto
  ultimately show ?thesis by (auto simp: escape_char_def Let_def)
qed

lemma body_apostrophe:
  "CHR 0x27 \<in> set (json_dumps (JObj [(k, JStr s)])) \<longleftrightarrow> CHR 0x27 \<in> set k \<or> CHR 0x27 \<in> set s"
  by (auto simp: json_dumps_def quote_json_def escape_apostrophe)

end
