(* ===== verification/Spec2Isabelle.thy ===== *)
theory Spec2Isabelle
  imports Consequences Scenario_Servers Demo_Run Demo_Transcript
begin

text \<open>
  A verification library for the enterprise agent platform: the Python service under
  \<open>src/src/enterprise_agent_platform/\<close> that runs language-model agents on tasks, holds their risky
  tool calls for a human, and serves this over HTTP. Paths below are relative to that directory.

  \<^bold>\<open>The program.\<close> A task (\<open>tasks/models.py\<close>) is an immutable record with a lifecycle, a version
  and a history; a repository (\<open>tasks/repository.py\<close>, \<open>tasks/postgres.py\<close>) stores it under an
  optimistic version check; \<open>transition_task\<close> (\<open>tasks/service.py\<close>) loads, transitions and writes.
  The agent runner (\<open>agent/runner.py\<close>) moves a task to running, then alternates model calls
  (\<open>llm/client.py\<close>, over the provider port of \<open>llm/provider.py\<close>, whose production adapter is
  \<open>llm/anthropic_provider.py\<close>) with tool turns (\<open>tools/registry.py\<close>) until an answer, a failure, an
  exhausted budget, or a call whose tool needs approval; then it stores the conversation as a
  checkpoint and pauses. \<open>resume\<close> continues it on an approval, \<open>reject\<close> cancels it. The HTTP routes
  (\<open>tasks/router.py\<close>) put authentication and scopes (\<open>auth/\<close>) and the separation of duties in
  front, and a middleware (\<open>request_context.py\<close>) gives every request an identifier that its logs
  carry (\<open>logging.py\<close>). Tools of remote MCP servers are discovered and gated locally (\<open>mcp/\<close>), a
  demo deployment supplies accounts-payable tools, a scripted model and a walkthrough (\<open>demo/\<close>), and
  \<open>config.py\<close>, the factories and \<open>main.py\<close> put it together.

  \<^bold>\<open>The theories.\<close>
  \<open>Prelude\<close>: strings, slices, dictionaries, numerals, UUIDs. \<open>Exceptions\<close>: every exception class as
  one datatype. \<open>LLM_Models\<close>, \<open>LLM_Client\<close>: \<open>llm/models.py\<close>, \<open>llm/errors.py\<close>, \<open>llm/provider.py\<close>,
  \<open>llm/client.py\<close>. \<open>Tool_Models\<close>, \<open>Tool_Registry\<close>: \<open>tools/\<close>. \<open>Task_Models\<close>: the task, its
  transitions, the invariant \<open>task_ok\<close> and the specification \<open>legal_step\<close>. \<open>Task_Repository\<close>: the
  storage port, its contract as the locale \<open>task_repository\<close>, and the in-memory adapter that
  interprets it. \<open>Task_Service\<close>: suspension points, other writers, \<open>transition_task\<close>.
  \<open>Agent_Runner\<close>: the runner, method by method. \<open>Runner_Facts\<close>: case and induction rules for its
  methods. \<open>Runner_Frames\<close>: the locale \<open>runner_frame\<close>, which lifts a relation from the runner's
  primitive actions to its methods, interpreted for the ghost trace, for the books of the demo and,
  as sublocales of the repository contract, for the guarantee to other writers and for the tasks'
  invariant. \<open>Runner_Endings\<close>, \<open>Runner_Repository\<close>, \<open>Runner_Results\<close>, \<open>Runner_Correct\<close>,
  \<open>Runner_Requests\<close>: how a run ends and what it cost, its result against the stored task, that it
  returns, which errors leave it, what it asks the model. \<open>Auth\<close>, \<open>Task_Router\<close>,
  \<open>Router_Correct\<close>: the HTTP surface. \<open>Interleaving\<close>: any number of requests interleaved at their
  suspension points.

  \<open>Wire_Format\<close>: what Pydantic writes for a stored task and how it validates it back. \<open>Postgres\<close>:
  the adapter, its statements as functions on a list of rows. \<open>Postgres_Contract\<close>: the locale
  \<open>postgres_server\<close> (what the server and Pydantic promise), in which the adapter is shown to satisfy
  \<open>task_repository\<close>, as a sublocale. \<open>Repository_Equivalence\<close>: a client's view of any repository
  under the contract is the in-memory one's, and a concrete server. \<open>MCP_Protocol\<close>, \<open>MCP_Client\<close>,
  \<open>MCP_Tools\<close>, \<open>MCP_Connections\<close>, \<open>MCP_Transport\<close>: \<open>mcp/\<close>; the transport's requests, their
  queue for the pipe, its reader, deadlines and shutdown are the step relation \<open>channel_step\<close>. \<open>MCP_Stdio\<close>: the transport on child
  processes, their pipes and their framing, each operation shown to be a run of \<open>channel_step\<close>; it
  interprets \<open>server_host\<close>, the locale of \<open>MCP_Connections\<close> in which a startup is shown to leave no
  process behind. \<open>MCP_Logs\<close>: what these modules log. \<open>Anthropic\<close>: the production model
  adapter. \<open>JSON_Text\<close>: \<open>json.dumps\<close> and the parser; \<open>JSON_Roundtrip\<close>: the
  parser reads back what \<open>dumps\<close> wrote. \<open>Demo_Ledger\<close>, \<open>Demo_Tools\<close>, \<open>Demo_Books\<close>,
  \<open>Demo_Provider\<close>, \<open>Demo_Walkthrough\<close>: the ledger, its tools, what an agent can do to the books,
  the scripted model, the walkthrough; \<open>Demo_Transcript\<close>: what it prints, and the JSON of the routes'
  answers. \<open>Config\<close>, \<open>Application\<close>: settings, factories, \<open>create_app\<close>,
  startup and shutdown; \<open>Startup\<close>: the configured servers connected on a host of processes, what
  startup logs, the health route, the schema command. \<open>Request_Context\<close>: context variables, middleware, log records;
  \<open>Service_Logs\<close>: what the services log.
  \<open>Evaluation\<close>: code equations on integers. \<open>Scenario\<close>, \<open>Scenario_Adapters\<close>,
  \<open>Scenario_Servers\<close>: concrete deployments, databases and server programs on which the properties
  below are exercised; \<open>Demo_Run\<close>: the walkthrough executed. \<open>Consequences\<close>: further facts about
  single operations.

  \<^bold>\<open>Conventions.\<close> A Python exception is \<open>Inl\<close> of an \<open>exn\<close>. A coroutine is a function of an \<open>env\<close>
  and a \<open>world\<close>: the world is the outside state, a ghost trace of the model calls and handler runs,
  the store, and the number of suspension points passed; the environment says what the other
  requests make of the store at each of them, what the clock reads and in which order the calls of
  a turn finish. \<open>fair_env\<close> restricts the others to legal transitions and new tasks, which
  \<open>interleaving_is_atomic\<close> and \<open>requests_are_fair_writers\<close> show is what this program's own requests
  do; \<open>alone\<close> says nobody else writes. Integers are Python's, hence \<open>int\<close>; the database's widths are
  checked where it binds a parameter; a UUID is a \<open>128 word\<close>. A string is a list of characters of
  one code page. Pydantic models are records with validated constructors.

  \<^bold>\<open>Repositories.\<close> A property with the hypothesis \<open>task_repository R lookup invar storable stored\<close>
  holds for both adapters, which \<open>repositories_keep_the_contract\<close> shows to satisfy it; \<open>stored\<close> is the form
  in which a written task comes back. Where a property needs that every task can be stored, it is
  about the in-memory adapter: a text the database refuses leaves as the driver's error
  (\<open>nul_argument_strands_task\<close>). A database that is down is not modelled. A refused update reads the row
  a second time to explain itself; what others write between its two statements is counted with what
  they write at the \<open>await\<close> before it, which \<open>update_suspension_absorbed\<close> shows to give the same answer.

  \<^bold>\<open>MCP servers.\<close> A request registers its future, waits for the write lock, writes and drains, in separate
  steps of \<open>channel_step\<close>, so that a reply may be read before its request is written; over a child
  process (\<open>MCP_Stdio\<close>) requests come one after the other. A server answers at once or not at all: a
  request that is not answered waits for the first deadline over it, its own, or during the handshake the
  one over startup unless that is longer (\<open>within_startup\<close>).

  \<^bold>\<open>Termination.\<close> The only loop whose end depends on the outside, \<open>drive_loop\<close>, is total: every
  round that goes on spends one step of \<open>max_steps\<close>. No fuel is used for it. \<open>list_pages\<close> recurses
  on the pages left, which the code counts down from \<open>MAX_LIST_PAGES\<close>.

  \<^bold>\<open>Parameters.\<close> The model provider, the tools' argument models and handlers, the SHA-256 digest,
  the clock, fresh UUIDs and the other writers are arguments; \<open>runner_ok\<close>, \<open>provider_ok\<close>,
  \<open>registry_ok\<close> and \<open>fair_env\<close> name what is relied on. \<open>pydantic\<close> and \<open>pydantic_ok\<close>: lax coercions and
  the text of a time. \<open>postgres\<close> and \<open>postgres_ok\<close>: the server's \<open>jsonb\<close>, its texts and its errors.
  \<open>launcher\<close> and \<open>server\<close>: what the operating system starts for a command, and what that program
  does with a line, with the end of its input and with SIGTERM. \<open>sdk\<close> and
  \<open>sdk_documented\<close>: Anthropic's client. \<open>schema_of\<close>: the JSON Schema Pydantic derives from a class.

  \<^bold>\<open>Not modelled.\<close> FastAPI's routing and parsing of requests; how an operating system
  schedules a child process (a line is answered and read at once, and a late answer comes with the
  next one), \<open>json.loads\<close>' guess at UTF-16 and undecodable bytes on a server's stderr; reading the
  environment and \<open>.env\<close>; durations and timestamps in logs (a traceback's text comes with the
  exception). An \<open>asyncio\<close> cancellation of a
  run from outside (a client that disconnects) is not modelled either.
\<close>

text \<open>
  C1. A run never executes a call of a tool whose risk exceeds the auto-approval threshold, whatever
  the model asks for, whatever other writers do to the store and however the run ends: every handler
  it ran belongs to a call the policy lets run unattended.
\<close>

theorem run_keeps_gated_tools_closed:
  assumes "run D e i w = (out, w')"
  shows "\<exists>evs. event_trace w' = event_trace w @ evs \<and>
    (\<forall>c. HandlerRun c \<in> set evs \<longrightarrow> \<not> needs_approval D c)"
  using trace.G_run [OF assms] by (simp add: extends_unattended_def unattended_events_def)

theorem run_keeps_gated_tools_closed_witness:
  "\<exists>evs. event_trace held_world = event_trace demo_world @ evs \<and>
    (\<forall>c. HandlerRun c \<in> set evs \<longrightarrow> \<not> needs_approval demo_runner c)"
  by (rule run_keeps_gated_tools_closed [OF demo_run_eq])

text \<open>
  C2. Over HTTP, with separation of duties on and any repository that keeps the storage contract: if
  a gated tool's handler ran while a request was served, the request was an approval, its bearer
  token belongs to a principal that holds tasks:approve and is not the subject that requested the
  task, and the call is one of those the task was holding while it awaited approval.
\<close>

theorem gated_call_needs_second_person:
  assumes "task_repository R lookup invar storable stored" "app_repository A = R" "runner_repo (app_runner A) = R"
    and "fair_env lookup invar e" "invar (store w)"
    and "requires_second_person (app_policy A)"
    and "serve A e cred req w = (out, w')"
    and "HandlerRun c \<in> set (drop (length (event_trace w)) (event_trace w'))"
    and "needs_approval (app_runner A) c"
  shows "\<exists>i body token p paused cp s. req = ApproveTask i body \<and> cred = Some token \<and>
    authenticate (app_digest A) (app_authenticator A) token = Some p \<and>
    TASKS_APPROVE \<in> set (scopes p) \<and> subject p \<noteq> requested_by paused \<and>
    repo_evolves lookup (store w) s \<and> lookup s i = Some paused \<and>
    status paused = AWAITING_APPROVAL \<and> checkpoint paused = Some cp \<and> c \<in> set (pending_calls cp)"
proof -
  have A: "task_repository.app_ok R A"
    using assms(2,3) by (simp add: task_repository.app_ok_def [OF assms(1)])
  from task_repository.serve_released [OF assms(1) A assms(4,5,7,8,9)] show ?thesis
    using assms(6) unfolding may_approve_def by blast
qed

theorem gated_call_needs_second_person_witness:
  "\<exists>i body token p paused cp s. ApproveTask 7 None = ApproveTask i body \<and> Some ''b'' = Some token \<and>
    authenticate (app_digest demo_app) (app_authenticator demo_app) token = Some p \<and>
    TASKS_APPROVE \<in> set (scopes p) \<and> subject p \<noteq> requested_by paused \<and>
    repo_evolves dict_get (store held_world) s \<and> dict_get s i = Some paused \<and>
    status paused = AWAITING_APPROVAL \<and> checkpoint paused = Some cp \<and> pay_call \<in> set (pending_calls cp)"
proof (rule gated_call_needs_second_person [OF mem.task_repository_axioms])
  show "app_repository demo_app = mem_port" "runner_repo (app_runner demo_app) = mem_port"
    "requires_second_person (app_policy demo_app)"
    by (simp_all add: demo_app_def)
  show "fair_env dict_get mem_invar demo_env" "mem_invar (store held_world)"
    by (rule demo_fair held_world_ok)+
  show "serve demo_app demo_env (Some ''b'') (ApproveTask 7 None) held_world =
    (fst (serve demo_app demo_env (Some ''b'') (ApproveTask 7 None) held_world),
     snd (serve demo_app demo_env (Some ''b'') (ApproveTask 7 None) held_world))"
    by simp
  show "HandlerRun pay_call \<in> set (drop (length (event_trace held_world))
    (event_trace (snd (serve demo_app demo_env (Some ''b'') (ApproveTask 7 None) held_world))))"
    by code_simp
  show "needs_approval (app_runner demo_app) pay_call"
    by code_simp
qed

text \<open>
  C3. Over any repository that keeps the storage contract, a resumption either raises with nothing
  asked of the outside, or there was a stored task awaiting approval whose very version became
  running with 'approved by <who>' in its history, and what was executed is pending calls of its
  checkpoint, each at most once, followed only by calls that need no approval.
\<close>

theorem resume_runs_only_what_was_approved:
  assumes "task_repository R lookup invar storable stored"
    and "runner_repo D = R" "fair_env lookup invar e" "invar (store w)"
    and "resume D e i who note w = (out, w')"
  shows "((\<exists>x. out = Inl x) \<and> event_trace w' = event_trace w) \<or>
    (\<exists>paused cp t at s js evs. lookup (store (await e w)) i = Some paused \<and>
       status paused = AWAITING_APPROVAL \<and> checkpoint paused = Some cp \<and>
       transition_to paused RUNNING (Some (with_note (''approved by '' @ who) note)) None at = Inr t \<and>
       lookup s i = Some (stored t) \<and> repo_evolves lookup s (store w') \<and>
       event_trace w' = event_trace w @ map (\<lambda>j. HandlerRun (pending_calls cp ! j)) js @ evs \<and>
       distinct js \<and> set js \<subseteq> {0..<length (pending_calls cp)} \<and>
       (\<forall>c. HandlerRun c \<in> set evs \<longrightarrow> \<not> needs_approval D c))"
  using assms(2-)
proof (rule task_repository.resume_release [OF assms(1)])
  fix x assume "out = Inl x" "event_trace w' = event_trace w"
  then show ?thesis by blast
next
  fix paused cp t s js evs
  assume "lookup (store (await e w)) i = Some paused" "status paused = AWAITING_APPROVAL"
    "checkpoint paused = Some cp" "lookup s i = Some (stored t)" "repo_evolves lookup s (store w')"
    "\<exists>at. transition_to paused RUNNING (Some (with_note (''approved by '' @ who) note)) None at = Inr t"
    "event_trace w' = event_trace w @ map (\<lambda>j. HandlerRun (pending_calls cp ! j)) js @ evs"
    "distinct js" "set js \<subseteq> {0..<length (pending_calls cp)}" "unattended_events D evs"
  then show ?thesis unfolding unattended_events_def by blast
qed

theorem resume_runs_only_what_was_approved_witness:
  "((\<exists>x. Inr approved_result = (Inl x :: exn + run_result)) \<and> event_trace approved_world = event_trace held_world) \<or>
    (\<exists>paused cp t at s js evs. dict_get (store (await demo_env held_world)) 7 = Some paused \<and>
       status paused = AWAITING_APPROVAL \<and> checkpoint paused = Some cp \<and>
       transition_to paused RUNNING (Some (with_note (''approved by '' @ ''bo'') None)) None at = Inr t \<and>
       dict_get s 7 = Some (id t) \<and> repo_evolves dict_get s (store approved_world) \<and>
       event_trace approved_world =
         event_trace held_world @ map (\<lambda>j. HandlerRun (pending_calls cp ! j)) js @ evs \<and>
       distinct js \<and> set js \<subseteq> {0..<length (pending_calls cp)} \<and>
       (\<forall>c. HandlerRun c \<in> set evs \<longrightarrow> \<not> needs_approval demo_runner c))"
  by (rule resume_runs_only_what_was_approved [OF mem.task_repository_axioms demo_repo demo_fair held_world_ok(1) demo_resume_eq])

text \<open>
  C4. In a deployment of the demo's tools whose policy does not auto-approve critical calls and
  whose model only talks, a run pays nothing, whatever the model asks for, and a resumption pays
  only invoices and amounts named by calls that the task it found awaiting approval was holding;
  books on which every payment settles an existing invoice in full, and no invoice twice, stay so.
\<close>

theorem money_moves_only_on_approval:
  assumes "demo_deployment P S D" "auto_approve_up_to D \<noteq> CRITICAL"
  shows "payments (ext_state (snd (run D e i w))) = payments (ext_state w) \<and>
    (\<exists>new. payments (ext_state (snd (resume D e i who note w))) = payments (ext_state w) @ new \<and>
      (\<forall>ip \<in> set new. \<exists>paused. repo_get (runner_repo D) i (store (await e w)) = Inr paused \<and>
         status paused = AWAITING_APPROVAL \<and> (\<exists>c \<in> set (task_pending_calls paused). names_payment c ip))) \<and>
    (ledger_ok (ext_state w) \<longrightarrow>
      ledger_ok (ext_state (snd (run D e i w))) \<and> ledger_ok (ext_state (snd (resume D e i who note w))))"
proof (intro conjI impI)
  have run: "pays_only {} (ext_state w) (ext_state (snd (run D e i w)))"
    by (rule run_pays_nothing [OF assms prod.collapse [symmetric]])
  let ?L = "ext_state (snd (resume D e i who note w))"
  have res: "pays_only {} (ext_state w) ?L \<or>
      (\<exists>paused. repo_get (runner_repo D) i (store (await e w)) = Inr paused \<and>
         status paused = AWAITING_APPROVAL \<and> pays_only (set (task_pending_calls paused)) (ext_state w) ?L)"
    by (rule resume_pays_what_was_approved [OF assms prod.collapse [symmetric]])
  show "payments (ext_state (snd (run D e i w))) = payments (ext_state w)"
    using run by (simp add: pays_only_nothing)
  show "\<exists>new. payments (ext_state (snd (resume D e i who note w))) = payments (ext_state w) @ new \<and>
      (\<forall>ip \<in> set new. \<exists>paused. repo_get (runner_repo D) i (store (await e w)) = Inr paused \<and>
         status paused = AWAITING_APPROVAL \<and> (\<exists>c \<in> set (task_pending_calls paused). names_payment c ip))"
    using res unfolding pays_only_def by blast
  assume "ledger_ok (ext_state w)"
  then show "ledger_ok (ext_state (snd (run D e i w)))" "ledger_ok (ext_state (snd (resume D e i who note w)))"
    using run res unfolding pays_only_def books_extend_def by blast+
qed

theorem money_moves_only_on_approval_witness:
  "(\<exists>c \<in> set (task_pending_calls payment_task). \<exists>ip. names_payment c ip \<and>
      payments (ext_state (snd (resume clerk_runner demo_env 7 ''bo'' None payment_world))) = [ip]) \<and>
    payments (ext_state (snd (run clerk_runner demo_env 7 payment_world))) = []"
proof -
  let ?L = "ext_state (snd (resume clerk_runner demo_env 7 ''bo'' None payment_world))"
  have none: "payments (ext_state payment_world) = []"
    by (simp add: payment_world_def new_ledger_def)
  note m = money_moves_only_on_approval [OF clerk_deployment, of demo_env 7 payment_world "''bo''" None, unfolded none]
  obtain ip where ip: "payments ?L = [ip]" using clerk_pays by auto
  have "repo_get (runner_repo clerk_runner) 7 (store (await demo_env payment_world)) = Inr payment_task"
    by (simp add: clerk_runner_def store_await_alone [OF demo_alone] payment_world_def mem_get_def)
  with m ip obtain c where "c \<in> set (task_pending_calls payment_task)" "names_payment c ip" by auto
  with m ip show ?thesis by blast
qed

text \<open>
  C5. Over any repository that keeps the storage contract, a run that returns either ended the task
  itself - the stored task is the returned one, completed, failed or awaiting approval, the returned
  detail is the reason of its last transition, out of running, and the ending is one of the six the
  loop has (a completed run's output is the text of an untruncated, unrefused answer; a held run's
  checkpoint carries the requested calls and the counters) - or it gave up: it returns the stored
  task as somebody else left it, with no output.
\<close>

theorem run_outcome_is_recorded:
  assumes "task_repository R lookup invar storable stored"
    and "runner_repo D = R" "fair_env lookup invar e" "invar (store w)"
    and "run D e i w = (Inr r, w')"
  shows "(landed (lookup (store w')) i stored r \<and>
      run_ending D (result_state r) w' (status (rr_task r)) (rr_detail r) (rr_output r) (checkpoint (rr_task r))) \<or>
    given_up (lookup (store w')) i r"
  using task_repository.run_result [OF assms] by (simp add: reported_def)

theorem run_outcome_is_recorded_witness:
  "(landed (dict_get (store held_world)) 7 id held_result \<and>
      run_ending demo_runner (result_state held_result) held_world (status (rr_task held_result))
        (rr_detail held_result) (rr_output held_result) (checkpoint (rr_task held_result))) \<or>
    given_up (dict_get (store held_world)) 7 held_result"
  by (rule run_outcome_is_recorded [OF mem.task_repository_axioms demo_repo demo_fair demo_world_ok(1) demo_run_eq])

text \<open>
  C6. With working collaborators and nobody else writing, running a pending task returns: exactly
  two transitions are made, no other task changes, the task ends completed, failed or awaiting
  approval with the reason returned to the caller, and the model was called once per step, at most
  max_steps times.
\<close>

theorem run_terminates_alone:
  assumes "runner_repo D = mem_port" "runner_ok D" "alone e" "mem_invar (store w)"
    and "dict_get (store w) i = Some t" "status t = PENDING"
  shows "\<exists>r w'. run D e i w = (Inr r, w') \<and> landed (dict_get (store w')) i id r \<and>
    version (rr_task r) = version t + 2 \<and>
    dict_get (store w') = (dict_get (store w))(i \<mapsto> rr_task r) \<and>
    model_calls w' - model_calls w = rr_steps r \<and> rr_steps r \<le> max_steps D"
proof -
  obtain r w' where "run D e i w = (Inr r, w')" "reported D (dict_get (store w')) i id r w'"
      "version (rr_task r) = version t + 2"
      "dict_get (store w') = (dict_get (store w))(i \<mapsto> id (rr_task r))"
      "model_calls w' - model_calls w = rr_steps r" "rr_steps r \<le> max_steps D"
    using mem.run_alone [OF assms(1-3) TrueI assms(4,5)] assms(6) by blast
  then show ?thesis unfolding reported_def id_apply by blast
qed

theorem run_terminates_alone_witness:
  "\<exists>r w'. run steady_runner demo_env 7 demo_world = (Inr r, w') \<and>
    landed (dict_get (store w')) 7 id r \<and> version (rr_task r) = version demo_task + 2 \<and>
    dict_get (store w') = (dict_get (store demo_world))(7 \<mapsto> rr_task r) \<and>
    model_calls w' - model_calls demo_world = rr_steps r \<and> rr_steps r \<le> max_steps steady_runner"
  by (rule run_terminates_alone [OF steady_runner_sel(1) steady_runner_ok demo_alone demo_world_ok(1) demo_task_pending])

text \<open>
  C7. Over any repository that keeps the storage contract, any interleaving of requests that load a
  task, compute its next version and write it against the version they loaded is equivalent to one
  request at a time: replaying the log of the writes that landed as atomic, legal transitions from
  the initial store gives exactly the final store.
\<close>

theorem interleaving_is_atomic:
  assumes "task_repository R lookup invar storable stored"
    and "sys_reaches R (sys_init r) s" "invar r"
  shows "replay stored (sys_log s) (lookup r) = Some (lookup (sys_store s))"
  by (rule task_repository.interleaving_atomic [OF assms])

theorem interleaving_is_atomic_witness:
  "replay id (sys_log race_end) (dict_get (store demo_world)) = Some (dict_get (sys_store race_end))"
  by (rule interleaving_is_atomic [OF mem.task_repository_axioms race_reached demo_world_ok(1)])

text \<open>
  C8. A client cannot tell the two repositories apart, as long as it writes the way the program
  does: for any sequence of additions, reads, versioned updates and listings in which every task
  written is one the server can store, every update is the next version of the one it expects, all
  tasks written under an id agree in goal, requester and creation time, and limits are natural
  numbers a bigint holds, a freshly connected PostgreSQL adapter gives exactly the answers of the
  empty in-memory repository fed the same operations on the stored form of the tasks.
\<close>

theorem postgres_answers_like_memory:
  assumes "pydantic_ok P" "postgres_ok D" "ops_fit (pg_storable P D) ops"
  shows "\<exists>r. pg_connect None True pg_init = Inr r \<and>
    fst (repo_run (pg_port P D) ops r) = fst (repo_run mem_port (map (map_op (pg_stored P D)) ops) mem_empty)"
  using postgres_server.fresh_runs_like_memory [OF postgres_server.intro [OF assms(1,2)] assms(3)] connect_fresh
  by blast

theorem postgres_answers_like_memory_witness:
  "\<exists>r. pg_connect None True pg_init = Inr r \<and>
    fst (repo_run (pg_port demo_pydantic demo_postgres) written_ops r) =
      fst (repo_run mem_port (map (map_op (pg_stored demo_pydantic demo_postgres)) written_ops) mem_empty)"
  by (rule postgres_answers_like_memory [OF demo_pydantic_ok demo_postgres_ok written_ops_fit])

text \<open>
  C9. However requests interleave, on any repository that keeps the storage contract, no version of
  a task is replaced twice: of two runners, approvers or cancellations that loaded the same version,
  at most one write lands, so a checkpoint is released at most once.
\<close>

theorem no_version_is_replaced_twice:
  assumes "task_repository R lookup invar storable stored"
    and "sys_reaches R (sys_init r) s" "invar r"
  shows "distinct (releases (sys_log s))"
  by (rule task_repository.interleaving_single_release [OF assms])

theorem no_version_is_replaced_twice_witness: "distinct (releases (sys_log race_end))"
  by (rule no_version_is_replaced_twice [OF mem.task_repository_axioms race_reached demo_world_ok(1)])

text \<open>
  C10. Every model request of a run is a conversation that starts with the user and in which the
  results of each turn answer exactly the tool calls of the turn before, by id and in order, with no
  call left open; it carries the runner's prompt and token limit and offers exactly the registered
  tools.
\<close>

theorem requests_answer_every_call:
  assumes "run D e i w = (out, w')"
  shows "\<exists>evs. event_trace w' = event_trace w @ evs \<and> (\<forall>req. ModelCall req \<in> set evs \<longrightarrow>
    conversation_ok (req_messages req) \<and> paired [] (req_messages req) \<and>
    msg_tool_calls (last (req_messages req)) = [] \<and> req_system req = Some (system_prompt D) \<and>
    req_max_tokens req = max_tokens D \<and> specs (runner_tools D) = Inr (req_tools req))"
  using run_requests [OF assms] unfolding asks_def request_ok_def dialogue_ok_def by blast

theorem requests_answer_every_call_witness:
  "\<exists>evs. event_trace held_world = event_trace demo_world @ evs \<and> (\<forall>req. ModelCall req \<in> set evs \<longrightarrow>
    conversation_ok (req_messages req) \<and> paired [] (req_messages req) \<and>
    msg_tool_calls (last (req_messages req)) = [] \<and> req_system req = Some (system_prompt demo_runner) \<and>
    req_max_tokens req = max_tokens demo_runner \<and> specs (runner_tools demo_runner) = Inr (req_tools req))"
  by (rule requests_answer_every_call [OF demo_run_eq])

text \<open>
  C11. A resumption continues the paused conversation: if it asks the model anything, its first
  request has exactly the messages of the checkpoint that the task held when it was read, then one
  message with the results of executing the held calls once the approval had landed, in the order of
  the calls and under their ids, and each later request has the messages of the one before and more.
  Every request is a well-formed conversation with every call answered, under the runner's own
  settings, and the invariant of the stored tasks, their paused conversations included, is kept.
\<close>

theorem resumed_conversation_continues:
  assumes "task_repository R lookup invar storable stored"
    and "runner_repo D = R" "fair_env lookup invar e" "invar (store w)" "all_tasks_ok lookup (store w)"
    and "resume D e i who note w = (out, w')"
  shows "(\<exists>evs. event_trace w' = event_trace w @ evs \<and>
      (\<forall>req. ModelCall req \<in> set evs \<longrightarrow> request_ok D req)) \<and>
    (\<exists>reqs. requests (event_trace w') = requests (event_trace w) @ reqs \<and>
      (reqs = [] \<or> (\<exists>paused cp t w2 rs w3 m.
         lookup (store (await e w)) i = Some paused \<and> checkpoint paused = Some cp \<and>
         transition_task R e i RUNNING (Some (with_note (''approved by '' @ who) note)) None (Some (version paused))
           (await e w) = (Inr t, w2) \<and>
         execute_all (runner_tools D) (finish_priority e (await_count w2)) (pending_calls cp) (await e w2) = (rs, w3) \<and>
         map res_call_id rs = map call_id (pending_calls cp) \<and> with_tool_results rs = Inr m \<and>
         req_messages (hd reqs) = cp_messages cp @ [m] \<and>
         sorted_wrt strict_prefix (map req_messages reqs)))) \<and>
    invar (store w') \<and> all_tasks_ok lookup (store w')"
proof -
  note state_ok_def = task_repository.state_ok_def [OF assms(1)]
  have ok: "task_repository.state_ok lookup invar w" using assms(4,5) by (simp add: state_ok_def)
  from task_repository.resume_conversation [OF assms(1-4,6)]
  have reqs: "\<exists>reqs. requests (event_trace w') = requests (event_trace w) @ reqs \<and>
      (reqs = [] \<or> (\<exists>paused cp t w2 rs w3 m.
         lookup (store (await e w)) i = Some paused \<and> checkpoint paused = Some cp \<and>
         transition_task R e i RUNNING (Some (with_note (''approved by '' @ who) note)) None (Some (version paused))
           (await e w) = (Inr t, w2) \<and>
         execute_all (runner_tools D) (finish_priority e (await_count w2)) (pending_calls cp) (await e w2) = (rs, w3) \<and>
         map res_call_id rs = map call_id (pending_calls cp) \<and> with_tool_results rs = Inr m \<and>
         req_messages (hd reqs) = cp_messages cp @ [m] \<and>
         sorted_wrt strict_prefix (map req_messages reqs)))"
    unfolding conversation_from_def by blast
  from task_repository.resume_requests [OF assms(1-3) ok assms(6)] reqs show ?thesis
    by (simp only: asks_def state_ok_def simp_thms)
qed

theorem resumed_conversation_continues_witness:
  "\<exists>reqs cp m. requests (event_trace approved_world) = requests (event_trace held_world) @ reqs \<and> reqs \<noteq> [] \<and>
     checkpoint (the (dict_get (store held_world) 7)) = Some cp \<and>
     req_messages (hd reqs) = cp_messages cp @ [m]"
proof -
  note all = resumed_conversation_continues [OF mem.task_repository_axioms demo_repo demo_fair held_world_ok demo_resume_eq]
  have "length (requests (event_trace approved_world)) \<noteq> length (requests (event_trace held_world))" by code_simp
  with all show ?thesis by (fastforce simp: store_await_alone [OF demo_alone])
qed

text \<open>
  C12. A run that returns made exactly as many model calls as it reports steps, at most max_steps,
  and ran at most as many tool handlers as it reports tool calls; a run that raises made at most
  max_steps model calls.
\<close>

theorem run_stays_in_budget:
  assumes "run D e i w = (out, w')" and "1 \<le> max_steps D"
  shows "case out of
      Inr r \<Rightarrow> model_calls w' - model_calls w = rr_steps r \<and> rr_steps r \<le> max_steps D \<and>
        handler_runs w' - handler_runs w \<le> rr_tool_calls r
    | Inl x \<Rightarrow> model_calls w' - model_calls w \<le> max_steps D"
  using assms(1)
proof (cases rule: run_cases)
  case refused
  then show ?thesis using counts_transition(1) [OF refused(2)] assms(2) by simp
next
  case (started t w1 m)
  note same = counts_transition [OF started(1)]
  show ?thesis
    using drive_budget [OF started(4)] drive_cost [of D e "task_id t" "[m]" new_run_state w1 _ w'] started(4)
      same assms(2)
    by (cases out) simp_all
qed

theorem run_stays_in_budget_witness:
  "case (Inr held_result :: exn + run_result) of
      Inr r \<Rightarrow> model_calls held_world - model_calls demo_world = rr_steps r \<and>
        rr_steps r \<le> max_steps demo_runner \<and>
        handler_runs held_world - handler_runs demo_world \<le> rr_tool_calls r
    | Inl x \<Rightarrow> model_calls held_world - model_calls demo_world \<le> max_steps demo_runner"
  by (rule run_stays_in_budget [OF demo_run_eq]) (simp add: demo_runner_def)

text \<open>
  C13. A resumed run continues the step count of the checkpoint: its model calls are its reported
  steps less those already spent, and the total never exceeds max_steps (or what was already spent),
  so pausing and approving is no way around the budget.
\<close>

theorem approval_does_not_reset_budget:
  assumes "task_repository R lookup invar storable stored"
    and "runner_repo D = R" "fair_env lookup invar e" "invar (store w)"
    and "resume D e i who note w = (Inr r, w')"
  shows "\<exists>paused cp. lookup (store (await e w)) i = Some paused \<and> checkpoint paused = Some cp \<and>
    cp_steps cp + (model_calls w' - model_calls w) = rr_steps r \<and>
    rr_steps r \<le> max (max_steps D) (cp_steps cp)"
proof -
  obtain paused cp where "lookup (store (await e w)) i = Some paused" "checkpoint paused = Some cp"
      "model_calls w' - model_calls w = rr_steps r - cp_steps cp" "rr_steps r \<le> max (max_steps D) (cp_steps cp)"
    using task_repository.resume_result [OF assms] by blast
  then show ?thesis by (intro exI [of _ paused] exI [of _ cp]) simp
qed

theorem approval_does_not_reset_budget_witness:
  "\<exists>paused cp. dict_get (store (await demo_env held_world)) 7 = Some paused \<and> checkpoint paused = Some cp \<and>
    cp_steps cp + (model_calls approved_world - model_calls held_world) = rr_steps approved_result \<and>
    rr_steps approved_result \<le> max (max_steps demo_runner) (cp_steps cp)"
  by (rule approval_does_not_reset_budget [OF mem.task_repository_axioms demo_repo demo_fair held_world_ok(1) demo_resume_eq])

text \<open>
  C14. Both repositories implement the same storage contract: the in-memory one always, the
  PostgreSQL adapter on the table of rows its statements work on, given a server that returns
  equivalent JSON and a Pydantic that validates back what it wrote. Reads return what was last
  written, with the database in the form the jsonb column gives a checkpoint back; add refuses an
  existing id; update is refused for a missing task and a stale version and otherwise replaces
  exactly that task; a listing is the newest-first prefix of the matching tasks; a value the server
  cannot store is refused.
\<close>

theorem repositories_keep_the_contract:
  assumes "pydantic_ok P" "postgres_ok D"
  shows "task_repository mem_port dict_get mem_invar (\<lambda>_. True) id \<and>
    task_repository (pg_port P D) (pg_lookup P) (pg_invar P D) (pg_storable P D) (pg_stored P D)"
  using assms by (intro conjI mem.task_repository_axioms postgres_server.contract postgres_server.intro)

theorem repositories_keep_the_contract_witness:
  "task_repository mem_port dict_get mem_invar (\<lambda>_. True) id \<and>
    task_repository (pg_port demo_pydantic demo_postgres) (pg_lookup demo_pydantic)
     (pg_invar demo_pydantic demo_postgres) (pg_storable demo_pydantic demo_postgres)
     (pg_stored demo_pydantic demo_postgres)"
  by (rule repositories_keep_the_contract [OF demo_pydantic_ok demo_postgres_ok])

text \<open>
  C15. A remote server has no say in what its tools may do: after registering what a server
  published, a tool that was not there before stands under the server's own prefix, for a
  declaration whose full name is a legal one, and whether a call of it waits for approval depends on
  the risk this deployment configured for that name alone: the override for the name, else the
  server's default. A server configured with nothing but its name and command has the default
  critical, so that every call of its tools waits wherever critical calls are not auto-approved.
\<close>

theorem remote_risk_is_local:
  assumes "register_mcp_tools P reg client config ds = (out, reg')"
    and "get_tool reg n = None" "get_tool reg' n = Some t"
    and "runner_tools D = reg'" "call_name c = n"
  shows "\<exists>d \<in> set ds. is_registrable config (decl_name d) \<and> n = mcp_name config @ ''__'' @ decl_name d \<and>
    (needs_approval D c \<longleftrightarrow> exceeds (risk_for config (decl_name d)) (auto_approve_up_to D)) \<and>
    risk_for config (decl_name d) =
      (case dict_get (tool_risk_overrides config) (decl_name d) of None \<Rightarrow> default_risk config | Some r \<Rightarrow> r) \<and>
    (config = default_mcp_server_config server command \<longrightarrow>
       risk_for config (decl_name d) = CRITICAL \<and> (auto_approve_up_to D \<noteq> CRITICAL \<longrightarrow> needs_approval D c))"
proof -
  obtain d where d: "d \<in> set ds" "is_registrable config (decl_name d)" "n = local_name config (decl_name d)"
      "tool_risk t = risk_for config (decl_name d)"
    using register_mcp_tools_get [OF assms(1,3)] assms(2) by auto
  have "exceeds CRITICAL r" if "r \<noteq> CRITICAL" for r using that by (cases r) (simp_all add: exceeds_def)
  then show ?thesis
    using d assms(3-5) by (intro bexI [of _ d])
      (auto simp: local_name_def needs_approval_def requires_approval_def risk_for_def default_mcp_server_config_def)
qed

theorem remote_risk_is_local_witness:
  "\<exists>d \<in> set bill_tools. is_registrable billing_config (decl_name d) \<and>
    ''billing__void_bill'' = mcp_name billing_config @ ''__'' @ decl_name d \<and>
    (needs_approval billing_runner void_call \<longleftrightarrow>
      exceeds (risk_for billing_config (decl_name d)) (auto_approve_up_to billing_runner)) \<and>
    risk_for billing_config (decl_name d) =
      (case dict_get (tool_risk_overrides billing_config) (decl_name d) of
         None \<Rightarrow> default_risk billing_config | Some r \<Rightarrow> r)"
proof -
  let ?out = "register_mcp_tools demo_pydantic empty_registry billing_client billing_config bill_tools"
  have out: "?out = (fst ?out, snd ?out)" by simp
  have new: "get_tool empty_registry ''billing__void_bill'' = None" by (simp add: get_tool_def empty_registry_def)
  have "get_tool (snd ?out) ''billing__void_bill'' \<noteq> None" by code_simp
  then have found: "get_tool (snd ?out) ''billing__void_bill'' = Some (the (get_tool (snd ?out) ''billing__void_bill''))"
    by simp
  have "runner_tools billing_runner = snd ?out" "call_name void_call = ''billing__void_bill''"
    by (simp_all add: billing_runner_def void_call_def)
  from remote_risk_is_local [OF out new found this] show ?thesis by blast
qed

text \<open>
  C16. What the Anthropic adapter sends carries the whole request: reading the messages of the API
  call back gives the conversation as it was, tool calls and results included, and the system prompt
  and the token limit are the request's. The tools sent are the tools offered, one by one and in
  order, each under its name and with its description; the input schema each is sent with is the
  tool's own as the strict form makes it, and it is closed: each typed object in it says whether it
  admits other properties and, if it lists properties, which are required.
\<close>

theorem requests_survive_the_wire:
  "\<exists>ms ts. dict_get (create_arguments model req) ''messages'' = Some (JList ms) \<and>
    map (\<lambda>m. read_message (as_dict m)) ms = req_messages req \<and>
    dict_get (create_arguments model req) ''max_tokens'' = Some (JInt (req_max_tokens req)) \<and>
    dict_get (create_arguments model req) ''system'' = map_option JStr (req_system req) \<and>
    dict_get (create_arguments model req) ''tools'' = (if req_tools req = [] then None else Some (JList ts)) \<and>
    list_all2 (\<lambda>sent t. \<exists>schema.
        str_member (as_dict sent) ''name'' = spec_name t \<and>
        str_member (as_dict sent) ''description'' = spec_description t \<and>
        dict_get (as_dict sent) ''input_schema'' = Some schema \<and>
        closed_schema schema \<and> schema = JObj (strict_json_schema (spec_input_schema t)))
      ts (req_tools req)"
proof (intro exI conjI)
  have "dict_get (optional_member ''system'' v) k = (if k = ''system'' then v else None)"
    "dict_get (optional_member ''output_config'' v) k = (if k = ''output_config'' then v else None)"
    "dict_get (optional_member ''tools'' v) k = (if k = ''tools'' then v else None)" for v k
    by (simp_all add: optional_member_def split: option.split)
  note member = this
  show "dict_get (create_arguments model req) ''messages'' =
      Some (JList (map (\<lambda>m. JObj (message_param m)) (req_messages req)))"
    "dict_get (create_arguments model req) ''max_tokens'' = Some (JInt (req_max_tokens req))"
    "dict_get (create_arguments model req) ''system'' = map_option JStr (req_system req)"
    "dict_get (create_arguments model req) ''tools'' =
      (if req_tools req = [] then None else Some (JList (map tool_param (req_tools req))))"
    by (simp_all add: create_arguments_def member tool_params_def map_add_def split: option.split)
  show "map (\<lambda>m. read_message (as_dict m)) (map (\<lambda>m. JObj (message_param m)) (req_messages req)) =
      req_messages req"
    by (simp add: read_message_param comp_def)
  have "closed_schema (JObj (strict_json_schema s))" for s
    unfolding strict_json_schema_closes by (rule close_objects_closed)
  then show "list_all2 (\<lambda>sent t. \<exists>schema.
        str_member (as_dict sent) ''name'' = spec_name t \<and>
        str_member (as_dict sent) ''description'' = spec_description t \<and>
        dict_get (as_dict sent) ''input_schema'' = Some schema \<and>
        closed_schema schema \<and> schema = JObj (strict_json_schema (spec_input_schema t)))
      (map tool_param (req_tools req)) (req_tools req)"
    by (simp add: list_all2_conv_all_nth tool_param_def str_member_def get_or_null_def del: closed_schema.simps)
qed

text \<open>
  C17. However requests, the queue for the pipe, replies, deadlines, write failures and the closing
  of the transport interleave on one pipe: a request ends at most once, and whenever it returns a
  result, its line had been written by then and a message had been received that carries its id and
  says that result, after the request was issued under that id - which may be before its line left
  the queue. It is never the answer to another request or to an earlier use of the pipe.
\<close>

theorem replies_reach_their_request:
  assumes "channel_reaches channel_open c"
  shows "distinct (ended_ids (ch_log c)) \<and>
    (\<forall>before rest i r. ch_log c = before @ Returned i (Inr r) # rest \<longrightarrow>
       Sent i \<in> set before \<and>
       (\<exists>a b d m. before = a @ Issued i # b @ Received m # d \<and>
          int_value (get_or_null m ''id'') = Some i \<and> reply_value m = Inr r))"
  using channel_replies [OF assms] unfolding returned_ok_def replied_def answer_for_def .

theorem replies_reach_their_request_witness:
  "\<exists>a b d m. [Issued 1, Sent 1, Received ping_reply] = a @ Issued 1 # b @ Received m # d \<and>
     int_value (get_or_null m ''id'') = Some 1 \<and> reply_value m = Inr [(''ok'', JBool True)]"
proof -
  have "ch_log answered_channel =
      [Issued 1, Sent 1, Received ping_reply] @ Returned 1 (Inr [(''ok'', JBool True)]) # []"
    by (simp add: answered_channel_def)
  then show ?thesis using replies_reach_their_request [OF answered_channel_reached] by blast
qed

text \<open>
  C18. Starting the service connects the configured MCP servers over child processes or leaves
  nothing behind, whatever the programs do, exit by themselves included: when one cannot be started,
  fails the handshake or publishes something that cannot be registered, every process started before
  it is gone again and no other process of the host was touched; when all connect there is one
  client per configured server, and closing the connections leaves running exactly what ran before.
  Either way a tool the registry did not have before stands under a configured server's prefix, at
  the risk the settings give it.
\<close>

theorem no_orphaned_servers:
  assumes "host_ok h" "\<forall>c \<in> set (mcp_servers s). mk_mcp_server_config c = Inr c"
    and "connect_configured P launch path s A h = (out, A', h')"
  shows "(case out of Inl e \<Rightarrow> running h' = running h
     | Inr Cs \<Rightarrow> length Cs = length (mcp_servers s) \<and> running h \<subseteq> running h' \<and>
         running (close_all Cs h') = running h) \<and>
    (\<forall>n t. get_tool (runner_tools (app_runner A')) n = Some t \<longrightarrow>
       get_tool (runner_tools (app_runner A)) n = Some t \<or>
       (\<exists>c \<in> set (mcp_servers s). \<exists>remote. is_registrable c remote \<and> n = local_name c remote \<and>
          tool_risk t = risk_for c remote))"
  using connect_configured_hosts [OF assms] connect_configured_tools [OF assms(3)] by blast

theorem no_orphaned_servers_witness:
  "running (snd (snd (connect_configured demo_pydantic demo_launch (Some ''/bin'')
     (serving [billing_config, ledger_config]) host_app idle_host))) = {}"
proof -
  let ?out = "connect_configured demo_pydantic demo_launch (Some ''/bin'')
     (serving [billing_config, ledger_config]) host_app idle_host"
  have e: "?out = (fst ?out, fst (snd ?out), snd (snd ?out))" by simp
  have "map mk_mcp_server_config [billing_config, ledger_config] = [Inr billing_config, Inr ledger_config]"
    by code_simp
  then have t: "\<forall>c \<in> set (mcp_servers (serving [billing_config, ledger_config])). mk_mcp_server_config c = Inr c"
    by (simp add: serving_def)
  have ok: "host_ok idle_host" "running idle_host = {}"
    by (simp_all add: host_ok_def running_def idle_host_def)
  have "\<exists>e. fst ?out = Inl e"
    using second_server_fails by (cases "fst ?out") (simp_all add: split_beta)
  then show ?thesis
    using no_orphaned_servers [OF ok(1) t e] ok(2) by auto
qed

text \<open>
  C19. What the transport writes to a server's input is one line per message, whatever text the
  message carries: the bytes of any sequence of messages split at the newlines into exactly as many
  lines, with nothing left over, and each line decodes to the message it was written for, in order.
\<close>

theorem messages_survive_the_pipe:
  assumes "list_all (\<lambda>m. json_ok (JObj m)) ms"
  shows "split_lines newline (concat (map message_bytes ms)) = (map message_line ms, []) \<and>
    map json_loads (map message_line ms) = map (\<lambda>m. Some (JObj m)) ms"
  using assms by (rule framing_round_trip)

theorem messages_survive_the_pipe_witness:
  "json_loads (message_line (request_message 1 ''tools/call'' (Some [(''text'', JStr [CHR 0x0A, CHR 0x22])]))) =
   Some (JObj (request_message 1 ''tools/call'' (Some [(''text'', JStr [CHR 0x0A, CHR 0x22])])))"
proof -
  have "list_all (\<lambda>m. json_ok (JObj m)) [request_message 1 ''tools/call'' (Some [(''text'', JStr [CHR 0x0A, CHR 0x22])])]"
    by (simp add: request_message_def dict_wf_def)
  from messages_survive_the_pipe [OF this] show ?thesis by simp
qed

text \<open>
  C20. A server that answers a request with one line is heard, however it spells its JSON: on a
  connected transport with nothing unread, if what it writes is one line of at most 4 MiB that
  decodes, white space around it aside, to a JSON object carrying the request's id, the request ends
  exactly as that object says - with its result, the remote error it reports, or a protocol error
  when it has neither - even if the server exits right after writing it.
\<close>

theorem answering_server_is_heard:
  assumes "connected c" "pr_unread c = []" "i = tp_next_id (ch_state (pr_channel c)) + 1"
    and "re_stdout (sv_reacts (pr_server c) (pr_memory c) (message_line (request_message i method params))) =
      line @ [Char newline]"
    and "Char newline \<notin> set line" "stream_bytes line \<le> MAX_FRAME_BYTES"
      "decode_utf8 (bytes_strip line) = Inr text" "json_loads text = Some (JObj reply)"
    and "int_value (get_or_null reply ''id'') = Some i"
  shows "fst (child_request command method params c) = reply_value reply"
  using assms by (rule request_answered)

theorem answering_server_is_heard_witness:
  "fst (child_request ''billing-mcp'' ''tools/list'' None billing_child) = Inr [(''tools'', JList [billing_tool])]"
proof -
  have i: "1 = tp_next_id (ch_state (pr_channel billing_child)) + 1" by (simp add: billing_child_up)
  have "reply_value list_reply = Inr [(''tools'', JList [billing_tool])]"
    by (simp add: reply_value_def list_reply_def get_or_null_def)
  then show ?thesis
    using answering_server_is_heard [OF billing_child_up(1,2) i billing_child_answers list_reply_line] list_reply_fits
    by simp
qed

text \<open>
  C21. The transport over pipes implements the channel: whatever the server program writes, exits
  included, a request is a run of the channel's steps - it is sent, what the server wrote is read
  line by line, and it returns or is abandoned - so the child stays one the channel can reach, and a
  result it returns came in a message that answers its id and was read after it was sent.
\<close>

theorem stdio_requests_run_the_channel:
  assumes "child_ok c" "child_request command method params c = (out, c', logs)"
  shows "channel_reaches (pr_channel c) (pr_channel c') \<and> child_ok c' \<and>
    (\<forall>r. out = Inr r \<longrightarrow> answered (ch_log (pr_channel c')) (tp_next_id (ch_state (pr_channel c)) + 1) r)"
  using child_request_reach [OF assms(2,1)] child_request_ok [OF assms(2,1)] child_request_answered assms(2) by blast

theorem stdio_requests_run_the_channel_witness:
  "answered (ch_log (pr_channel (fst (snd (child_request ''billing-mcp'' ''tools/list'' None billing_child))))) 1
     [(''tools'', JList [billing_tool])]"
proof -
  let ?out = "child_request ''billing-mcp'' ''tools/list'' None billing_child"
  have e: "?out = (fst ?out, fst (snd ?out), snd (snd ?out))" by simp
  have "fst ?out = Inr [(''tools'', JList [billing_tool])]" by code_simp
  then show ?thesis
    using stdio_requests_run_the_channel [OF billing_child_up(3) e] billing_child_up(4) by simp
qed

text \<open>
  C22. Closing a started transport ends: the child is gone afterwards, having been asked by the end
  of its input, then SIGTERM, then SIGKILL, each only if it had not exited before - the kill exactly
  for one that ignores both; nobody waits on a request any more, closing again does nothing, and a
  later request is refused.
\<close>

theorem closing_ends_the_process:
  assumes "child_ok c" "pr_running c" "actions = fst (child_shutdown c)"
  shows "\<not> pr_running (child_aclose c) \<and> child_ok (child_aclose c) \<and>
    actions = shutdown_actions True (pr_stdin_open c) (sv_exits_on_eof (pr_server c) (pr_memory c))
      (sv_exits_on_term (pr_server c) (pr_memory c)) \<and>
    (Kill \<in> set actions \<longleftrightarrow> \<not> sv_exits_on_eof (pr_server c) (pr_memory c) \<and>
       \<not> sv_exits_on_term (pr_server c) (pr_memory c)) \<and>
    (\<forall>i. dict_get (tp_pending (ch_state (pr_channel (child_aclose c)))) i \<noteq> Some Waiting) \<and>
    child_aclose (child_aclose c) = child_aclose c \<and>
    fst (child_request command method params (child_aclose c)) =
      Inl (transport_error ''MCP transport is not connected'')"
proof -
  have gone: "\<not> pr_running (child_aclose c)" "child_ok (child_aclose c)"
    using child_aclose_ok [OF assms(1)] by blast+
  have actions: "actions = shutdown_actions True (pr_stdin_open c) (sv_exits_on_eof (pr_server c) (pr_memory c))
      (sv_exits_on_term (pr_server c) (pr_memory c))"
    using child_shutdown_actions(1) [of c, OF surjective_pairing] assms(2,3) by simp
  have closed: "tp_closed (ch_state (pr_channel (child_aclose c)))"
    using assms(1,2) by (rule child_aclose_closed)
  then have "\<forall>i. dict_get (tp_pending (ch_state (pr_channel (child_aclose c)))) i \<noteq> Some Waiting"
    using gone(2) closed_settled_reaches by (auto simp: child_ok_def closed_settled_def)
  moreover have "child_aclose (child_aclose c) = child_aclose c"
    using closed by (subst child_aclose_def) simp
  ultimately show ?thesis
    using gone actions closed_request_refused [OF closed] by (auto simp: kill_is_last_resort)
qed

theorem closing_ends_the_process_witness:
  "\<not> pr_running (child_aclose (new_child silent_server [] (transport_init\<lparr>tp_started := True\<rparr>)))"
proof -
  let ?c = "new_child silent_server [] (transport_init\<lparr>tp_started := True\<rparr>)"
  have "child_ok ?c" "pr_running ?c"
    by (simp_all add: new_child_def child_ok_def channel_open_def transport_init_def)
  from closing_ends_the_process [OF this refl] show ?thesis by blast
qed



text \<open>
  C24. Discovering a server's tools ends, whatever the server answers: it costs at most
  MAX_LIST_PAGES requests however many cursors the server hands out, and what it returns is at most
  MAX_TOOLS_PER_SERVER declarations, each with a name of 1 to 128 characters.
\<close>

theorem discovery_terminates:
  "\<exists>k \<le> MAX_LIST_PAGES. list_tools (counting C) (x, n) =
      (fst (list_tools C x), snd (list_tools C x), n + k) \<and>
    (case fst (list_tools C x) of
       Inl e \<Rightarrow> True
     | Inr ts \<Rightarrow> length ts \<le> MAX_TOOLS_PER_SERVER \<and>
         list_all (\<lambda>t. decl_name t \<noteq> [] \<and> length (decl_name t) \<le> 128) ts)"
proof -
  obtain out x' where out: "list_pages C MAX_LIST_PAGES None [] x = (out, x')" by (metis surj_pair)
  have "case out of Inl e \<Rightarrow> True
      | Inr ts \<Rightarrow> length ts \<le> MAX_TOOLS_PER_SERVER \<and>
          list_all (\<lambda>t. decl_name t \<noteq> [] \<and> length (decl_name t) \<le> 128) ts"
    using out list_pages_bound [of C] list_pages_names [of C]
    by (cases out) fastforce+
  with out show ?thesis
    using list_pages_counting [of MAX_LIST_PAGES C None "[]" x n] by (simp add: list_tools_def)
qed

text \<open>
  C25. Prompts and answers never reach the logs: a model call leaves one record, and two calls of an
  operation leave the same record exactly when their requests agree in the number of messages, of
  characters and of tools, and they ended alike: by an error of the same class, or by an answer of
  the same model, stop reason, token counts, length and tool names. Whatever the call carried, the
  printed record is one line of printable ASCII.
\<close>

theorem logs_reveal_only_shape:
  assumes "client_logs C req operation w = (out, w1, log)" "client_logs C req' operation v = (out', v1, log')"
  shows "(log = log' \<longleftrightarrow> request_shape req = request_shape req' \<and> answer_shape out = answer_shape out') \<and>
    length log = 1 \<and> (\<forall>r \<in> set log. list_all printable (format_record (context_filter ctx r)))"
proof -
  have "log = [client_log C req operation out]" "log' = [client_log C req' operation out']"
    using assms by (auto simp: client_logs_def split: prod.splits)
  then show ?thesis by (simp add: client_log_shape client_log_printable)
qed

theorem logs_reveal_only_shape_witness:
  "snd (snd (client_logs (runner_llm steady_runner) (asking_about ''Pay invoice 7'') ''agent.step'' demo_world)) =
   snd (snd (client_logs (runner_llm steady_runner) (asking_about ''Sue client no'') ''agent.step'' demo_world))"
proof -
  let ?run = "\<lambda>s. client_logs (runner_llm steady_runner) (asking_about s) ''agent.step'' demo_world"
  have split: "?run s = (fst (?run s), fst (snd (?run s)), snd (snd (?run s)))" for s by simp
  have "request_shape (asking_about ''Pay invoice 7'') = request_shape (asking_about ''Sue client no'')"
    by (simp add: request_shape_def prompt_chars_def asking_about_def)
  moreover have "answer_shape (fst (?run ''Pay invoice 7'')) = answer_shape (fst (?run ''Sue client no''))"
    by (simp add: client_logs_def llm_complete_def steady_runner_def demo_runner_def Let_def)
  ultimately show ?thesis
    using logs_reveal_only_shape [OF split [of "''Pay invoice 7''"] split [of "''Sue client no''"]] by blast
qed



text \<open>
  C27. On the in-memory repository, with working collaborators and other writers that keep to the
  lifecycle, what leaves run as an exception is one of the three documented errors - not found, an
  invalid transition from a status that cannot start, or a lost version race - and nothing was asked
  of the model or the tools. It is not found exactly when the task does not exist at the moment run
  reads it, after its first await.
\<close>

theorem run_raises_only_lifecycle_errors:
  assumes "runner_repo D = mem_port" "runner_ok D" "fair_env dict_get mem_invar e" "mem_invar (store w)"
    and "run D e i w = (Inl x, w')"
  shows "event_trace w' = event_trace w \<and>
    ((x = TaskNotFoundError i \<and> dict_get (store w) i = None) \<or>
     (\<exists>s. x = InvalidTransitionError s RUNNING \<and> s \<notin> {PENDING, AWAITING_APPROVAL}) \<or>
     (\<exists>v c. x = ConcurrentUpdateError i v c)) \<and>
    (x = TaskNotFoundError i \<longleftrightarrow> dict_get (store (await e w)) i = None)"
  using mem.run_errors [OF assms(1-4) TrueI assms(5)] mem.run_missing [OF assms(1,3,4), of i] assms(5) by auto

theorem run_raises_only_lifecycle_errors_witness:
  "event_trace (snd (run steady_runner demo_env 99 demo_world)) = event_trace demo_world \<and>
    ((TaskNotFoundError 99 = TaskNotFoundError 99 \<and> dict_get (store demo_world) 99 = None) \<or>
     (\<exists>s. TaskNotFoundError 99 = InvalidTransitionError s RUNNING \<and> s \<notin> {PENDING, AWAITING_APPROVAL}) \<or>
     (\<exists>v c. TaskNotFoundError 99 = ConcurrentUpdateError 99 v c)) \<and>
    (TaskNotFoundError 99 = TaskNotFoundError 99 \<longleftrightarrow> dict_get (store (await demo_env demo_world)) 99 = None)"
proof (rule run_raises_only_lifecycle_errors [OF steady_runner_sel(1) steady_runner_ok demo_fair demo_world_ok(1)])
  have "fst (run steady_runner demo_env 99 demo_world) = Inl (TaskNotFoundError 99)" by code_simp
  then show "run steady_runner demo_env 99 demo_world =
      (Inl (TaskNotFoundError 99), snd (run steady_runner demo_env 99 demo_world))"
    by (simp add: prod_eq_iff)
qed

text \<open>
  C28. With working collaborators and well-formed stored tasks, a resumption raises only the
  documented errors, and then nothing was asked of the model or the tools.
\<close>

theorem resume_raises_only_lifecycle_errors:
  assumes "runner_repo D = mem_port" "runner_ok D" "fair_env dict_get mem_invar e"
    and "mem_invar (store w)" "all_tasks_ok dict_get (store w)"
    and "resume D e i who note w = (Inl x, w')"
  shows "event_trace w' = event_trace w \<and>
    ((x = TaskNotFoundError i \<and> dict_get (store w) i = None) \<or> x = NotResumableError i \<or>
     (\<exists>s. x = InvalidTransitionError s RUNNING \<and> s \<noteq> AWAITING_APPROVAL) \<or>
     (\<exists>v c. x = ConcurrentUpdateError i v c))"
  by (rule mem.resume_errors [OF assms(1-5) TrueI assms(6)])

theorem resume_raises_only_lifecycle_errors_witness:
  "event_trace (snd (resume steady_runner demo_env 7 ''bo'' None demo_world)) = event_trace demo_world \<and>
    ((InvalidTransitionError PENDING RUNNING = TaskNotFoundError 7 \<and> dict_get (store demo_world) 7 = None) \<or>
     InvalidTransitionError PENDING RUNNING = NotResumableError 7 \<or>
     (\<exists>s. InvalidTransitionError PENDING RUNNING = InvalidTransitionError s RUNNING \<and> s \<noteq> AWAITING_APPROVAL) \<or>
     (\<exists>v c. InvalidTransitionError PENDING RUNNING = ConcurrentUpdateError 7 v c))"
proof (rule resume_raises_only_lifecycle_errors [OF steady_runner_sel(1) steady_runner_ok demo_fair demo_world_ok])
  have "fst (resume steady_runner demo_env 7 ''bo'' None demo_world) = Inl (InvalidTransitionError PENDING RUNNING)"
    by code_simp
  then show "resume steady_runner demo_env 7 ''bo'' None demo_world =
      (Inl (InvalidTransitionError PENDING RUNNING), snd (resume steady_runner demo_env 7 ''bo'' None demo_world))"
    by (simp add: prod_eq_iff)
qed

text \<open>
  C29. Whatever HTTP request is served, over any repository that keeps the storage contract,
  admitted or not, and however it ends: every stored task stays stored and has only moved along
  legal transitions (same identity, version and history growing together), and the invariants of the
  store and of its tasks are kept. This is what each request may rely on about all the others.
\<close>

theorem requests_are_fair_writers:
  assumes "task_repository R lookup invar storable stored" "app_repository A = R" "runner_repo (app_runner A) = R"
    and "fair_env lookup invar e" "invar (store w)" "all_tasks_ok lookup (store w)"
    and "serve A e cred req w = (out, w')"
  shows "invar (store w') \<and> repo_evolves lookup (store w) (store w') \<and>
    all_tasks_ok lookup (store w')"
proof -
  have "task_repository.app_ok R A"
    using assms(2,3) by (simp add: task_repository.app_ok_def [OF assms(1)])
  from task_repository.fair_write_serve [OF assms(1,4) this assms(7)] assms(5,6) show ?thesis
    by (simp add: task_repository.fair_write_def [OF assms(1)] task_repository.state_ok_def [OF assms(1)])
qed

theorem requests_are_fair_writers_witness:
  "mem_invar (store (snd (serve demo_app demo_env (Some ''a'') (CancelTask 7 None) held_world))) \<and>
    repo_evolves dict_get (store held_world)
      (store (snd (serve demo_app demo_env (Some ''a'') (CancelTask 7 None) held_world))) \<and>
    all_tasks_ok dict_get (store (snd (serve demo_app demo_env (Some ''a'') (CancelTask 7 None) held_world)))"
  by (rule requests_are_fair_writers [OF mem.task_repository_axioms _ _ demo_fair held_world_ok prod.collapse [symmetric]])
     (simp_all add: demo_app_def)

text \<open>
  C30. A working application answers no request with an unhandled exception: every failure is a 401,
  403, 404, 409 or 422, provided a new task's id is fresh.
\<close>

theorem failures_have_status_codes:
  assumes "app_repository A = mem_port" "runner_repo (app_runner A) = mem_port" "runner_ok (app_runner A)"
    and "mk_authenticator (app_digest A) clients = Inr (app_authenticator A)" "list_all api_client_ok clients"
    and "fair_env dict_get mem_invar e" "mem_invar (store w)" "all_tasks_ok dict_get (store w)"
    and "\<And>new_id g. req = CreateTask new_id g \<Longrightarrow> dict_get (store (await e w)) new_id = None"
    and "serve A e cred req w = (Inl x, w')"
  shows "\<exists>code detail challenge. x = HTTPError code detail challenge \<and> code \<in> {401, 403, 404, 409, 422}"
proof -
  have A: "mem.app_ok A" using assms(1,2) by (simp add: mem.app_ok_def)
  have ok: "mem.state_ok w" using assms(7,8) by (simp add: mem.state_ok_def)
  have "mapped x"
    using assms(10)
  proof (cases rule: serve_cases)
    case (denied y)
    with authorised_Inl [OF denied(1)] show ?thesis by auto
  next
    case (admitted p)
    obtain token where "authenticate (app_digest A) (app_authenticator A) token = Some p"
      using admitted(1) by (auto simp: authorised_Inr)
    then have "valid_subject (subject p)"
      using authenticate_iff [OF assms(4)] assms(5)
      by (auto simp: api_client_ok_def client_principal_def list_all_iff)
    from mem.handle_mapped [OF A assms(3,6) ok TrueI this assms(9) admitted(2)] show ?thesis .
  qed
  then show ?thesis by (cases x) auto
qed

theorem failures_have_status_codes_witness:
  "\<exists>code detail challenge. projl (fst (serve steady_app demo_env None (RunTask 7) demo_world)) =
    HTTPError code detail challenge \<and> code \<in> {401, 403, 404, 409, 422}"
proof (rule failures_have_status_codes [OF _ _ _ steady_authenticator demo_clients_ok demo_fair demo_world_ok])
  show "app_repository steady_app = mem_port" "runner_repo (app_runner steady_app) = mem_port"
    "runner_ok (app_runner steady_app)"
    using steady_runner_ok by (simp_all add: steady_app_def demo_app_def)
  show "serve steady_app demo_env None (RunTask 7) demo_world =
    (Inl (projl (fst (serve steady_app demo_env None (RunTask 7) demo_world))),
     snd (serve steady_app demo_env None (RunTask 7) demo_world))"
    by (simp add: serve_def guarded_def authorised_def current_principal_def)
qed simp

text \<open>
  C31. A request whose token is unknown, missing or lacks every scope of the route changes nothing,
  asks nothing of model or tools, and is answered 401 with a challenge or 403 without one.
\<close>

theorem closed_without_credential:
  assumes "\<nexists>token p. cred = Some token \<and>
      authenticate (app_digest A) (app_authenticator A) token = Some p \<and>
      set (scopes p) \<inter> set (required_scopes req) \<noteq> {}"
  shows "\<exists>d. serve A e cred req w = (Inl (HTTPError 401 d True), w) \<or>
    serve A e cred req w = (Inl (HTTPError 403 d False), w)"
proof (cases "authorised (app_digest A) (app_authenticator A) (required_scopes req) cred")
  case (Inl x)
  with authorised_Inl [OF Inl] show ?thesis by (auto simp: serve_def guarded_def)
next
  case (Inr p)
  with assms show ?thesis by (auto simp: authorised_Inr holds_any_iff)
qed

theorem closed_without_credential_witness:
  "\<exists>d. serve demo_app demo_env (Some ''a'') (ApproveTask 7 None) held_world =
      (Inl (HTTPError 401 d True), held_world) \<or>
    serve demo_app demo_env (Some ''a'') (ApproveTask 7 None) held_world =
      (Inl (HTTPError 403 d False), held_world)"
  by (rule closed_without_credential) (simp add: demo_app_def authenticate_def)

text \<open>
  C32. A rejection that returns moved the very version that awaited approval to cancelled, with
  'rejected by <who>' as the recorded reason and no checkpoint left to replay; nothing was asked of
  model or tools, and the task can never be run or resumed again.
\<close>

theorem rejection_cancels_and_forgets:
  assumes "task_repository R lookup invar storable stored"
    and "runner_repo D = R" "fair_env lookup invar e" "invar (store w)"
    and "reject D e i who why w = (Inr t, w')"
  shows "lookup (store w') i = Some (stored t) \<and> status t = CANCELLED \<and> checkpoint t = None \<and>
    reason (last (history t)) = Some (with_note (''rejected by '' @ who) why) \<and>
    event_trace w' = event_trace w \<and>
    (\<exists>p. lookup (store (await e w)) i = Some p \<and> status p = AWAITING_APPROVAL \<and> legal_step p t) \<and>
    run D e i w' = (Inl (InvalidTransitionError CANCELLED RUNNING), await e w') \<and>
    resume D e i other note w' = (Inl (InvalidTransitionError CANCELLED RUNNING), await e w')"
proof -
  obtain p at where p: "lookup (store (await e w)) i = Some p" "status p = AWAITING_APPROVAL"
      "transition_to p CANCELLED (Some (with_note (''rejected by '' @ who) why)) None at = Inr t"
      "lookup (store w') i = Some (stored t)" "event_trace w' = event_trace w"
    using task_repository.reject_result [OF assms] by auto
  have t: "status t = CANCELLED" "checkpoint t = None"
      "reason (last (history t)) = Some (with_note (''rejected by '' @ who) why)"
    using p(3) by (simp_all add: transition_to_eq)
  have inv: "invar (store w')"
    using task_repository.reject_keeps_invar [OF assms] .
  have "is_terminal (stored t)"
    using t(1) by (simp add: is_terminal_def task_repository.stored_sel [OF assms(1)])
  from task_repository.terminal_not_started [OF assms(1-3) inv p(4) this] t p transition_to_legal [OF p(3)]
  show ?thesis by (auto simp: task_repository.stored_sel [OF assms(1)])
qed

theorem rejection_cancels_and_forgets_witness:
  "\<exists>t w'. dict_get (store w') 7 = Some (id t) \<and> status t = CANCELLED \<and> checkpoint t = None \<and>
    reason (last (history t)) = Some (with_note (''rejected by '' @ ''bo'') None) \<and>
    event_trace w' = event_trace held_world \<and>
    (\<exists>p. dict_get (store (await demo_env held_world)) 7 = Some p \<and> status p = AWAITING_APPROVAL \<and>
      legal_step p t) \<and>
    run demo_runner demo_env 7 w' = (Inl (InvalidTransitionError CANCELLED RUNNING), await demo_env w') \<and>
    resume demo_runner demo_env 7 ''cy'' None w' =
      (Inl (InvalidTransitionError CANCELLED RUNNING), await demo_env w')"
proof -
  have "map_sum (\<lambda>_. ()) (\<lambda>_. ()) (fst (reject demo_runner demo_env 7 ''bo'' None held_world)) = Inr ()"
    by code_simp
  then obtain t where "reject demo_runner demo_env 7 ''bo'' None held_world =
      (Inr t, snd (reject demo_runner demo_env 7 ''bo'' None held_world))"
    by (cases "fst (reject demo_runner demo_env 7 ''bo'' None held_world)") (auto simp: prod_eq_iff)
  from rejection_cancels_and_forgets [OF mem.task_repository_axioms demo_repo demo_fair held_world_ok(1) this, of "''cy''" None]
  show ?thesis by blast
qed



text \<open>
  C34. A provider that breaks its contract strands the task: on the in-memory repository, with a
  well-formed registry and positive limits, when nobody else writes, the task is pending, and every
  model call raises the same exception, which is neither a deadline nor an LLM error, that exception
  leaves run unchanged, the stored task stays running, and a second run of it is refused as an
  invalid transition from running to running.
\<close>

theorem stray_provider_exception_strands_task:
  assumes "runner_repo D = mem_port" "registry_ok (runner_tools D)" "1 \<le> max_steps D" "1 \<le> max_tokens D"
    and "alone e" "mem_invar (store w)" "dict_get (store w) i = Some t" "status t = PENDING"
    and "\<And>req s. provider_complete (client_provider (runner_llm D)) req s = (Inl x, s)"
    and "x \<noteq> TimeoutError" "\<nexists>le. x = LLM le"
  shows "\<exists>w' t'. run D e i w = (Inl x, w') \<and> dict_get (store w') i = Some t' \<and> status t' = RUNNING \<and>
    fst (run D e i w') = Inl (InvalidTransitionError RUNNING RUNNING)"
  by (rule mem.run_escape_alone [OF assms(1-5) TrueI assms(6-11)])

theorem stray_provider_exception_strands_task_witness:
  "\<exists>w' t'. run broken_runner demo_env 7 demo_world = (Inl (RuntimeError ''bug''), w') \<and>
    dict_get (store w') 7 = Some t' \<and> status t' = RUNNING \<and>
    fst (run broken_runner demo_env 7 w') = Inl (InvalidTransitionError RUNNING RUNNING)"
  by (rule stray_provider_exception_strands_task [OF broken_runner_sel(1) _ _ _ demo_alone demo_world_ok(1) demo_task_pending])
     (simp_all add: demo_registry_ok, simp add: broken_runner_def)

text \<open>
  C35. The lifecycle, pair by pair: a pending task can start or be cancelled, a running one can
  pause for approval, complete, fail or be cancelled, a paused one can run again or be cancelled,
  and there is nothing else. A transition succeeds along exactly these pairs, unless it brings a
  checkpoint to a status other than awaiting approval, and then gives the task with the same
  identity, the new status, the next version, the given time and checkpoint and one more history
  entry; off these pairs it is refused as an invalid transition naming both statuses, and a
  misplaced checkpoint is a ValueError. Exactly completed, failed and cancelled tasks are terminal.
\<close>

theorem transitions_are_the_legal_steps:
  "let lifecycle = {(PENDING, RUNNING), (PENDING, CANCELLED), (RUNNING, AWAITING_APPROVAL), (RUNNING, COMPLETED),
      (RUNNING, FAILED), (RUNNING, CANCELLED), (AWAITING_APPROVAL, RUNNING), (AWAITING_APPROVAL, CANCELLED)};
     misplaced = (cp \<noteq> None \<and> target \<noteq> AWAITING_APPROVAL)
   in (\<forall>t'. transition_to t target why cp at = Inr t' \<longleftrightarrow>
         (status t, target) \<in> lifecycle \<and> \<not> misplaced \<and>
         task_id t' = task_id t \<and> goal t' = goal t \<and> requested_by t' = requested_by t \<and> created_at t' = created_at t \<and>
         status t' = target \<and> version t' = version t + 1 \<and> updated_at t' = at \<and> checkpoint t' = cp \<and>
         history t' = history t @ [\<lparr>from_status = status t, to_status = target, at_time = at, reason = why\<rparr>]) \<and>
      (\<forall>x. transition_to t target why cp at = Inl x \<longleftrightarrow>
         ((status t, target) \<notin> lifecycle \<and> x = InvalidTransitionError (status t) target) \<or>
         ((status t, target) \<in> lifecycle \<and> misplaced \<and>
          x = ValueError (''a '' @ quoted (status_value target) @ '' task cannot carry a run checkpoint''))) \<and>
      (is_terminal t \<longleftrightarrow> status t \<in> {COMPLETED, FAILED, CANCELLED})"
  unfolding Let_def transition_to_Inl is_terminal_iff
proof (intro conjI allI)
  fix t'
  show "transition_to t target why cp at = Inr t' \<longleftrightarrow>
      (status t, target) \<in> {(PENDING, RUNNING), (PENDING, CANCELLED), (RUNNING, AWAITING_APPROVAL), (RUNNING, COMPLETED),
        (RUNNING, FAILED), (RUNNING, CANCELLED), (AWAITING_APPROVAL, RUNNING), (AWAITING_APPROVAL, CANCELLED)} \<and>
      \<not> (cp \<noteq> None \<and> target \<noteq> AWAITING_APPROVAL) \<and>
      task_id t' = task_id t \<and> goal t' = goal t \<and> requested_by t' = requested_by t \<and> created_at t' = created_at t \<and>
      status t' = target \<and> version t' = version t + 1 \<and> updated_at t' = at \<and> checkpoint t' = cp \<and>
      history t' = history t @ [\<lparr>from_status = status t, to_status = target, at_time = at, reason = why\<rparr>]"
    unfolding transition_to_eq by (cases t; cases t'; cases "status t"; cases target) auto
next
  fix x
  show "(target \<notin> set (ALLOWED_TRANSITIONS (status t)) \<and> x = InvalidTransitionError (status t) target \<or>
      target \<in> set (ALLOWED_TRANSITIONS (status t)) \<and> cp \<noteq> None \<and> target \<noteq> AWAITING_APPROVAL \<and>
      x = ValueError (''a '' @ quoted (status_value target) @ '' task cannot carry a run checkpoint'')) \<longleftrightarrow>
    ((status t, target) \<notin> {(PENDING, RUNNING), (PENDING, CANCELLED), (RUNNING, AWAITING_APPROVAL), (RUNNING, COMPLETED),
        (RUNNING, FAILED), (RUNNING, CANCELLED), (AWAITING_APPROVAL, RUNNING), (AWAITING_APPROVAL, CANCELLED)} \<and>
      x = InvalidTransitionError (status t) target) \<or>
    ((status t, target) \<in> {(PENDING, RUNNING), (PENDING, CANCELLED), (RUNNING, AWAITING_APPROVAL), (RUNNING, COMPLETED),
        (RUNNING, FAILED), (RUNNING, CANCELLED), (AWAITING_APPROVAL, RUNNING), (AWAITING_APPROVAL, CANCELLED)} \<and>
      (cp \<noteq> None \<and> target \<noteq> AWAITING_APPROVAL) \<and>
      x = ValueError (''a '' @ quoted (status_value target) @ '' task cannot carry a run checkpoint''))"
    by (cases "status t"; cases target) auto
qed simp

text \<open>
  C36. A created task is well formed and every transition keeps it so: the version counts the
  history, the history is a path of the lifecycle from pending to the current status, the last
  entry's time is the update time, and a checkpoint is present only while awaiting approval, with a
  conversation whose last turn is the one with the open calls.
\<close>

theorem tasks_stay_well_formed:
  assumes "create i g by_whom at = Inr t0" "evolves t0 t"
    and "transition_to t target why cp at' = Inr t'" "task_ok t"
    and "\<And>c. cp = Some c \<Longrightarrow> paused_ok c"
  shows "task_ok t0 \<and> task_ok t' \<and> version t' = 1 + int (length (history t')) \<and>
    history_path PENDING (history t') (status t') \<and> same_identity t0 t'"
proof -
  have "task_ok t'" by (rule transition_to_ok [OF assms(3,4,5)])
  moreover have "evolves t0 t'"
    using assms(2) transition_to_legal [OF assms(3)] by (rule rtranclp.rtrancl_into_rtrancl)
  ultimately show ?thesis
    using create_ok [OF assms(1)] evolves_identity by (auto simp: task_ok_def)
qed

theorem tasks_stay_well_formed_witness:
  "task_ok demo_task \<and> task_ok started_task \<and> version started_task = 1 + int (length (history started_task)) \<and>
    history_path PENDING (history started_task) (status started_task) \<and> same_identity demo_task started_task"
proof (rule tasks_stay_well_formed [OF _ rtranclp.rtrancl_refl started_task_eq(1)])
  have "create 7 ''Pay invoice 7'' ''ana'' 900 = Inr demo_task" by code_simp
  then show "create 7 ''Pay invoice 7'' ''ana'' 900 = Inr demo_task" .
  show "task_ok demo_task" by (simp add: task_ok_def demo_task_def)
qed simp

text \<open>
  C37. The calls of a turn run concurrently, in an order nobody controls, yet the results come back
  in the order of the calls, each with its call's id and each what executing that call returns;
  every handler ran at most once per call and only for a registered tool.
\<close>

theorem turn_results_match_calls:
  assumes "execute_all reg prio calls (w :: 'x outside) = (rs, w')"
  shows "map res_call_id rs = map call_id calls \<and>
    (\<forall>j < length calls. \<exists>v v' :: 'x outside. execute reg (calls ! j) v = (rs ! j, v')) \<and>
    (\<exists>js. event_trace w' = event_trace w @ map (\<lambda>j. HandlerRun (calls ! j)) js \<and> distinct js \<and>
       set js \<subseteq> {0..<length calls} \<and> (\<forall>j \<in> set js. get_tool reg (call_name (calls ! j)) \<noteq> None))"
  using execute_all_ids [OF assms] execute_all_each [OF assms] execute_all_trace [OF assms] by blast

theorem turn_results_match_calls_witness:
  "\<exists>rs w'. map res_call_id rs = map call_id [pay_call, lookup_call] \<and>
    (\<forall>j < length [pay_call, lookup_call]. \<exists>v v' :: fake_state outside.
       execute demo_registry ([pay_call, lookup_call] ! j) v = (rs ! j, v')) \<and>
    (\<exists>js. event_trace (w' :: fake_state outside) =
         event_trace (outside.make \<lparr>fake_script = [], fake_requests = []\<rparr> []) @
           map (\<lambda>j. HandlerRun ([pay_call, lookup_call] ! j)) js \<and> distinct js \<and>
       set js \<subseteq> {0..<length [pay_call, lookup_call]} \<and>
       (\<forall>j \<in> set js. get_tool demo_registry (call_name ([pay_call, lookup_call] ! j)) \<noteq> None))"
proof -
  obtain rs w' where "execute_all demo_registry (\<lambda>i. 1 - i) [pay_call, lookup_call]
      (outside.make \<lparr>fake_script = [], fake_requests = []\<rparr> []) = (rs, w')"
    by (metis surj_pair)
  from turn_results_match_calls [OF this] show ?thesis by blast
qed

text \<open>
  C38. Settings are constructed exactly when they satisfy the declared constraints (positive limits,
  at most 50 steps, unique client subjects and server names, a consistent pool, a database url for
  the PostgreSQL store) and, in production, name a real model backend, no demo tools, a durable
  store and at least one credential; construction changes nothing.
\<close>

theorem settings_are_validated:
  "mk_settings s = Inr s' \<longleftrightarrow>
     s' = s \<and> settings_ok s \<and> (deployed_to s = production \<longrightarrow> fit_for_production s)"
  by (rule mk_settings_eq)

theorem settings_are_validated_witness:
  "settings_ok default_settings \<and>
   \<not> (\<exists>s'. mk_settings (default_settings\<lparr>deployed_to := production\<rparr>) = Inr s')"
  using settings_are_validated [of default_settings default_settings]
    settings_are_validated [of "default_settings\<lparr>deployed_to := production\<rparr>"] default_settings_ok
  by (simp add: fit_for_production_def) (simp add: default_settings_def)

text \<open>
  C39. With settings valid for production the model client is built, its backend is the Anthropic
  adapter for the configured model, every answer it accepts is a well-formed completion, and when
  the SDK raises only its documented errors, or is cut off by the caller's deadline, every failure
  that reaches the runner is that deadline or an error of the platform's own taxonomy, the only
  kinds the runner turns into a recorded outcome - with one exception: an answer to that very
  request that breaks the rules of the API itself (a repeated or empty tool use id, an illegal tool
  name, a negative count, a stop for tools without one) leaves the adapter as a ValidationError.
\<close>

theorem production_model_keeps_the_taxonomy:
  assumes "mk_settings s = Inr s" "deployed_to s = production"
    and "\<And>args x e. fst (sdk_of (build_anthropic_client s) args x) = Inl (RaisedBySDK e) \<Longrightarrow> e = TimeoutError"
  shows "\<exists>C name. build_llm_client unscripted sdk_of s = Inr C \<and>
    client_provider C = anthropic_provider name (llm_model s) (sdk_of (build_anthropic_client s)) \<and>
    provider_ok (client_provider C) \<and>
    (\<forall>req x e x'. provider_complete (client_provider C) req x = (Inl e, x') \<longrightarrow>
       e = TimeoutError \<or> (\<exists>le. e = LLM le) \<or>
       (\<exists>m msg. sdk_of (build_anthropic_client s) (create_arguments (llm_model s) req) x = (Inr m, x') \<and>
          \<not> sdk_message_ok m \<and> e = ValidationError msg))"
proof -
  obtain C name where C: "build_llm_client unscripted sdk_of s = Inr C"
      "client_provider C = anthropic_provider name (llm_model s) (sdk_of (build_anthropic_client s))"
    using production_client [OF assms(1,2)] by blast
  have "sdk_documented (sdk_of (build_anthropic_client s))"
    using assms(3) unfolding sdk_documented_def by blast
  from anthropic_failures [OF this] C anthropic_provider_ok show ?thesis by (metis C(2))
qed

theorem production_model_keeps_the_taxonomy_witness:
  "\<exists>C. build_llm_client (fake_provider ''fake-1'') (\<lambda>c args x. (Inr polite_answer, x)) production_settings = Inr C \<and>
    provider_ok (client_provider C) \<and>
    (\<forall>req x e x'. provider_complete (client_provider C) req x = (Inl e, x') \<longrightarrow> e = TimeoutError \<or> (\<exists>le. e = LLM le))"
proof -
  have s: "mk_settings production_settings = Inr production_settings" "deployed_to production_settings = production"
    by (simp_all add: mk_settings_eq production_settings_def default_settings_def settings_ok_def
        fit_for_production_def demo_clients_def)
  have "sdk_message_ok polite_answer"
    by (simp add: sdk_message_ok_def polite_answer_def use_ids_def)
  with production_model_keeps_the_taxonomy [of production_settings "\<lambda>c args x. (Inr polite_answer, x)"
      "fake_provider ''fake-1''", OF s]
  show ?thesis by auto
qed

text \<open>
  C40. Around every HTTP request the middleware picks an identifier of at most 128 harmless
  characters, the caller's if it is one and a fresh UUID otherwise; every response that starts
  carries it, the fallback for an unhandled exception included; an exception leaves only when a
  response had started; the context is as before; and each log line it writes is printable ASCII on
  one line, whatever the caller sent, and decodes to the record's fields.
\<close>

theorem every_response_names_its_request:
  assumes "middleware fresh header verb path app c = (sent, ends, log, c')"
  shows "valid_request_id (resolve_request_id fresh header) \<and>
    (\<forall>code headers. ResponseStart code headers \<in> set sent \<longrightarrow>
       dict_get headers REQUEST_ID_HEADER = Some (resolve_request_id fresh header)) \<and>
    (\<forall>x traceback. ends = AppRaised x traceback \<longrightarrow> (\<exists>code headers. ResponseStart code headers \<in> set sent)) \<and>
    ctx_request_id c' = ctx_request_id c \<and>
    (\<forall>r \<in> set log. list_all printable (format_record r) \<and>
       json_loads (format_record r) = Some (JObj (log_payload r)))"
  using middleware_correct [OF assms] middleware_log_printable [OF assms] middleware_log_decodes [OF assms]
    resolve_valid by blast

theorem every_response_names_its_request_witness:
  "dict_get [(''content-length'', ''34''), (''content-type'', ''application/json''),
      (REQUEST_ID_HEADER, resolve_request_id 0 (Some ''req-7''))] REQUEST_ID_HEADER =
    Some (resolve_request_id 0 (Some ''req-7''))"
proof -
  let ?out = "middleware 0 (Some ''req-7'') ''GET'' ''/health'' (\<lambda>c. (([], AppRaised TimeoutError ''TimeoutError''), c))
    \<lparr>ctx_request_id = None, ctx_principal = None\<rparr>"
  have "?out = (fst ?out, fst (snd ?out), fst (snd (snd ?out)), snd (snd (snd ?out)))" by simp
  note all = every_response_names_its_request [OF this]
  have "ResponseStart 500 [(''content-length'', ''34''), (''content-type'', ''application/json''),
      (REQUEST_ID_HEADER, resolve_request_id 0 (Some ''req-7''))] \<in> set (fst ?out)"
    by (simp add: middleware_def internal_server_error_def REQUEST_ID_HEADER_def Let_def)
  with all show ?thesis by blast
qed

end
